(* ===== verification/Prelude.thy ===== *)
theory Prelude
  imports Main "HOL-Library.Sublist"
begin

text \<open>
  Shared vocabulary of the development.

  An asynchronous TypeScript method is modelled as a state transformer with exceptions:
  \<open>('e, 'w, 'a) eff\<close> takes the world, returns the value or the exception, and the
  world it leaves behind (a \<open>throw\<close> does not undo what was done before it).
  \<open>andThen\<close> is \<open>await\<close> followed by the rest of the method, \<open>catch\<close> is
  \<open>try/catch\<close>, \<open>both\<close> is \<open>Promise.all\<close> of two calls.

  Three proof devices are set up here.  \<open>wp\<close> turns a run into a predicate, with
  the collection \<open>wp_simps\<close>.  \<open>preserves\<close> states that a method keeps an
  invariant of the world, whether it returns or throws, with the rules
  \<open>preserves_intros\<close>.  The lemmas on rows of a table (\<open>find_row\<close>,
  \<open>map_row\<close>) are used by every repository.
\<close>

named_theorems wp_simps "evaluation of weakest preconditions"
named_theorems preserves_intros "rules for the preservation of invariants"

type_synonym ('e, 'w, 'a) eff = "'w \<Rightarrow> ('e + 'a) \<times> 'w"

definition ret :: "'a \<Rightarrow> ('e, 'w, 'a) eff" where
  "ret x = (\<lambda>w. (Inr x, w))"

definition throw :: "'e \<Rightarrow> ('e, 'w, 'a) eff" where
  "throw e = (\<lambda>w. (Inl e, w))"

definition andThen :: "('e, 'w, 'a) eff \<Rightarrow> ('a \<Rightarrow> ('e, 'w, 'b) eff) \<Rightarrow> ('e, 'w, 'b) eff" where
  "andThen m f = (\<lambda>w. case m w of (r, w') \<Rightarrow> (case r of Inl e \<Rightarrow> (Inl e, w') | Inr x \<Rightarrow> f x w'))"

definition catch :: "('e, 'w, 'a) eff \<Rightarrow> ('e \<Rightarrow> ('e, 'w, 'a) eff) \<Rightarrow> ('e, 'w, 'a) eff" where
  "catch m h = (\<lambda>w. case m w of (r, w') \<Rightarrow> (case r of Inl e \<Rightarrow> h e w' | Inr x \<Rightarrow> (Inr x, w')))"

text \<open>The outcome of a call as a value, for a \<open>try\<close> block whose result is used after it.\<close>

definition attempt :: "('e, 'w, 'a) eff \<Rightarrow> ('e, 'w, 'e + 'a) eff" where
  "attempt m = (\<lambda>w. case m w of (r, w') \<Rightarrow> (Inr r, w'))"

text \<open>
  \<open>Promise.all([m, k])\<close>: both calls are started, so the second one runs even when the
  first one rejects.  The calls are run one after the other; when both reject, the
  rejection of the first is reported.
\<close>

definition both :: "('e, 'w, 'a) eff \<Rightarrow> ('e, 'w, 'b) eff \<Rightarrow> ('e, 'w, 'a \<times> 'b) eff" where
  "both m k = andThen (attempt m) (\<lambda>a. andThen (attempt k) (\<lambda>b.
     case a of Inl e \<Rightarrow> throw e
     | Inr x \<Rightarrow> (case b of Inl e \<Rightarrow> throw e | Inr y \<Rightarrow> ret (x, y))))"

text \<open>Lift a computation that only may fail.\<close>

definition lift_res :: "'e + 'a \<Rightarrow> ('e, 'w, 'a) eff" where
  "lift_res r = (\<lambda>w. (r, w))"

section \<open>Runs\<close>

lemma ret_run: "ret x w = (Inr x, w)"
  by (simp add: ret_def)

lemma throw_run: "throw e w = (Inl e, w)"
  by (simp add: throw_def)

lemma lift_res_run: "lift_res r w = (r, w)"
  by (simp add: lift_res_def)

lemma andThen_Inr: "m w = (Inr x, w') \<Longrightarrow> andThen m f w = f x w'"
  by (simp add: andThen_def)

lemma andThen_Inl: "m w = (Inl e, w') \<Longrightarrow> andThen m f w = (Inl e, w')"
  by (simp add: andThen_def)

lemma andThen_ret [simp]: "andThen (ret x) f = f x"
  by (simp add: andThen_def ret_def throw_def)

lemma andThen_throw [simp]: "andThen (throw e) f = throw e"
  by (simp add: andThen_def ret_def throw_def)

lemma andThen_assoc: "andThen (andThen m f) g = andThen m (\<lambda>x. andThen (f x) g)"
  by (simp add: andThen_def fun_eq_iff split: prod.splits sum.splits)

lemma catch_ret [simp]: "catch (ret x) h = ret x"
  by (simp add: catch_def ret_def throw_def)

lemma catch_throw [simp]: "catch (throw e) h = h e"
  by (simp add: catch_def ret_def throw_def)

text \<open>
  The equations of the returning calls are not simplification rules: the simplifier would
  apply them below \<open>wp\<close> and \<open>preserves\<close>, whose rules match the calls themselves.
\<close>

lemmas run_defs = ret_run throw_run lift_res_run andThen_def catch_def attempt_def both_def

lemma catch_Inr: "m w = (Inr x, w') \<Longrightarrow> catch m h w = (Inr x, w')"
  by (simp add: catch_def)

lemma catch_Inl: "m w = (Inl e, w') \<Longrightarrow> catch m h w = h e w'"
  by (simp add: catch_def)

lemma andThen_returns:
  assumes "andThen m f w = (Inr y, w'')"
  obtains x w' where "m w = (Inr x, w')" and "f x w' = (Inr y, w'')"
  using assms by (auto simp: andThen_def split: prod.splits sum.splits)

section \<open>Weakest preconditions\<close>

definition wp :: "('e, 'w, 'a) eff \<Rightarrow> ('a \<Rightarrow> 'w \<Rightarrow> bool) \<Rightarrow> ('e \<Rightarrow> 'w \<Rightarrow> bool) \<Rightarrow> 'w \<Rightarrow> bool" where
  "wp m Q E w = (case m w of (r, w') \<Rightarrow> (case r of Inl e \<Rightarrow> E e w' | Inr x \<Rightarrow> Q x w'))"

lemma wp_ret [wp_simps]: "wp (ret x) Q E w = Q x w"
  by (simp add: wp_def ret_run)

lemma wp_throw [wp_simps]: "wp (throw e) Q E w = E e w"
  by (simp add: wp_def throw_run)

lemma wp_lift_res [wp_simps]:
  "wp (lift_res r) Q E w = (case r of Inl e \<Rightarrow> E e w | Inr x \<Rightarrow> Q x w)"
  by (simp add: wp_def lift_res_run)

lemma wp_andThen [wp_simps]: "wp (andThen m f) Q E w = wp m (\<lambda>x. wp (f x) Q E) E w"
  by (simp add: wp_def andThen_def split: prod.splits sum.splits)

lemma wp_catch [wp_simps]: "wp (catch m h) Q E w = wp m Q (\<lambda>e. wp (h e) Q E) w"
  by (simp add: wp_def catch_def split: prod.splits sum.splits)

lemma wp_attempt [wp_simps]:
  "wp (attempt m) Q E w = wp m (\<lambda>x. Q (Inr x)) (\<lambda>e. Q (Inl e)) w"
  by (simp add: wp_def attempt_def split: prod.splits sum.splits)

lemma wp_if [wp_simps]: "wp (if c then m else k) Q E w = (if c then wp m Q E w else wp k Q E w)"
  by simp

lemma wp_let [wp_simps]: "wp (let x = t in m x) Q E w = (let x = t in wp (m x) Q E w)"
  by simp

lemma wp_case_option [wp_simps]:
  "wp (case x of None \<Rightarrow> m | Some y \<Rightarrow> k y) Q E w =
     (case x of None \<Rightarrow> wp m Q E w | Some y \<Rightarrow> wp (k y) Q E w)"
  by (simp split: option.split)

lemma wp_case_sum [wp_simps]:
  "wp (case x of Inl e \<Rightarrow> m e | Inr y \<Rightarrow> k y) Q E w =
     (case x of Inl e \<Rightarrow> wp (m e) Q E w | Inr y \<Rightarrow> wp (k y) Q E w)"
  by (simp split: sum.split)

lemma wp_case_prod [wp_simps]:
  "wp (case x of (a, b) \<Rightarrow> m a b) Q E w = (case x of (a, b) \<Rightarrow> wp (m a b) Q E w)"
  by (simp split: prod.split)

lemma wp_mono:
  assumes "wp m Q E w" and "\<And>x w'. Q x w' \<Longrightarrow> Q' x w'" and "\<And>e w'. E e w' \<Longrightarrow> E' e w'"
  shows "wp m Q' E' w"
  using assms by (auto simp: wp_def split: prod.splits sum.splits)

lemma wp_run: "m w = (r, w') \<Longrightarrow> wp m Q E w = (case r of Inl e \<Rightarrow> E e w' | Inr x \<Rightarrow> Q x w')"
  by (simp add: wp_def)

lemma wp_returnsD: "wp m Q E w \<Longrightarrow> m w = (Inr x, w') \<Longrightarrow> Q x w'"
  by (simp add: wp_def ret_run)

lemma wp_throwsD: "wp m Q E w \<Longrightarrow> m w = (Inl e, w') \<Longrightarrow> E e w'"
  by (simp add: wp_def)

section \<open>Invariants kept by a call\<close>

definition preserves :: "('w \<Rightarrow> bool) \<Rightarrow> ('e, 'w, 'a) eff \<Rightarrow> bool" where
  "preserves I m \<longleftrightarrow> (\<forall>w. I w \<longrightarrow> I (snd (m w)))"

lemma preservesD: "preserves I m \<Longrightarrow> I w \<Longrightarrow> I (snd (m w))"
  by (simp add: preserves_def)

lemma preserves_runD: "preserves I m \<Longrightarrow> m w = (r, w') \<Longrightarrow> I w \<Longrightarrow> I w'"
  by (metis preservesD snd_conv)

lemma preserves_ret [preserves_intros]: "preserves I (ret x)"
  by (simp add: preserves_def run_defs)

lemma preserves_throw [preserves_intros]: "preserves I (throw e)"
  by (simp add: preserves_def run_defs)

lemma preserves_lift_res [preserves_intros]: "preserves I (lift_res r)"
  by (simp add: preserves_def run_defs)

lemma preserves_andThen [preserves_intros]:
  "preserves I m \<Longrightarrow> (\<And>x. preserves I (f x)) \<Longrightarrow> preserves I (andThen m f)"
  by (auto simp: preserves_def andThen_def split: prod.splits sum.splits)

text \<open>The second call may rely on how its argument came about.\<close>

lemma preserves_andThen_run:
  assumes "preserves I m" and "\<And>x w w'. I w \<Longrightarrow> m w = (Inr x, w') \<Longrightarrow> preserves I (f x)"
  shows "preserves I (andThen m f)"
  using assms unfolding preserves_def andThen_def
  by (auto split: prod.splits sum.splits)

lemma preserves_catch [preserves_intros]:
  "preserves I m \<Longrightarrow> (\<And>e. preserves I (h e)) \<Longrightarrow> preserves I (catch m h)"
  by (auto simp: preserves_def catch_def split: prod.splits sum.splits)

lemma preserves_attempt [preserves_intros]: "preserves I m \<Longrightarrow> preserves I (attempt m)"
  by (auto simp: preserves_def attempt_def split: prod.splits)

lemma preserves_if [preserves_intros]:
  "(c \<Longrightarrow> preserves I m) \<Longrightarrow> (\<not> c \<Longrightarrow> preserves I k) \<Longrightarrow> preserves I (if c then m else k)"
  by simp

lemma preserves_case_option [preserves_intros]:
  "(x = None \<Longrightarrow> preserves I m) \<Longrightarrow> (\<And>y. x = Some y \<Longrightarrow> preserves I (k y)) \<Longrightarrow>
   preserves I (case x of None \<Rightarrow> m | Some y \<Rightarrow> k y)"
  by (simp split: option.split)

lemma preserves_case_sum [preserves_intros]:
  "(\<And>e. x = Inl e \<Longrightarrow> preserves I (m e)) \<Longrightarrow> (\<And>y. x = Inr y \<Longrightarrow> preserves I (k y)) \<Longrightarrow>
   preserves I (case x of Inl e \<Rightarrow> m e | Inr y \<Rightarrow> k y)"
  by (simp split: sum.split)

lemma preserves_case_prod [preserves_intros]:
  "(\<And>a b. x = (a, b) \<Longrightarrow> preserves I (m a b)) \<Longrightarrow> preserves I (case x of (a, b) \<Rightarrow> m a b)"
  by (simp split: prod.split)

lemma preserves_both [preserves_intros]:
  "preserves I m \<Longrightarrow> preserves I k \<Longrightarrow> preserves I (both m k)"
  unfolding both_def by (intro preserves_intros)

lemma preserves_conj:
  "preserves I m \<Longrightarrow> preserves J m \<Longrightarrow> preserves (\<lambda>w. I w \<and> J w) m"
  by (simp add: preserves_def)

section \<open>Rows of a table\<close>

text \<open>\<open>SELECT ... WHERE p\<close> and the first row of its result.\<close>

definition find_row :: "('r \<Rightarrow> bool) \<Rightarrow> 'r list \<Rightarrow> 'r option" where
  "find_row p rs = (case filter p rs of [] \<Rightarrow> None | r # _ \<Rightarrow> Some r)"

text \<open>\<open>UPDATE ... SET f WHERE p\<close>.\<close>

definition map_row :: "('r \<Rightarrow> bool) \<Rightarrow> ('r \<Rightarrow> 'r) \<Rightarrow> 'r list \<Rightarrow> 'r list" where
  "map_row p f rs = map (\<lambda>r. if p r then f r else r) rs"

lemma find_row_Nil [simp]: "find_row p [] = None"
  by (simp add: find_row_def)

lemma find_row_Cons [simp]: "find_row p (r # rs) = (if p r then Some r else find_row p rs)"
  by (simp add: find_row_def)

lemma find_row_None: "find_row p rs = None \<longleftrightarrow> (\<forall>r \<in> set rs. \<not> p r)"
  by (induction rs) auto

lemma find_row_Some: "find_row p rs = Some r \<Longrightarrow> r \<in> set rs \<and> p r"
  by (induction rs) (auto split: if_splits)

lemma find_row_append:
  "find_row p (rs @ ss) = (case find_row p rs of None \<Rightarrow> find_row p ss | Some r \<Rightarrow> Some r)"
  by (induction rs) auto

lemma find_row_unique:
  assumes "r \<in> set rs" and "p r" and "\<And>r'. r' \<in> set rs \<Longrightarrow> p r' \<Longrightarrow> r' = r"
  shows "find_row p rs = Some r"
proof (cases "find_row p rs")
  case None
  with assms(1,2) show ?thesis by (simp add: find_row_None)
next
  case (Some r')
  with assms(3) find_row_Some [OF Some] show ?thesis by blast
qed

lemma find_row_cong: "(\<And>r. r \<in> set rs \<Longrightarrow> p r = q r) \<Longrightarrow> find_row p rs = find_row q rs"
  by (induction rs) auto

lemma map_row_Nil [simp]: "map_row p f [] = []"
  by (simp add: map_row_def)

lemma map_row_Cons [simp]: "map_row p f (r # rs) = (if p r then f r else r) # map_row p f rs"
  by (simp add: map_row_def)

lemma length_map_row [simp]: "length (map_row p f rs) = length rs"
  by (simp add: map_row_def)

lemma set_map_row: "set (map_row p f rs) = (\<lambda>r. if p r then f r else r) ` set rs"
  by (simp add: map_row_def)

lemma map_map_row: "(\<And>r. p r \<Longrightarrow> g (f r) = g r) \<Longrightarrow> map g (map_row p f rs) = map g rs"
  by (induction rs) auto

lemma map_row_id: "(\<And>r. r \<in> set rs \<Longrightarrow> \<not> p r) \<Longrightarrow> map_row p f rs = rs"
  by (induction rs) auto

lemma find_row_map_row_same:
  assumes "\<And>r. p (f r) = p r"
  shows "find_row p (map_row p f rs) = map_option f (find_row p rs)"
  using assms by (induction rs) auto

lemma find_row_map_row_inv:
  assumes "\<And>r. q (f r) = q r"
  shows "find_row q (map_row p f rs) = map_option (\<lambda>r. if p r then f r else r) (find_row q rs)"
  using assms by (induction rs) auto

lemma find_row_map_row_other:
  assumes "\<And>r. p r \<Longrightarrow> \<not> q r" and "\<And>r. p r \<Longrightarrow> \<not> q (f r)"
  shows "find_row q (map_row p f rs) = find_row q rs"
  using assms by (induction rs) auto

lemma filter_map_row:
  assumes "\<And>r. p r \<Longrightarrow> q (f r) = q r"
  shows "filter q (map_row p f rs) = map_row p f (filter q rs)"
  using assms by (induction rs) auto

lemma distinct_find_row:
  assumes "distinct (map k rs)" and "r \<in> set rs"
  shows "find_row (\<lambda>x. k x = k r) rs = Some r"
  using assms by (induction rs) (auto simp: rev_image_eqI)

end
