(* ===== verification/Js.thy ===== *)
theory Js
  imports Prelude
begin

text \<open>
  The parts of the language and of its standard library that the source uses: strings,
  decimal and hexadecimal integers, \<open>BigInt\<close>, \<open>Number\<close>, \<open>parseInt\<close>, and the
  errors that travel through \<open>throw\<close>.

  A JavaScript string is modelled by a list of \<open>char\<close>, that is, by code units below
  256; \<open>toLowerCase\<close> and the white space of \<open>trim\<close> are those of the language on
  that range.  A \<open>bigint\<close> is an \<open>int\<close>.  A \<open>number\<close> that the source uses as
  an integer is an \<open>int\<close>; where the source can produce \<open>NaN\<close>, the type is
  \<open>js_num\<close>.
\<close>

section \<open>Errors\<close>

text \<open>
  What is thrown: an \<open>HttpException\<close> of NestJS with its status (the subclasses differ
  in the status only), an error of the database driver with its \<open>code\<close>, or any other
  \<open>Error\<close>.
\<close>

datatype js_error =
    HttpException nat string
  | PgError string string
  | JsError string

abbreviation "BadRequestException \<equiv> HttpException 400"
abbreviation "UnauthorizedException \<equiv> HttpException 401"
abbreviation "ForbiddenException \<equiv> HttpException 403"
abbreviation "NotFoundException \<equiv> HttpException 404"
abbreviation "ConflictException \<equiv> HttpException 409"
abbreviation "InternalServerError \<equiv> HttpException 500"

fun error_message :: "js_error \<Rightarrow> string" where
  "error_message (HttpException _ m) = m"
| "error_message (PgError _ m) = m"
| "error_message (JsError m) = m"

text \<open>\<open>err?.code === '23505'\<close>: a unique index was violated.\<close>

fun is_unique_violation :: "js_error \<Rightarrow> bool" where
  "is_unique_violation (PgError code _) = (code = ''23505'')"
| "is_unique_violation _ = False"

section \<open>Strings\<close>

definition to_lower_char :: "char \<Rightarrow> char" where
  "to_lower_char c = (let n = of_char c :: nat in
     if (65 \<le> n \<and> n \<le> 90) \<or> (192 \<le> n \<and> n \<le> 222 \<and> n \<noteq> 215) then char_of (n + 32) else c)"

definition toLowerCase :: "string \<Rightarrow> string" where
  "toLowerCase s = map to_lower_char s"

lemma to_lower_char_idem [simp]: "to_lower_char (to_lower_char c) = to_lower_char c"
proof -
  let ?n = "of_char c :: nat"
  have "?n < 256" by (rule nat_of_char_less_256)
  moreover have "of_char (char_of (?n + 32) :: char) = (?n + 32) mod 256" by simp
  ultimately show ?thesis by (auto simp: to_lower_char_def Let_def)
qed

lemma toLowerCase_idem [simp]: "toLowerCase (toLowerCase s) = toLowerCase s"
  by (simp add: toLowerCase_def)

lemma length_toLowerCase [simp]: "length (toLowerCase s) = length s"
  by (simp add: toLowerCase_def)

lemma toLowerCase_append: "toLowerCase (s @ t) = toLowerCase s @ toLowerCase t"
  by (simp add: toLowerCase_def)

text \<open>\<open>s.includes(p)\<close> on strings.\<close>

fun js_includes :: "string \<Rightarrow> string \<Rightarrow> bool" where
  "js_includes [] p = (p = [])"
| "js_includes (c # s) p = (prefix p (c # s) \<or> js_includes s p)"

lemma js_includes_sublist: "js_includes s p \<longleftrightarrow> sublist p s"
  by (induction s) (auto simp: sublist_Cons_right)

text \<open>\<open>s.split(c)\<close> for a one-character separator: never empty.\<close>

fun js_split :: "char \<Rightarrow> string \<Rightarrow> string list" where
  "js_split d [] = [[]]"
| "js_split d (c # s) = (if c = d then [] # js_split d s
     else (case js_split d s of [] \<Rightarrow> [[c]] | p # ps \<Rightarrow> (c # p) # ps))"

fun js_join :: "string \<Rightarrow> string list \<Rightarrow> string" where
  "js_join d [] = []"
| "js_join d [s] = s"
| "js_join d (s # t # ts) = s @ d @ js_join d (t # ts)"

lemma js_split_nonempty [simp]: "js_split d s \<noteq> []"
  by (induction s) (auto split: list.splits)

lemma js_split_single: "d \<notin> set s \<Longrightarrow> js_split d s = [s]"
  by (induction s) auto

lemma js_split_append: "d \<notin> set s \<Longrightarrow> js_split d (s @ d # t) = s # js_split d t"
  by (induction s) auto

lemma js_split_no_sep: "p \<in> set (js_split d s) \<Longrightarrow> d \<notin> set p"
  by (induction s arbitrary: p) (auto split: list.splits if_splits)

lemma js_join_split: "js_join [d] (js_split d s) = s"
proof (induction s)
  case Nil
  then show ?case by simp
next
  case (Cons c s)
  then obtain p ps where "js_split d s = p # ps"
    by (meson js_split_nonempty neq_Nil_conv)
  with Cons show ?case by (cases ps) auto
qed

definition is_space :: "char \<Rightarrow> bool" where
  "is_space c = (let n = of_char c :: nat in (9 \<le> n \<and> n \<le> 13) \<or> n = 32 \<or> n = 160)"

definition js_trim :: "string \<Rightarrow> string" where
  "js_trim s = rev (dropWhile is_space (rev (dropWhile is_space s)))"

section \<open>Digits and numerals\<close>

definition is_digit :: "char \<Rightarrow> bool" where
  "is_digit c = (let n = of_char c :: nat in 48 \<le> n \<and> n \<le> 57)"

definition digit_value :: "char \<Rightarrow> nat" where
  "digit_value c = of_char c - 48"

definition digit_char :: "nat \<Rightarrow> char" where
  "digit_char n = char_of (n + 48)"

definition dec_value :: "string \<Rightarrow> nat" where
  "dec_value s = foldl (\<lambda>a c. 10 * a + digit_value c) 0 s"

text \<open>\<open>/^\d+$/\<close> and \<open>/^(0|[1-9]\d*)$/\<close>.\<close>

definition is_digits :: "string \<Rightarrow> bool" where
  "is_digits s = (s \<noteq> [] \<and> list_all is_digit s)"

definition is_canonical_dec :: "string \<Rightarrow> bool" where
  "is_canonical_dec s = (is_digits s \<and> (hd s = CHR ''0'' \<longrightarrow> s = ''0''))"

fun show_nat :: "nat \<Rightarrow> string" where
  "show_nat n = (if n < 10 then [digit_char n] else show_nat (n div 10) @ [digit_char (n mod 10)])"

declare show_nat.simps [simp del]

definition show_int :: "int \<Rightarrow> string" where
  "show_int i = (if i < 0 then CHR ''-'' # show_nat (nat (- i)) else show_nat (nat i))"

definition hex_digit :: "char \<Rightarrow> nat option" where
  "hex_digit c = (let n = of_char c :: nat in
     if 48 \<le> n \<and> n \<le> 57 then Some (n - 48)
     else if 65 \<le> n \<and> n \<le> 70 then Some (n - 55)
     else if 97 \<le> n \<and> n \<le> 102 then Some (n - 87) else None)"

definition is_hex_digit :: "char \<Rightarrow> bool" where
  "is_hex_digit c = (hex_digit c \<noteq> None)"

definition base_value :: "nat \<Rightarrow> string \<Rightarrow> nat" where
  "base_value b s = foldl (\<lambda>a c. b * a + (case hex_digit c of None \<Rightarrow> 0 | Some d \<Rightarrow> d)) 0 s"

definition hex_char :: "nat \<Rightarrow> char" where
  "hex_char n = (if n < 10 then char_of (n + 48) else char_of (n + 87))"

text \<open>\<open>n.toString(16)\<close>.\<close>

fun show_hex :: "nat \<Rightarrow> string" where
  "show_hex n = (if n < 16 then [hex_char n] else show_hex (n div 16) @ [hex_char (n mod 16)])"

declare show_hex.simps [simp del]

lemma digit_char_0 [simp]: "digit_char 0 = CHR ''0''"
  by code_simp

lemma digit_char_digit: "n < 10 \<Longrightarrow> is_digit (digit_char n) \<and> digit_value (digit_char n) = n"
  by (simp add: is_digit_def digit_value_def digit_char_def Let_def)

lemma digit_char_value: "is_digit c \<Longrightarrow> digit_char (digit_value c) = c \<and> digit_value c < 10"
  by (auto simp: is_digit_def digit_value_def digit_char_def Let_def)

lemma dec_value_Nil [simp]: "dec_value [] = 0"
  by (simp add: dec_value_def)

lemma dec_value_snoc: "dec_value (s @ [c]) = 10 * dec_value s + digit_value c"
  by (simp add: dec_value_def)

lemma dec_value_show_nat [simp]: "dec_value (show_nat n) = n"
proof (induction n rule: show_nat.induct)
  case (1 n)
  show ?case
  proof (cases "n < 10")
    case True
    then show ?thesis
      using digit_char_digit [of n] by (simp add: show_nat.simps [of n] dec_value_def)
  next
    case False
    with 1 show ?thesis
      using digit_char_digit [of "n mod 10"] by (simp add: show_nat.simps [of n] dec_value_snoc)
  qed
qed

lemma is_digits_show_nat: "is_digits (show_nat n)"
proof (induction n rule: show_nat.induct)
  case (1 n)
  then show ?case
    using digit_char_digit [of n] digit_char_digit [of "n mod 10"]
    by (auto simp: is_digits_def show_nat.simps [of n])
qed

lemma show_nat_nonempty [simp]: "show_nat n \<noteq> []"
  using is_digits_show_nat by (auto simp: is_digits_def)

lemma show_nat_inject [simp]: "show_nat m = show_nat n \<longleftrightarrow> m = n"
  by (metis dec_value_show_nat)

lemma hd_show_nat: "0 < n \<Longrightarrow> hd (show_nat n) \<noteq> CHR ''0''"
proof (induction n rule: show_nat.induct)
  case (1 n)
  show ?case
  proof (cases "n < 10")
    case True
    have "digit_value (CHR ''0'') = 0" by (simp add: digit_value_def)
    with True 1 digit_char_digit [of n] show ?thesis
      by (auto simp: show_nat.simps [of n])
  next
    case False
    then have "0 < n div 10" by simp
    with False 1 show ?thesis by (simp add: show_nat.simps [of n])
  qed
qed

lemma is_canonical_show_nat: "is_canonical_dec (show_nat n)"
proof (cases "n = 0")
  case True
  then show ?thesis
    by (simp add: is_canonical_dec_def is_digits_def show_nat.simps [of 0] digit_char_def
        is_digit_def)
next
  case False
  then show ?thesis
    using hd_show_nat [of n] by (simp add: is_canonical_dec_def is_digits_show_nat)
qed

text \<open>A canonical decimal string is the printed form of its value.\<close>

lemma show_dec_value:
  "is_digits s \<Longrightarrow> (hd s = CHR ''0'' \<longrightarrow> s = ''0'') \<Longrightarrow> show_nat (dec_value s) = s"
proof (induction s rule: rev_induct)
  case Nil
  then show ?case by (simp add: is_digits_def)
next
  case (snoc c s)
  have c: "is_digit c" using snoc.prems by (simp add: is_digits_def)
  note dc = digit_char_value [OF c]
  show ?case
  proof (cases "s = []")
    case True
    with dc show ?thesis by (simp add: dec_value_def show_nat.simps [of "digit_value c"])
  next
    case False
    then have s: "is_digits s" "hd s \<noteq> CHR ''0''"
      using snoc.prems by (auto simp: is_digits_def)
    with snoc.IH have IH: "show_nat (dec_value s) = s" by simp
    have "dec_value s \<noteq> 0"
    proof
      assume "dec_value s = 0"
      with IH have "s = show_nat 0" by simp
      then have "hd s = CHR ''0''" by (simp add: show_nat.simps [of 0])
      with s(2) show False ..
    qed
    then have "\<not> 10 * dec_value s + digit_value c < 10" by simp
    moreover have "(10 * dec_value s + digit_value c) div 10 = dec_value s" using dc by simp
    moreover have "(10 * dec_value s + digit_value c) mod 10 = digit_value c" using dc by simp
    ultimately show ?thesis
      using IH dc
      by (simp add: dec_value_snoc show_nat.simps [of "10 * dec_value s + digit_value c"])
  qed
qed

lemma show_dec_value_canonical: "is_canonical_dec s \<Longrightarrow> show_nat (dec_value s) = s"
  by (rule show_dec_value) (auto simp: is_canonical_dec_def)

text \<open>A string between double quotes.\<close>

definition quoted :: "string \<Rightarrow> string" where
  "quoted s = [CHR 0x22] @ s @ [CHR 0x22]"

end
