(* ===== verification/Json.thy ===== *)
theory Json
  imports Js
begin

text \<open>
  Values of type \<open>unknown\<close> or \<open>any\<close>: what \<open>JSON.parse\<close> returns, what a
  \<open>jsonb\<close> column holds and what a request body carries, with the conversions the source
  applies to them.  A property that may be missing is an \<open>option\<close> whose \<open>None\<close>
  is \<open>undefined\<close>.  \<open>JNum\<close> is a number that is an integer, \<open>JFloat\<close> any
  other number, kept by its printed form.
\<close>

datatype json =
    JNull
  | JBool bool
  | JNum int
  | JFloat string
  | JStr string
  | JArr "json list"
  | JObj "(string \<times> json) list"

text \<open>\<open>value.key\<close> (or \<open>value['key']\<close>) on a value that is not null.\<close>

fun get_prop :: "string \<Rightarrow> json \<Rightarrow> json option" where
  "get_prop k (JObj kvs) = map_of kvs k"
| "get_prop k _ = None"

fun js_truthy :: "json option \<Rightarrow> bool" where
  "js_truthy None = False"
| "js_truthy (Some JNull) = False"
| "js_truthy (Some (JBool b)) = b"
| "js_truthy (Some (JNum n)) = (n \<noteq> 0)"
| "js_truthy (Some (JFloat t)) = (t \<noteq> ''NaN'')"
| "js_truthy (Some (JStr s)) = (s \<noteq> [])"
| "js_truthy (Some _) = True"

text \<open>\<open>String(value)\<close>; an element of an array that is null prints as the empty string.\<close>

fun js_String :: "json \<Rightarrow> string" where
  "js_String JNull = ''null''"
| "js_String (JBool b) = (if b then ''true'' else ''false'')"
| "js_String (JNum n) = show_int n"
| "js_String (JFloat t) = t"
| "js_String (JStr s) = s"
| "js_String (JArr xs) = js_join '','' (map (\<lambda>x. if x = JNull then [] else js_String x) xs)"
| "js_String (JObj kvs) = ''[object Object]''"

section \<open>Conversions to numbers\<close>

definition all_base :: "nat \<Rightarrow> string \<Rightarrow> bool" where
  "all_base b s = (s \<noteq> [] \<and>
     list_all (\<lambda>c. case hex_digit c of None \<Rightarrow> False | Some d \<Rightarrow> d < b) s)"

text \<open>The literals \<open>0x..\<close>, \<open>0o..\<close> and \<open>0b..\<close> (no sign is allowed before them).\<close>

definition nondecimal :: "string \<Rightarrow> int option" where
  "nondecimal s = (case s of c # x # ds \<Rightarrow>
       (let b = (if x \<in> {CHR ''x'', CHR ''X''} then 16
                 else if x \<in> {CHR ''o'', CHR ''O''} then 8
                 else if x \<in> {CHR ''b'', CHR ''B''} then 2 else 0 :: nat)
        in if c = CHR ''0'' \<and> b \<noteq> 0 \<and> all_base b ds then Some (int (base_value b ds)) else None)
     | _ \<Rightarrow> None)"

definition signed_dec :: "string \<Rightarrow> int option" where
  "signed_dec s = (case s of [] \<Rightarrow> None
     | c # ds \<Rightarrow>
        if c = CHR ''-'' then (if is_digits ds then Some (- int (dec_value ds)) else None)
        else if c = CHR ''+'' then (if is_digits ds then Some (int (dec_value ds)) else None)
        else if is_digits s then Some (int (dec_value s)) else None)"

text \<open>\<open>BigInt(s)\<close> on a string: white space around it is ignored, the empty string is 0.\<close>

definition bigint_of_string :: "string \<Rightarrow> js_error + int" where
  "bigint_of_string s = (let t = js_trim s in
     if t = [] then Inr 0
     else case nondecimal t of Some n \<Rightarrow> Inr n
       | None \<Rightarrow> (case signed_dec t of Some n \<Rightarrow> Inr n
           | None \<Rightarrow> Inl (JsError (''Cannot convert '' @ s @ '' to a BigInt''))))"

fun js_BigInt :: "json option \<Rightarrow> js_error + int" where
  "js_BigInt None = Inl (JsError ''Cannot convert undefined to a BigInt'')"
| "js_BigInt (Some JNull) = Inl (JsError ''Cannot convert null to a BigInt'')"
| "js_BigInt (Some (JBool b)) = Inr (if b then 1 else 0)"
| "js_BigInt (Some (JNum n)) = Inr n"
| "js_BigInt (Some (JFloat t)) = Inl (JsError (''The number '' @ t
     @ '' cannot be converted to a BigInt because it is not an integer''))"
| "js_BigInt (Some (JStr s)) = bigint_of_string s"
| "js_BigInt (Some (JArr xs)) = bigint_of_string (js_String (JArr xs))"
| "js_BigInt (Some (JObj kvs)) = bigint_of_string (js_String (JObj kvs))"

text \<open>
  A \<open>number\<close> the source tests or stores: an integer, \<open>NaN\<close>, or a number that is not
  an integer (or not finite), kept by its text.
\<close>

datatype js_num = NaN | NInt int | NDec string

definition is_decimal_char :: "char \<Rightarrow> bool" where
  "is_decimal_char c = (is_digit c \<or> c \<in> set ''.+-eE'')"

definition number_of_string :: "string \<Rightarrow> js_num" where
  "number_of_string s = (let t = js_trim s in
     if t = [] then NInt 0
     else case nondecimal t of Some n \<Rightarrow> NInt n
       | None \<Rightarrow> (case signed_dec t of Some n \<Rightarrow> NInt n
           | None \<Rightarrow> if list_all is_decimal_char t \<and> list_ex is_digit t then NDec t else NaN))"

fun js_Number :: "json option \<Rightarrow> js_num" where
  "js_Number None = NaN"
| "js_Number (Some JNull) = NInt 0"
| "js_Number (Some (JBool b)) = NInt (if b then 1 else 0)"
| "js_Number (Some (JNum n)) = NInt n"
| "js_Number (Some (JFloat t)) = (if t = ''NaN'' then NaN else NDec t)"
| "js_Number (Some (JStr s)) = number_of_string s"
| "js_Number (Some (JArr xs)) = number_of_string (js_String (JArr xs))"
| "js_Number (Some (JObj kvs)) = NaN"

text \<open>
  \<open>parseInt(s, 16)\<close> and \<open>parseInt(s, 10)\<close>: leading white space, a sign, for radix 16
  an optional \<open>0x\<close>, then the longest run of digits; \<open>NaN\<close> when there is none.
\<close>

definition drop_0x :: "string \<Rightarrow> string" where
  "drop_0x s = (case s of c # x # r \<Rightarrow>
       if c = CHR ''0'' \<and> (x = CHR ''x'' \<or> x = CHR ''X'') then r else s
     | _ \<Rightarrow> s)"

definition parse_sign :: "string \<Rightarrow> int \<times> string" where
  "parse_sign s = (case s of [] \<Rightarrow> (1, [])
     | c # r \<Rightarrow> if c = CHR ''-'' then (-1, r) else if c = CHR ''+'' then (1, r) else (1, s))"

definition parseInt16 :: "string \<Rightarrow> js_num" where
  "parseInt16 s = (case parse_sign (dropWhile is_space s) of (sg, r) \<Rightarrow>
     (let ds = takeWhile is_hex_digit (drop_0x r)
      in if ds = [] then NaN else NInt (sg * int (base_value 16 ds))))"

definition parseInt10 :: "string \<Rightarrow> js_num" where
  "parseInt10 s = (case parse_sign (dropWhile is_space s) of (sg, r) \<Rightarrow>
     (let ds = takeWhile is_digit r
      in if ds = [] then NaN else NInt (sg * int (dec_value ds))))"

text \<open>A decimal literal as a fraction \<open>(n, d)\<close> with \<open>0 < d\<close>: digits, a point, digits, an exponent.\<close>

definition split_at :: "(char \<Rightarrow> bool) \<Rightarrow> string \<Rightarrow> string \<times> string option" where
  "split_at p s = (takeWhile (\<lambda>c. \<not> p c) s,
     (case dropWhile (\<lambda>c. \<not> p c) s of [] \<Rightarrow> None | _ # r \<Rightarrow> Some r))"

definition scale :: "int \<Rightarrow> int \<Rightarrow> int \<times> int" where
  "scale m e = (if 0 \<le> e then (m * 10 ^ nat e, 1) else (m, 10 ^ nat (- e)))"

definition decimal_fraction :: "string \<Rightarrow> (int \<times> int) option" where
  "decimal_fraction s = (case parse_sign s of (sg, body) \<Rightarrow>
     case split_at (\<lambda>c. c = CHR ''e'' \<or> c = CHR ''E'') body of (mant, ex) \<Rightarrow>
     case split_at (\<lambda>c. c = CHR ''.'') mant of (whole, frac) \<Rightarrow>
     (let fr = (case frac of None \<Rightarrow> [] | Some f \<Rightarrow> f);
          digits = whole @ fr;
          exponent = (case ex of None \<Rightarrow> Some 0 | Some x \<Rightarrow> signed_dec x)
      in if \<not> is_digits digits then None
         else map_option (\<lambda>e. scale (sg * int (dec_value digits)) (e - int (length fr))) exponent))"

definition number_fraction :: "string \<Rightarrow> (int \<times> int) option" where
  "number_fraction s = (case number_of_string s of NInt n \<Rightarrow> Some (n, 1)
     | NDec t \<Rightarrow> decimal_fraction t | NaN \<Rightarrow> None)"

text \<open>\<open>Number(s)\<close> where it is a safe integer (\<open>Number.isSafeInteger\<close>).\<close>

definition safe_integer_of :: "string \<Rightarrow> int option" where
  "safe_integer_of s = (case number_fraction s of None \<Rightarrow> None
     | Some (n, d) \<Rightarrow> if n mod d = 0 \<and> \<bar>n div d\<bar> \<le> 2 ^ 53 - 1 then Some (n div d) else None)"

section \<open>Facts\<close>

lemma digit_not_space: "is_digit c \<Longrightarrow> \<not> is_space c"
  by (auto simp: is_digit_def is_space_def Let_def)

lemma is_digits_trim: "is_digits s \<Longrightarrow> js_trim s = s"
proof -
  assume s: "is_digits s"
  then have "\<not> is_space (hd s)" "\<not> is_space (last s)" "s \<noteq> []"
    using digit_not_space hd_in_set last_in_set by (auto simp: is_digits_def list_all_iff)
  then have "dropWhile is_space s = s" and "dropWhile is_space (rev s) = rev s"
    by (cases s, auto simp: hd_rev [symmetric], cases "rev s", auto)
  then show ?thesis by (simp add: js_trim_def)
qed

lemma digit_not_sign: "is_digit c \<Longrightarrow> c \<noteq> CHR ''-'' \<and> c \<noteq> CHR ''+'' \<and> c \<noteq> CHR ''x''
    \<and> c \<noteq> CHR ''X'' \<and> c \<noteq> CHR ''o'' \<and> c \<noteq> CHR ''O'' \<and> c \<noteq> CHR ''b'' \<and> c \<noteq> CHR ''B''"
  by (auto simp: is_digit_def Let_def)

lemma is_digits_nondecimal: "is_digits s \<Longrightarrow> nondecimal s = None"
proof -
  assume s: "is_digits s"
  show ?thesis
  proof (cases s)
    case (Cons c r)
    show ?thesis
    proof (cases r)
      case (Cons x ds)
      with \<open>s = c # r\<close> s have "is_digit x" by (simp add: is_digits_def)
      then show ?thesis
        using digit_not_sign [of x] \<open>s = c # r\<close> Cons by (simp add: nondecimal_def)
    qed (simp add: nondecimal_def \<open>s = c # r\<close>)
  qed (simp add: nondecimal_def)
qed

lemma is_digits_signed_dec: "is_digits s \<Longrightarrow> signed_dec s = Some (int (dec_value s))"
  by (auto simp: signed_dec_def is_digits_def dest: digit_not_sign split: list.splits)

lemma bigint_of_digits: "is_digits s \<Longrightarrow> bigint_of_string s = Inr (int (dec_value s))"
  using is_digits_trim [of s]
  by (auto simp: bigint_of_string_def is_digits_nondecimal is_digits_signed_dec is_digits_def)

lemma bigint_of_canonical: "is_canonical_dec s \<Longrightarrow> bigint_of_string s = Inr (int (dec_value s))"
  by (simp add: bigint_of_digits is_canonical_dec_def)

lemma number_of_digits: "is_digits s \<Longrightarrow> number_of_string s = NInt (int (dec_value s))"
  using is_digits_trim [of s]
  by (auto simp: number_of_string_def is_digits_nondecimal is_digits_signed_dec is_digits_def)

lemma bigint_of_show_nat [simp]: "bigint_of_string (show_nat n) = Inr (int n)"
  by (simp add: bigint_of_digits is_digits_show_nat)

lemma show_int_nonneg: "0 \<le> i \<Longrightarrow> show_int i = show_nat (nat i)"
  by (simp add: show_int_def)

lemma bigint_of_show_int_nonneg: "0 \<le> i \<Longrightarrow> bigint_of_string (show_int i) = Inr i"
  by (simp add: show_int_nonneg)

end
