(* ===== verification/Schema.thy ===== *)
theory Schema
  imports Json
begin

text \<open>
  The nine tables (\<open>libs/db/src/schema\<close>) and the database they form.  The unique indexes
  of the schema are the checks of an insertion; a refusal for another reason (a foreign
  key, the length of a \<open>varchar\<close>, the syntax of a \<open>uuid\<close>) is a fault of the statement
  (\<open>World\<close>).
\<close>

section \<open>Rows\<close>

text \<open>Timestamps are milliseconds since the epoch.\<close>

record organization =
  o_id :: string
  o_name :: string
  o_slug :: string
  o_status :: string
  o_plan :: string
  o_bootstrap_token_hash :: "string option"
  o_created_at :: int
  o_updated_at :: int

record user =
  u_id :: string
  u_org_id :: string
  u_external_id :: string
  u_email :: "string option"
  u_role :: string
  u_status :: string
  u_created_at :: int
  u_updated_at :: int

record api_key =
  k_id :: string
  k_org_id :: string
  k_name :: string
  k_public_key :: string
  k_key_id :: string
  k_scopes :: "string list"
  k_status :: string
  k_last_used_at :: "int option"
  k_expires_at :: "int option"
  k_created_at :: int
  k_revoked_at :: "int option"

record organization_seed =
  sd_id :: string
  sd_org_id :: string
  sd_encrypted_seed :: string
  sd_seed_nonce :: string
  sd_encrypted_dek :: string
  sd_created_at :: int

record wallet =
  wl_id :: string
  wl_org_id :: string
  wl_user_id :: "string option"
  wl_label :: "string option"
  wl_address :: string
  wl_derivation_path :: string
  wl_chain_id :: int
  wl_status :: string
  wl_created_at :: int
  wl_updated_at :: int

text \<open>\<open>TxFields\<close>, the payload of a transaction; it is also what \<open>tx_payload\<close> holds.\<close>

record tx_fields =
  tx_chainId :: int
  tx_nonce :: int
  tx_to :: string
  tx_value :: string
  tx_gasLimit :: int
  tx_maxFeePerGas :: string
  tx_maxPriorityFeePerGas :: string
  tx_data :: string

record signing_request =
  sr_id :: string
  sr_org_id :: string
  sr_wallet_id :: string
  sr_chain_id :: int
  sr_tx_hash :: "string option"
  sr_tx_payload :: "tx_fields option"
  sr_signature :: "string option"
  sr_status :: string
  sr_failure_reason :: "string option"
  sr_error_type :: "string option"
  sr_policy_result :: "json option"
  sr_block_number :: "int option"
  sr_gas_used :: "string option"
  sr_effective_gas_price :: "string option"
  sr_idempotency_key :: "string option"
  sr_speed_up_attempts :: int
  sr_original_tx_hash :: "string option"
  sr_last_speed_up_at :: "int option"
  sr_created_at :: int
  sr_signed_at :: "int option"
  sr_broadcasted_at :: "int option"
  sr_confirmed_at :: "int option"

record policy =
  p_id :: string
  p_org_id :: string
  p_name :: string
  p_description :: "string option"
  p_rule_type :: string
  p_rule_config :: json
  p_applies_to :: string
  p_target_id :: "string option"
  p_priority :: int
  p_status :: string
  p_created_at :: int
  p_updated_at :: int

record audit_entry =
  a_id :: int
  a_org_id :: string
  a_user_id :: "string option"
  a_wallet_id :: "string option"
  a_api_key_id :: "string option"
  a_event :: string
  a_status :: string
  a_metadata :: "json option"
  a_ip_address :: "string option"
  a_user_agent :: "string option"
  a_created_at :: int

text \<open>
  \<open>wallet_nonces\<close> is kept as the map its unique index on (\<open>wallet_id\<close>,
  \<open>chain_id\<close>) makes it; the source never reads its other columns.
\<close>

record db =
  organizations :: "organization list"
  users :: "user list"
  api_keys :: "api_key list"
  organization_seeds :: "organization_seed list"
  wallets :: "wallet list"
  signing_requests :: "signing_request list"
  wallet_nonces :: "string \<times> int \<Rightarrow> int option"
  policies :: "policy list"
  audit_log :: "audit_entry list"

definition empty_db :: db where
  "empty_db = \<lparr>organizations = [], users = [], api_keys = [], organization_seeds = [],
     wallets = [], signing_requests = [], wallet_nonces = (\<lambda>_. None), policies = [],
     audit_log = []\<rparr>"

section \<open>The unique indexes\<close>

definition organization_conflict :: "organization \<Rightarrow> organization \<Rightarrow> bool" where
  "organization_conflict r s = (o_id r = o_id s \<or> o_slug r = o_slug s)"

definition user_conflict :: "user \<Rightarrow> user \<Rightarrow> bool" where
  "user_conflict r s = (u_id r = u_id s \<or>
     (u_org_id r = u_org_id s \<and> u_external_id r = u_external_id s))"

definition api_key_conflict :: "api_key \<Rightarrow> api_key \<Rightarrow> bool" where
  "api_key_conflict r s = (k_id r = k_id s \<or> k_public_key r = k_public_key s \<or>
     k_key_id r = k_key_id s)"

definition seed_conflict :: "organization_seed \<Rightarrow> organization_seed \<Rightarrow> bool" where
  "seed_conflict r s = (sd_id r = sd_id s \<or> sd_org_id r = sd_org_id s)"

definition wallet_conflict :: "wallet \<Rightarrow> wallet \<Rightarrow> bool" where
  "wallet_conflict r s = (wl_id r = wl_id s \<or>
     (wl_org_id r = wl_org_id s \<and>
       (wl_address r = wl_address s \<or> wl_derivation_path r = wl_derivation_path s)))"

text \<open>Null keys do not conflict with each other in a unique index.\<close>

definition signing_request_conflict :: "signing_request \<Rightarrow> signing_request \<Rightarrow> bool" where
  "signing_request_conflict r s = (sr_id r = sr_id s \<or>
     (sr_idempotency_key r \<noteq> None \<and> sr_idempotency_key r = sr_idempotency_key s))"

definition policy_conflict :: "policy \<Rightarrow> policy \<Rightarrow> bool" where
  "policy_conflict r s = (p_id r = p_id s)"

abbreviation "unique_violation \<equiv> PgError ''23505'' ''duplicate key value violates unique constraint''"

definition insert_row :: "('r \<Rightarrow> 'r \<Rightarrow> bool) \<Rightarrow> 'r \<Rightarrow> 'r list \<Rightarrow> js_error + 'r list" where
  "insert_row conflict r rs =
     (if list_ex (\<lambda>r'. conflict r' r) rs
      then Inl unique_violation
      else Inr (rs @ [r]))"

lemma insert_row_Inr:
  "insert_row cf r rs = Inr rs' \<longleftrightarrow> (\<forall>r' \<in> set rs. \<not> cf r' r) \<and> rs' = rs @ [r]"
  by (auto simp: insert_row_def list_ex_iff)

lemma insert_row_Inl:
  "insert_row cf r rs = Inl e \<longleftrightarrow> (\<exists>r' \<in> set rs. cf r' r) \<and>
     e = unique_violation"
  by (auto simp: insert_row_def list_ex_iff)

lemma insert_row_keeps_distinct:
  assumes "insert_row cf r rs = Inr rs'" and "distinct (map key rs)"
    and "\<And>a b. key a = key b \<Longrightarrow> cf a b"
  shows "distinct (map key rs')"
  using assms by (auto simp: insert_row_Inr)

end
