(* ===== verification/World.thy ===== *)
theory World
  imports Schema
begin

text \<open>
  The world in which a call runs: the database shared with the other requests, the clock,
  new identifiers, the configuration, the network and the context of the request
  (\<open>libs/db/src/request-context.ts\<close>).

  A method of the API is not atomic.  Between two of its statements any other request may
  run, so every statement first applies \<open>w_sched\<close>, the effect of what the others
  committed since the last one, and it may itself be refused by the server or the pool
  (\<open>w_fault\<close>).  Both are arbitrary functions of the number of the statement.  A world is
  called quiet when there is no interference and no fault from now on.

  An error that the server reports reaches the caller through the client of the database,
  which is a package: \<open>w_driver\<close> is what it makes of the error, for instance the same error
  with its code, or one of its own that has the code only in its cause.
\<close>

section \<open>The world\<close>

text \<open>
  A request to another service (\<open>fetch\<close> with \<open>method: 'POST'\<close>) and its outcome: the
  promise rejects with a message, or a response arrives with a status and a body: a text that
  is JSON (with the value it denotes), another text, or a body that cannot be read to its end.
\<close>

record http_request =
  rq_url :: string
  rq_headers :: "(string \<times> string) list"
  rq_body :: json

datatype http_body = BodyJson string json | BodyText string | BodyLost

datatype net_result =
    NetError string
  | NetResponse nat string http_body

record request_context =
  rc_ip :: "string option"
  rc_userAgent :: "string option"

record world =
  w_db :: db
  w_stmts :: nat
  w_sched :: "nat \<Rightarrow> db \<Rightarrow> db"
  w_fault :: "nat \<Rightarrow> js_error option"
  w_driver :: "js_error \<Rightarrow> js_error"
  w_reads :: nat
  w_clock :: "nat \<Rightarrow> int"
  w_draws :: nat
  w_uuid :: "nat \<Rightarrow> string"
  w_sent :: "http_request list"
  w_net :: "nat \<Rightarrow> http_request \<Rightarrow> net_result"
  w_env :: "string \<Rightarrow> string option"
  w_ctx :: "request_context option"

type_synonym 'a io = "(js_error, world, 'a) eff"

text \<open>\<open>Date.now()\<close>, \<open>randomUUID()\<close>, \<open>config.get(key)\<close>, \<open>fetch(url, ..)\<close>.\<close>

definition now :: "int io" where
  "now = (\<lambda>w. (Inr (w_clock w (w_reads w)), w\<lparr>w_reads := Suc (w_reads w)\<rparr>))"

definition randomUUID :: "string io" where
  "randomUUID = (\<lambda>w. (Inr (w_uuid w (w_draws w)), w\<lparr>w_draws := Suc (w_draws w)\<rparr>))"

definition config_get :: "string \<Rightarrow> string option io" where
  "config_get k = (\<lambda>w. (Inr (w_env w k), w))"

definition fetch :: "http_request \<Rightarrow> net_result io" where
  "fetch rq = (\<lambda>w. (Inr (w_net w (length (w_sent w)) rq), w\<lparr>w_sent := w_sent w @ [rq]\<rparr>))"

text \<open>
  \<open>getRequestContext\<close> reads what \<open>runWithRequestContext\<close> stored for the request
  that is being handled (\<open>libs/db/src/request-context.ts\<close>).
\<close>

definition getRequestContext :: "request_context option io" where
  "getRequestContext = (\<lambda>w. (Inr (w_ctx w), w))"

definition runWithRequestContext :: "request_context \<Rightarrow> 'a io \<Rightarrow> 'a io" where
  "runWithRequestContext ctx m =
     (\<lambda>w. case m (w\<lparr>w_ctx := Some ctx\<rparr>) of (r, w') \<Rightarrow> (r, w'\<lparr>w_ctx := w_ctx w\<rparr>))"

text \<open>One statement sent to the database.\<close>

definition stmt :: "(db \<Rightarrow> js_error + ('a \<times> db)) \<Rightarrow> 'a io" where
  "stmt f = (\<lambda>w. let d = w_sched w (w_stmts w) (w_db w);
                     w' = w\<lparr>w_db := d, w_stmts := Suc (w_stmts w)\<rparr>
     in case w_fault w (w_stmts w) of Some e \<Rightarrow> (Inl e, w')
        | None \<Rightarrow> (case f d of Inl e \<Rightarrow> (Inl (w_driver w e), w')
            | Inr (x, d') \<Rightarrow> (Inr x, w'\<lparr>w_db := d'\<rparr>)))"

text \<open>A value that the server refuses before the statement does anything.\<close>

definition refuse :: "js_error \<Rightarrow> 'a io" where
  "refuse e = (\<lambda>w. (Inl (w_driver w e), w))"

text \<open>A query: nothing is written.\<close>

definition query :: "(db \<Rightarrow> 'a) \<Rightarrow> 'a io" where
  "query f = stmt (\<lambda>d. Inr (f d, d))"

definition quiet :: "world \<Rightarrow> bool" where
  "quiet w \<longleftrightarrow> (\<forall>n \<ge> w_stmts w. (\<forall>d. w_sched w n d = d) \<and> w_fault w n = None)"

section \<open>Rules for the primitives\<close>

lemma wp_now [wp_simps]:
  "wp now Q E w = Q (w_clock w (w_reads w)) (w\<lparr>w_reads := Suc (w_reads w)\<rparr>)"
  by (simp add: wp_def now_def)

lemma wp_randomUUID [wp_simps]:
  "wp randomUUID Q E w = Q (w_uuid w (w_draws w)) (w\<lparr>w_draws := Suc (w_draws w)\<rparr>)"
  by (simp add: wp_def randomUUID_def)

lemma wp_config_get [wp_simps]: "wp (config_get k) Q E w = Q (w_env w k) w"
  by (simp add: wp_def config_get_def)

lemma wp_fetch [wp_simps]:
  "wp (fetch rq) Q E w =
     Q (w_net w (length (w_sent w)) rq) (w\<lparr>w_sent := w_sent w @ [rq]\<rparr>)"
  by (simp add: wp_def fetch_def)

lemma wp_refuse [wp_simps]: "wp (refuse e) Q E w = E (w_driver w e) w"
  by (simp add: wp_def refuse_def)

lemma preserves_refuse [preserves_intros]: "preserves I (refuse e)"
  by (simp add: preserves_def refuse_def)

lemma andThen_refuse [simp]: "andThen (refuse e) f = refuse e"
  by (simp add: andThen_def refuse_def)

lemma wp_getRequestContext [wp_simps]: "wp getRequestContext Q E w = Q (w_ctx w) w"
  by (simp add: wp_def getRequestContext_def)

text \<open>In a quiet world a statement is the function it stands for.\<close>

definition tick :: "world \<Rightarrow> world" where
  "tick w = w\<lparr>w_stmts := Suc (w_stmts w)\<rparr>"

lemma tick_select [simp]:
  "w_db (tick w) = w_db w" "w_sent (tick w) = w_sent w" "w_clock (tick w) = w_clock w"
  "w_env (tick w) = w_env w" "w_net (tick w) = w_net w" "w_reads (tick w) = w_reads w"
  "w_ctx (tick w) = w_ctx w" "w_driver (tick w) = w_driver w" "w_draws (tick w) = w_draws w" "w_uuid (tick w) = w_uuid w"
  by (simp_all add: tick_def)

lemma stmt_quiet:
  "quiet w \<Longrightarrow> stmt f w = (case f (w_db w) of Inl e \<Rightarrow> (Inl (w_driver w e), tick w)
     | Inr (x, d) \<Rightarrow> (Inr x, (tick w)\<lparr>w_db := d\<rparr>))"
  by (simp add: stmt_def quiet_def Let_def tick_def split: sum.splits)

lemma query_quiet: "quiet w \<Longrightarrow> query f w = (Inr (f (w_db w)), tick w)"
  by (simp add: query_def stmt_quiet tick_def)

text \<open>Whatever runs beside it, a query reads the state it finds.\<close>

lemma query_outcome:
  "query f w = (Inr x, w') \<Longrightarrow> x = f (w_sched w (w_stmts w) (w_db w)) \<and>
     w_db w' = w_sched w (w_stmts w) (w_db w) \<and> w_stmts w' = Suc (w_stmts w) \<and>
     w_sched w' = w_sched w \<and> w_driver w' = w_driver w \<and> w_clock w' = w_clock w"
  by (auto simp: query_def stmt_def Let_def split: option.splits)

lemma now_run: "now w = (Inr (w_clock w (w_reads w)), w\<lparr>w_reads := Suc (w_reads w)\<rparr>)"
  by (simp add: now_def)

lemma wp_stmt_quiet:
  "quiet w \<Longrightarrow> wp (stmt f) Q E w =
     (case f (w_db w) of Inl e \<Rightarrow> E (w_driver w e) (w\<lparr>w_stmts := Suc (w_stmts w)\<rparr>)
      | Inr (x, d) \<Rightarrow> Q x (w\<lparr>w_stmts := Suc (w_stmts w), w_db := d\<rparr>))"
  by (simp add: wp_def stmt_def quiet_def Let_def split: sum.splits)

lemma wp_query_quiet:
  "quiet w \<Longrightarrow> wp (query f) Q E w = Q (f (w_db w)) (w\<lparr>w_stmts := Suc (w_stmts w)\<rparr>)"
  by (simp add: query_def wp_stmt_quiet)

lemma quiet_update [simp]:
  "quiet (w\<lparr>w_db := d\<rparr>) = quiet w"
  "quiet (w\<lparr>w_reads := n\<rparr>) = quiet w" "quiet (w\<lparr>w_draws := n\<rparr>) = quiet w"
  "quiet (w\<lparr>w_sent := rs\<rparr>) = quiet w" "quiet (w\<lparr>w_ctx := c\<rparr>) = quiet w"
  "quiet (w\<lparr>w_driver := f\<rparr>) = quiet w"
  by (simp_all add: quiet_def)

lemma quiet_later [simp]: "quiet w \<Longrightarrow> w_stmts w \<le> n \<Longrightarrow> quiet (w\<lparr>w_stmts := n\<rparr>)"
  by (simp add: quiet_def)

lemma quiet_tick [simp]: "quiet w \<Longrightarrow> quiet (tick w)"
  by (simp add: tick_def)

section \<open>Invariants of the database under interference\<close>

text \<open>
  \<open>stable J w\<close>: the database satisfies \<open>J\<close> and what the other requests do from now on
  keeps \<open>J\<close> (the rely condition).  A call that preserves \<open>stable J\<close> then keeps
  \<open>J\<close> whatever runs beside it.
\<close>

definition stable :: "(db \<Rightarrow> bool) \<Rightarrow> world \<Rightarrow> bool" where
  "stable J w \<longleftrightarrow> J (w_db w) \<and> (\<forall>n \<ge> w_stmts w. \<forall>d. J d \<longrightarrow> J (w_sched w n d))"

lemma stable_update [simp]:
  "stable J (w\<lparr>w_reads := n\<rparr>) = stable J w"
  "stable J (w\<lparr>w_draws := n\<rparr>) = stable J w" "stable J (w\<lparr>w_sent := rs\<rparr>) = stable J w"
  "stable J (w\<lparr>w_ctx := c\<rparr>) = stable J w"
  by (simp_all add: stable_def)

lemma stable_later: "stable J w \<Longrightarrow> w_stmts w \<le> n \<Longrightarrow> stable J (w\<lparr>w_stmts := n\<rparr>)"
  by (simp add: stable_def)

lemma stableD: "stable J w \<Longrightarrow> J (w_db w)"
  by (simp add: stable_def)

lemma quiet_stable: "quiet w \<Longrightarrow> J (w_db w) \<Longrightarrow> stable J w"
  by (simp add: stable_def quiet_def)

lemma stable_now [preserves_intros]: "preserves (stable J) now"
  by (simp add: preserves_def now_def)

lemma stable_randomUUID [preserves_intros]: "preserves (stable J) randomUUID"
  by (simp add: preserves_def randomUUID_def)

lemma stable_config_get [preserves_intros]: "preserves (stable J) (config_get k)"
  by (simp add: preserves_def config_get_def)

lemma stable_fetch [preserves_intros]: "preserves (stable J) (fetch rq)"
  by (simp add: preserves_def fetch_def)

lemma stable_getRequestContext [preserves_intros]: "preserves (stable J) getRequestContext"
  by (simp add: preserves_def getRequestContext_def)

lemma stable_stmt:
  assumes "\<And>d x d'. J d \<Longrightarrow> f d = Inr (x, d') \<Longrightarrow> J d'"
  shows "preserves (stable J) (stmt f)"
  using assms
  by (fastforce simp: preserves_def stmt_def stable_def Let_def split: option.splits sum.splits)

lemma stable_query [preserves_intros]: "preserves (stable J) (query f)"
  unfolding query_def by (rule stable_stmt) auto

section \<open>Calls that send nothing\<close>

text \<open>\<open>silent rs w\<close>: exactly the requests \<open>rs\<close> have been sent.\<close>

definition silent :: "http_request list \<Rightarrow> world \<Rightarrow> bool" where
  "silent rs w \<longleftrightarrow> w_sent w = rs"

lemma silent_now [preserves_intros]: "preserves (silent rs) now"
  by (simp add: preserves_def now_def silent_def)

lemma silent_randomUUID [preserves_intros]: "preserves (silent rs) randomUUID"
  by (simp add: preserves_def randomUUID_def silent_def)

lemma silent_config_get [preserves_intros]: "preserves (silent rs) (config_get k)"
  by (simp add: preserves_def config_get_def silent_def)

lemma silent_getRequestContext [preserves_intros]: "preserves (silent rs) getRequestContext"
  by (simp add: preserves_def getRequestContext_def silent_def)

lemma silent_stmt [preserves_intros]: "preserves (silent rs) (stmt f)"
  by (auto simp: preserves_def stmt_def silent_def Let_def split: option.splits sum.splits)

lemma silent_query [preserves_intros]: "preserves (silent rs) (query f)"
  unfolding query_def by (rule silent_stmt)

section \<open>The environment of a call\<close>

text \<open>
  \<open>quiet\<close> is itself kept by every call: no method changes the scheduler.
\<close>

lemma quiet_now [preserves_intros]: "preserves quiet now"
  by (simp add: preserves_def now_def)

lemma quiet_randomUUID [preserves_intros]: "preserves quiet randomUUID"
  by (simp add: preserves_def randomUUID_def)

lemma quiet_config_get [preserves_intros]: "preserves quiet (config_get k)"
  by (simp add: preserves_def config_get_def)

lemma quiet_fetch [preserves_intros]: "preserves quiet (fetch rq)"
  by (simp add: preserves_def fetch_def)

lemma quiet_getRequestContext [preserves_intros]: "preserves quiet getRequestContext"
  by (simp add: preserves_def getRequestContext_def)

lemma quiet_stmt [preserves_intros]: "preserves quiet (stmt f)"
  by (auto simp: preserves_def stmt_def Let_def quiet_def split: option.splits sum.splits)

lemma quiet_query [preserves_intros]: "preserves quiet (query f)"
  unfolding query_def by (rule quiet_stmt)

text \<open>
  The functions that stand for the environment are never changed either:
  \<open>same_env w0\<close> says that the world has the clock, the identifiers, the network, the
  configuration and the scheduler of \<open>w0\<close>, and comes after it.
\<close>

definition same_env :: "world \<Rightarrow> world \<Rightarrow> bool" where
  "same_env w0 w \<longleftrightarrow> w_clock w = w_clock w0 \<and> w_uuid w = w_uuid w0 \<and> w_net w = w_net w0 \<and>
     w_env w = w_env w0 \<and> w_sched w = w_sched w0 \<and> w_fault w = w_fault w0 \<and> w_driver w = w_driver w0 \<and>
     w_stmts w0 \<le> w_stmts w"

lemma same_env_refl [simp]: "same_env w w"
  by (simp add: same_env_def)

lemma same_env_now [preserves_intros]: "preserves (same_env w0) now"
  by (simp add: preserves_def now_def same_env_def)

lemma same_env_randomUUID [preserves_intros]: "preserves (same_env w0) randomUUID"
  by (simp add: preserves_def randomUUID_def same_env_def)

lemma same_env_config_get [preserves_intros]: "preserves (same_env w0) (config_get k)"
  by (simp add: preserves_def config_get_def)

lemma same_env_fetch [preserves_intros]: "preserves (same_env w0) (fetch rq)"
  by (simp add: preserves_def fetch_def same_env_def)

lemma same_env_getRequestContext [preserves_intros]:
  "preserves (same_env w0) getRequestContext"
  by (simp add: preserves_def getRequestContext_def)

lemma same_env_stmt [preserves_intros]: "preserves (same_env w0) (stmt f)"
  by (auto simp: preserves_def stmt_def same_env_def Let_def split: option.splits sum.splits)

lemma same_env_query [preserves_intros]: "preserves (same_env w0) (query f)"
  unfolding query_def by (rule same_env_stmt)

text \<open>
  A world in which nothing has happened yet, for concrete runs: no interference, no faults,
  a clock that stands still, identifiers \<open>id0\<close>, \<open>id1\<close>, and a client of the database that
  wraps the errors of the server in its own, as \<open>drizzle-orm\<close> does since version 0.44
  (\<open>DrizzleQueryError\<close>, with the original error as its cause).
\<close>

fun query_error :: "js_error \<Rightarrow> js_error" where
  "query_error (PgError code m) = JsError ''Failed query''"
| "query_error e = e"

definition calm_world :: "db \<Rightarrow> (nat \<Rightarrow> http_request \<Rightarrow> net_result) \<Rightarrow> (string \<Rightarrow> string option) \<Rightarrow> int \<Rightarrow> world" where
  "calm_world d net env t = \<lparr>w_db = d, w_stmts = 0, w_sched = (\<lambda>_ d. d), w_fault = (\<lambda>_. None), w_driver = query_error,
     w_reads = 0, w_clock = (\<lambda>_. t), w_draws = 0, w_uuid = (\<lambda>n. ''id'' @ show_nat n),
     w_sent = [], w_net = net, w_env = env, w_ctx = None\<rparr>"

lemma quiet_calm_world [simp]: "quiet (calm_world d net env t)"
  by (simp add: quiet_def calm_world_def)

end
