(* ===== verification/Chain.thy ===== *)
theory Chain
  imports World
begin

text \<open>
  The chain registry (\<open>libs/gas/src/chain.config.ts\<close>, \<open>chain.service.ts\<close>) and the error
  classifier (\<open>error-classifier.ts\<close>).  \<open>ChainService\<close> fills its map once, at start-up,
  from the configuration, which does not change afterwards; the model computes the map
  from the configuration where the service reads it.
\<close>

section \<open>classifyError\<close>

datatype error_type = Retryable | Permanent | Unknown

fun error_type_text :: "error_type \<Rightarrow> string" where
  "error_type_text Retryable = ''retryable''"
| "error_type_text Permanent = ''permanent''"
| "error_type_text Unknown = ''unknown''"

definition retryable_words :: "string list" where
  "retryable_words = [''timeout'', ''network'', ''econnrefused'', ''eai_again'', ''socket hang up'']"

definition permanent_words :: "string list" where
  "permanent_words = [''insufficient funds'', ''nonce too low'', ''nonce too high'',
     ''replacement transaction underpriced'', ''already known'', ''intrinsic gas too low'']"

definition classify_message :: "string \<Rightarrow> error_type" where
  "classify_message m = (let message = toLowerCase m in
     if list_ex (js_includes message) retryable_words then Retryable
     else if list_ex (js_includes message) permanent_words then Permanent
     else Unknown)"

definition classifyError :: "js_error \<Rightarrow> error_type" where
  "classifyError e = classify_message (error_message e)"

section \<open>The registry\<close>

record native_currency =
  nc_name :: string
  nc_symbol :: string
  nc_decimals :: nat

record chain_meta =
  cm_chainId :: int
  cm_name :: string
  cm_envKey :: string
  cm_blockExplorerUrl :: string
  cm_nativeCurrency :: native_currency

definition ether :: native_currency where
  "ether = \<lparr>nc_name = ''Ether'', nc_symbol = ''ETH'', nc_decimals = 18\<rparr>"

definition sepolia_ether :: native_currency where
  "sepolia_ether = \<lparr>nc_name = ''Sepolia Ether'', nc_symbol = ''ETH'', nc_decimals = 18\<rparr>"

definition pol :: native_currency where
  "pol = \<lparr>nc_name = ''POL'', nc_symbol = ''POL'', nc_decimals = 18\<rparr>"

text \<open>
  \<open>Object.entries(SUPPORTED_CHAINS)\<close>: the integer keys of an object are enumerated in
  ascending order, whatever the order in which they are written.
\<close>

definition supported_chains :: "(int \<times> chain_meta) list" where
  "supported_chains = [
    (1, \<lparr>cm_chainId = 1, cm_name = ''Ethereum'', cm_envKey = ''ETH_MAINNET'',
         cm_blockExplorerUrl = ''https://etherscan.io'', cm_nativeCurrency = ether\<rparr>),
    (10, \<lparr>cm_chainId = 10, cm_name = ''OP Mainnet'', cm_envKey = ''OP_MAINNET'',
         cm_blockExplorerUrl = ''https://optimistic.etherscan.io'', cm_nativeCurrency = ether\<rparr>),
    (137, \<lparr>cm_chainId = 137, cm_name = ''Polygon'', cm_envKey = ''POLYGON_MAINNET'',
         cm_blockExplorerUrl = ''https://polygonscan.com'', cm_nativeCurrency = pol\<rparr>),
    (8453, \<lparr>cm_chainId = 8453, cm_name = ''Base'', cm_envKey = ''BASE_MAINNET'',
         cm_blockExplorerUrl = ''https://basescan.org'', cm_nativeCurrency = ether\<rparr>),
    (42161, \<lparr>cm_chainId = 42161, cm_name = ''Arbitrum One'', cm_envKey = ''ARB_MAINNET'',
         cm_blockExplorerUrl = ''https://arbiscan.io'', cm_nativeCurrency = ether\<rparr>),
    (84532, \<lparr>cm_chainId = 84532, cm_name = ''Base Sepolia'', cm_envKey = ''BASE_SEPOLIA'',
         cm_blockExplorerUrl = ''https://sepolia.basescan.org'', cm_nativeCurrency = sepolia_ether\<rparr>),
    (11155111, \<lparr>cm_chainId = 11155111, cm_name = ''Ethereum Sepolia'', cm_envKey = ''ETH_SEPOLIA'',
         cm_blockExplorerUrl = ''https://sepolia.etherscan.io'', cm_nativeCurrency = sepolia_ether\<rparr>)]"

record chain_config =
  cc_meta :: chain_meta
  cc_rpcUrls :: "string list"

text \<open>The configured value of a key, when it is there and not empty.\<close>

definition env_url :: "(string \<Rightarrow> string option) \<Rightarrow> string \<Rightarrow> string list" where
  "env_url env k = (case env k of None \<Rightarrow> [] | Some u \<Rightarrow> if u = [] then [] else [u])"

definition rpc_env_key :: "string \<Rightarrow> nat \<Rightarrow> string" where
  "rpc_env_key envKey i = ''RPC_'' @ envKey @ ''_'' @ show_nat i"

definition numbered_urls :: "(string \<Rightarrow> string option) \<Rightarrow> string \<Rightarrow> string list" where
  "numbered_urls env envKey = concat (map (\<lambda>i. env_url env (rpc_env_key envKey i)) [1..<6])"

definition legacy_urls :: "(string \<Rightarrow> string option) \<Rightarrow> string list" where
  "legacy_urls env = env_url env ''RPC_URL'' @ env_url env ''RPC_URL_FALLBACK''"

definition resolveRpcUrls :: "(string \<Rightarrow> string option) \<Rightarrow> string \<Rightarrow> string list" where
  "resolveRpcUrls env envKey =
     (let urls = numbered_urls env envKey in if urls = [] then legacy_urls env else urls)"

text \<open>\<open>onModuleInit\<close>: a chain without URLs is skipped.\<close>

definition chains :: "(string \<Rightarrow> string option) \<Rightarrow> (int \<times> chain_config) list" where
  "chains env = concat (map (\<lambda>(c, meta).
     let urls = resolveRpcUrls env (cm_envKey meta)
     in if urls = [] then [] else [(c, \<lparr>cc_meta = meta, cc_rpcUrls = urls\<rparr>)]) supported_chains)"

definition getChain :: "int \<Rightarrow> chain_config io" where
  "getChain chainId = (\<lambda>w. case map_of (chains (w_env w)) chainId of
       Some c \<Rightarrow> (Inr c, w)
     | None \<Rightarrow> (Inl (JsError (''Unsupported chain ID: '' @ show_int chainId @ ''. Supported: ''
          @ js_join '', '' (map (\<lambda>(c, _). show_int c) (chains (w_env w))))), w))"

definition getRpcUrls :: "int \<Rightarrow> string list io" where
  "getRpcUrls chainId = andThen (getChain chainId) (\<lambda>c. ret (cc_rpcUrls c))"

definition isSupported :: "int \<Rightarrow> bool io" where
  "isSupported chainId = (\<lambda>w. (Inr (map_of (chains (w_env w)) chainId \<noteq> None), w))"

definition getSupportedChainIds :: "int list io" where
  "getSupportedChainIds = (\<lambda>w. (Inr (map fst (chains (w_env w))), w))"

section \<open>Facts\<close>

lemma length_env_url: "length (env_url env k) \<le> 1"
  by (simp add: env_url_def split: option.split)

lemma length_concat_small: "(\<And>x. length (f x) \<le> 1) \<Longrightarrow> length (concat (map f xs)) \<le> length xs"
proof (induction xs)
  case Nil
  then show ?case by simp
next
  case (Cons x xs)
  from Cons.IH [OF Cons.prems] Cons.prems [of x] show ?case by simp
qed

lemma length_numbered_urls: "length (numbered_urls env k) \<le> 5"
  using length_concat_small [of "\<lambda>i. env_url env (rpc_env_key k i)" "[1..<6]"] length_env_url
  by (simp add: numbered_urls_def)

lemma length_resolveRpcUrls: "length (resolveRpcUrls env k) \<le> 5"
  using length_numbered_urls [of env k] length_env_url [of env "''RPC_URL''"]
    length_env_url [of env "''RPC_URL_FALLBACK''"]
  by (simp add: resolveRpcUrls_def legacy_urls_def Let_def)

lemma distinct_supported: "distinct (map fst supported_chains)"
  by (simp add: supported_chains_def)

text \<open>The registry is a filtered copy of the static table.\<close>

lemma map_of_chains_aux:
  "distinct (map fst cs) \<Longrightarrow>
   map_of (concat (map (\<lambda>(c, meta).
     let urls = resolveRpcUrls env (cm_envKey meta)
     in if urls = [] then [] else [(c, \<lparr>cc_meta = meta, cc_rpcUrls = urls\<rparr>)]) cs)) i =
   (case map_of cs i of None \<Rightarrow> None
    | Some meta \<Rightarrow> let urls = resolveRpcUrls env (cm_envKey meta)
        in if urls = [] then None else Some \<lparr>cc_meta = meta, cc_rpcUrls = urls\<rparr>)"
proof (induction cs)
  case Nil
  then show ?case by simp
next
  case (Cons x cs)
  obtain c meta where x: "x = (c, meta)" by fastforce
  with Cons.prems have "map_of cs c = None" and "distinct (map fst cs)"
    by (simp_all add: map_of_eq_None_iff)
  with Cons.IH show ?case by (cases "i = c") (simp_all add: x Let_def)
qed

lemma map_of_chains:
  "map_of (chains env) i = (case map_of supported_chains i of None \<Rightarrow> None
    | Some meta \<Rightarrow> let urls = resolveRpcUrls env (cm_envKey meta)
        in if urls = [] then None else Some \<lparr>cc_meta = meta, cc_rpcUrls = urls\<rparr>)"
  unfolding chains_def using distinct_supported by (rule map_of_chains_aux)

lemma chains_urls:
  assumes "map_of (chains env) i = Some c"
  shows "cc_rpcUrls c \<noteq> [] \<and> length (cc_rpcUrls c) \<le> 5"
  using assms length_resolveRpcUrls
  by (auto simp: map_of_chains Let_def split: option.splits if_splits)

lemma getRpcUrls_run:
  "getRpcUrls c w = (case map_of (chains (w_env w)) c of
      Some ch \<Rightarrow> (Inr (cc_rpcUrls ch), w)
    | None \<Rightarrow> (Inl (JsError (''Unsupported chain ID: '' @ show_int c @ ''. Supported: ''
          @ js_join '', '' (map (\<lambda>(c, _). show_int c) (chains (w_env w))))), w))"
  by (simp add: getRpcUrls_def getChain_def run_defs split: option.split)

lemma preserves_getRpcUrls [preserves_intros]: "preserves I (getRpcUrls c)"
  by (auto simp: preserves_def getRpcUrls_run split: option.split)

text \<open>
  The legacy variable \<open>RPC_URL\<close> is used for every supported chain that has no numbered
  URL of its own, not for one default chain: with \<open>RPC_URL\<close> set and no
  \<open>RPC_<KEY>_<i>\<close>, all seven chains are registered, each with that same endpoint first.
\<close>

theorem legacy_url_serves_every_chain:
  assumes "env ''RPC_URL'' = Some u" and "u \<noteq> []"
    and "\<And>k i. env (rpc_env_key k i) = None"
  shows "map fst (chains env) = [1, 10, 137, 8453, 42161, 84532, 11155111] \<and>
    (\<forall>(c, conf) \<in> set (chains env). hd (cc_rpcUrls conf) = u)"
proof -
  have "numbered_urls env k = []" for k
    using assms(3) by (simp add: numbered_urls_def env_url_def)
  then have "resolveRpcUrls env k = u # env_url env ''RPC_URL_FALLBACK''" for k
    using assms(1,2) by (simp add: resolveRpcUrls_def legacy_urls_def env_url_def)
  then show ?thesis by (simp add: chains_def supported_chains_def)
qed

theorem legacy_url_serves_every_chain_witness:
  "map fst (chains (Map.empty(''RPC_URL'' \<mapsto> ''http://node''))) =
     [1, 10, 137, 8453, 42161, 84532, 11155111]"
proof -
  have "rpc_env_key k i \<noteq> ''RPC_URL''" for k i
  proof
    assume "rpc_env_key k i = ''RPC_URL''"
    then have "k @ ''_'' @ show_nat i = ''URL''" by (simp add: rpc_env_key_def)
    then have "CHR ''_'' \<in> set ''URL''"
      by (metis Un_iff list.set_intros(1) append_Cons set_append)
    then show False by simp
  qed
  then show ?thesis
    using legacy_url_serves_every_chain
      [of "Map.empty(''RPC_URL'' \<mapsto> ''http://node'')" "''http://node''"] by simp
qed

text \<open>
  A chain with a numbered URL is served by its own URLs only, in the order of their
  numbers, at most five of them, and never by the legacy variables; a chain outside the
  table is refused whatever the configuration says.
\<close>

theorem numbered_urls_take_precedence:
  assumes "map_of supported_chains c = Some meta"
    and "env (rpc_env_key (cm_envKey meta) i) = Some u" and "u \<noteq> []" and "1 \<le> i" and "i \<le> 5"
  shows "\<exists>conf. map_of (chains env) c = Some conf \<and> cc_meta conf = meta \<and>
      cc_rpcUrls conf = numbered_urls env (cm_envKey meta) \<and>
      u \<in> set (cc_rpcUrls conf) \<and> length (cc_rpcUrls conf) \<le> 5"
proof -
  have "i \<in> set [1..<6]" using assms(4,5) by auto
  then have "u \<in> set (numbered_urls env (cm_envKey meta))"
    using assms(2,3) by (force simp: numbered_urls_def env_url_def)
  then have "numbered_urls env (cm_envKey meta) \<noteq> []" by auto
  then show ?thesis
    using assms(1) \<open>u \<in> _\<close> length_numbered_urls
    by (simp add: map_of_chains resolveRpcUrls_def Let_def)
qed

theorem numbered_urls_take_precedence_witness:
  "\<exists>conf. map_of (chains (Map.empty(''RPC_BASE_MAINNET_2'' \<mapsto> ''http://base'', ''RPC_URL'' \<mapsto> ''http://old''))) 8453
      = Some conf \<and> ''http://base'' \<in> set (cc_rpcUrls conf)"
proof -
  let ?env = "Map.empty(''RPC_BASE_MAINNET_2'' \<mapsto> ''http://base'', ''RPC_URL'' \<mapsto> ''http://old'')"
  have "map_of supported_chains 8453 = Some \<lparr>cm_chainId = 8453, cm_name = ''Base'',
      cm_envKey = ''BASE_MAINNET'', cm_blockExplorerUrl = ''https://basescan.org'',
      cm_nativeCurrency = ether\<rparr>"
    by (simp add: supported_chains_def)
  moreover have "rpc_env_key ''BASE_MAINNET'' 2 = ''RPC_BASE_MAINNET_2''"
    by code_simp
  ultimately show ?thesis
    using numbered_urls_take_precedence [of 8453 _ ?env 2 "''http://base''"] by auto
qed

text \<open>
  Classification: the wording of retryable failures wins over the wording of permanent
  ones, upper and lower case are the same, and an error that carries neither wording is
  unknown.
\<close>

theorem classify_precedence:
  "classifyError e = (if \<exists>p \<in> set retryable_words. sublist p (toLowerCase (error_message e)) then Retryable
     else if \<exists>p \<in> set permanent_words. sublist p (toLowerCase (error_message e)) then Permanent
     else Unknown) \<and>
   classify_message (toLowerCase m) = classify_message m"
  by (simp add: classifyError_def classify_message_def Let_def list_ex_iff js_includes_sublist)

end
