(* ===== verification/Repositories.thy ===== *)
theory Repositories
  imports World
begin

text \<open>
  The repositories (\<open>libs/db/src/repositories\<close>) except the nonce repository.  The name of
  a method carries its repository: \<open>wallet_findById\<close> is \<open>WalletRepository.findById\<close>.
  A query whose order the source leaves open returns the rows in the order of insertion;
  \<open>orderBy\<close> is a stable sort.

  The locale \<open>row_table\<close> is what the services rely on: a row is found by its identifier
  after it was written, and the other rows are not touched.  It is interpreted on each
  table.
\<close>

section \<open>Common shape of the statements\<close>

definition create_row :: "(db \<Rightarrow> 'r list) \<Rightarrow> (('r list \<Rightarrow> 'r list) \<Rightarrow> db \<Rightarrow> db) \<Rightarrow>
    ('r \<Rightarrow> 'r \<Rightarrow> bool) \<Rightarrow> (string \<Rightarrow> int \<Rightarrow> 'r) \<Rightarrow> 'r io" where
  "create_row get put conflict mk =
     andThen randomUUID (\<lambda>rowId. andThen now (\<lambda>t. stmt (\<lambda>d.
       case insert_row conflict (mk rowId t) (get d) of
         Inl e \<Rightarrow> Inl e
       | Inr rs \<Rightarrow> Inr (mk rowId t, put (\<lambda>_. rs) d))))"

definition update_row :: "(db \<Rightarrow> 'r list) \<Rightarrow> (('r list \<Rightarrow> 'r list) \<Rightarrow> db \<Rightarrow> db) \<Rightarrow>
    ('r \<Rightarrow> bool) \<Rightarrow> ('r \<Rightarrow> 'r) \<Rightarrow> 'r option io" where
  "update_row get put p f = stmt (\<lambda>d. let d' = put (map_row p f) d
     in Inr (map_option f (find_row p (get d)), d'))"

definition delete_row :: "(db \<Rightarrow> 'r list) \<Rightarrow> (('r list \<Rightarrow> 'r list) \<Rightarrow> db \<Rightarrow> db) \<Rightarrow>
    ('r \<Rightarrow> bool) \<Rightarrow> bool io" where
  "delete_row get put p = stmt (\<lambda>d.
     Inr (0 < length (filter p (get d)), put (filter (\<lambda>r. \<not> p r)) d))"

section \<open>organizations\<close>

definition org_findById :: "string \<Rightarrow> organization option io" where
  "org_findById rowId = query (\<lambda>d. find_row (\<lambda>r. o_id r = rowId) (organizations d))"

definition org_findBySlug :: "string \<Rightarrow> organization option io" where
  "org_findBySlug slug = query (\<lambda>d. find_row (\<lambda>r. o_slug r = slug) (organizations d))"

definition org_findByBootstrapTokenHash :: "string \<Rightarrow> organization option io" where
  "org_findByBootstrapTokenHash hash =
     query (\<lambda>d. find_row (\<lambda>r. o_bootstrap_token_hash r = Some hash) (organizations d))"

definition org_create :: "string \<Rightarrow> string \<Rightarrow> organization io" where
  "org_create name slug = create_row organizations organizations_update organization_conflict
     (\<lambda>rowId t. \<lparr>o_id = rowId, o_name = name, o_slug = slug, o_status = ''active'',
        o_plan = ''starter'', o_bootstrap_token_hash = None, o_created_at = t,
        o_updated_at = t\<rparr>)"

definition org_update :: "string \<Rightarrow> (organization \<Rightarrow> organization) \<Rightarrow> organization option io" where
  "org_update rowId f = andThen now (\<lambda>t. update_row organizations organizations_update
     (\<lambda>r. o_id r = rowId) (\<lambda>r. (f r)\<lparr>o_updated_at := t\<rparr>))"

section \<open>users\<close>

definition user_findById :: "string \<Rightarrow> user option io" where
  "user_findById rowId = query (\<lambda>d. find_row (\<lambda>r. u_id r = rowId) (users d))"

definition user_findByOrgAndExternalId :: "string \<Rightarrow> string \<Rightarrow> user option io" where
  "user_findByOrgAndExternalId orgId externalId =
     query (\<lambda>d. find_row (\<lambda>r. u_org_id r = orgId \<and> u_external_id r = externalId) (users d))"

definition user_create :: "string \<Rightarrow> string \<Rightarrow> string option \<Rightarrow> string \<Rightarrow> string \<Rightarrow> user io" where
  "user_create orgId externalId email role status =
     create_row users users_update user_conflict
       (\<lambda>rowId t. \<lparr>u_id = rowId, u_org_id = orgId, u_external_id = externalId, u_email = email,
          u_role = role, u_status = status, u_created_at = t, u_updated_at = t\<rparr>)"

definition user_findByOrgId :: "string \<Rightarrow> user list io" where
  "user_findByOrgId orgId = query (\<lambda>d. filter (\<lambda>r. u_org_id r = orgId) (users d))"

definition user_update :: "string \<Rightarrow> (user \<Rightarrow> user) \<Rightarrow> user option io" where
  "user_update rowId f = andThen now (\<lambda>t. update_row users users_update
     (\<lambda>r. u_id r = rowId) (\<lambda>r. (f r)\<lparr>u_updated_at := t\<rparr>))"

section \<open>api\_keys\<close>

definition apiKey_findById :: "string \<Rightarrow> api_key option io" where
  "apiKey_findById rowId = query (\<lambda>d. find_row (\<lambda>r. k_id r = rowId) (api_keys d))"

definition apiKey_findByKeyId :: "string \<Rightarrow> api_key option io" where
  "apiKey_findByKeyId keyId = query (\<lambda>d. find_row (\<lambda>r. k_key_id r = keyId) (api_keys d))"

definition apiKey_findByOrgId :: "string \<Rightarrow> string option \<Rightarrow> api_key list io" where
  "apiKey_findByOrgId orgId status = query (\<lambda>d. filter (\<lambda>r. k_org_id r = orgId \<and>
     (case status of None \<Rightarrow> True | Some s \<Rightarrow> s = [] \<or> k_status r = s)) (api_keys d))"

definition apiKey_create :: "string \<Rightarrow> string \<Rightarrow> string \<Rightarrow> string \<Rightarrow> string list \<Rightarrow> string \<Rightarrow> api_key io" where
  "apiKey_create orgId name publicKey keyId scopes status =
     create_row api_keys api_keys_update api_key_conflict
       (\<lambda>rowId t. \<lparr>k_id = rowId, k_org_id = orgId, k_name = name, k_public_key = publicKey,
          k_key_id = keyId, k_scopes = scopes, k_status = status, k_last_used_at = None,
          k_expires_at = None, k_created_at = t, k_revoked_at = None\<rparr>)"

definition apiKey_update :: "string \<Rightarrow> (api_key \<Rightarrow> api_key) \<Rightarrow> api_key option io" where
  "apiKey_update rowId f = update_row api_keys api_keys_update (\<lambda>r. k_id r = rowId) f"

definition apiKey_delete :: "string \<Rightarrow> bool io" where
  "apiKey_delete rowId = delete_row api_keys api_keys_update (\<lambda>r. k_id r = rowId)"

text \<open>The scope is looked up by the \<open>key_id\<close> column, not by the primary key.\<close>

definition apiKey_hasScope :: "string \<Rightarrow> string \<Rightarrow> bool io" where
  "apiKey_hasScope keyId requiredScope =
     andThen (apiKey_findByKeyId keyId) (\<lambda>apiKey. case apiKey of
        None \<Rightarrow> ret False
      | Some k \<Rightarrow> ret (requiredScope \<in> set (k_scopes k)))"

section \<open>organization\_seeds\<close>

definition seed_findByOrgId :: "string \<Rightarrow> organization_seed option io" where
  "seed_findByOrgId orgId = query (\<lambda>d. find_row (\<lambda>r. sd_org_id r = orgId) (organization_seeds d))"

definition seed_create :: "string \<Rightarrow> string \<Rightarrow> string \<Rightarrow> string \<Rightarrow> organization_seed io" where
  "seed_create orgId encryptedSeed seedNonce encryptedDek =
     create_row organization_seeds organization_seeds_update seed_conflict
       (\<lambda>rowId t. \<lparr>sd_id = rowId, sd_org_id = orgId, sd_encrypted_seed = encryptedSeed,
          sd_seed_nonce = seedNonce, sd_encrypted_dek = encryptedDek, sd_created_at = t\<rparr>)"

section \<open>wallets\<close>

definition wallet_findByOrgId :: "string \<Rightarrow> wallet list io" where
  "wallet_findByOrgId orgId = query (\<lambda>d. filter (\<lambda>r. wl_org_id r = orgId) (wallets d))"

definition wallet_findById :: "string \<Rightarrow> wallet option io" where
  "wallet_findById rowId = query (\<lambda>d. find_row (\<lambda>r. wl_id r = rowId) (wallets d))"

definition wallet_countByOrgId :: "string \<Rightarrow> int io" where
  "wallet_countByOrgId orgId =
     query (\<lambda>d. int (length (filter (\<lambda>r. wl_org_id r = orgId) (wallets d))))"

definition wallet_create ::
    "string \<Rightarrow> string option \<Rightarrow> string option \<Rightarrow> string \<Rightarrow> string \<Rightarrow> int \<Rightarrow> wallet io" where
  "wallet_create orgId userId label address path chainId =
     create_row wallets wallets_update wallet_conflict
       (\<lambda>rowId t. \<lparr>wl_id = rowId, wl_org_id = orgId, wl_user_id = userId, wl_label = label,
          wl_address = address, wl_derivation_path = path, wl_chain_id = chainId,
          wl_status = ''active'', wl_created_at = t, wl_updated_at = t\<rparr>)"

section \<open>signing\_requests\<close>

definition sr_findById :: "string \<Rightarrow> signing_request option io" where
  "sr_findById rowId = query (\<lambda>d. find_row (\<lambda>r. sr_id r = rowId) (signing_requests d))"

definition sr_findByIdempotencyKey :: "string \<Rightarrow> signing_request option io" where
  "sr_findByIdempotencyKey key =
     query (\<lambda>d. find_row (\<lambda>r. sr_idempotency_key r = Some key) (signing_requests d))"

definition sr_findByOrgId :: "string \<Rightarrow> signing_request list io" where
  "sr_findByOrgId orgId = query (\<lambda>d. sort_key (\<lambda>r. - sr_created_at r)
     (filter (\<lambda>r. sr_org_id r = orgId) (signing_requests d)))"

definition sr_findByWalletId :: "string \<Rightarrow> signing_request list io" where
  "sr_findByWalletId walletId = query (\<lambda>d. sort_key (\<lambda>r. - sr_created_at r)
     (filter (\<lambda>r. sr_wallet_id r = walletId) (signing_requests d)))"

text \<open>Ascending by \<open>broadcasted_at\<close>; rows where it is null come last.\<close>

definition order_by_broadcasted_at :: "signing_request list \<Rightarrow> signing_request list" where
  "order_by_broadcasted_at rs =
     sort_key (\<lambda>r. case sr_broadcasted_at r of None \<Rightarrow> 0 | Some t \<Rightarrow> t)
       (filter (\<lambda>r. sr_broadcasted_at r \<noteq> None) rs)
     @ filter (\<lambda>r. sr_broadcasted_at r = None) rs"

definition sr_findBroadcasted :: "signing_request list io" where
  "sr_findBroadcasted = query (\<lambda>d. order_by_broadcasted_at
     (filter (\<lambda>r. sr_status r = ''broadcasted'') (signing_requests d)))"

definition sr_create :: "string \<Rightarrow> string \<Rightarrow> int \<Rightarrow> string \<Rightarrow> string \<Rightarrow> signing_request io" where
  "sr_create orgId walletId chainId status idempotencyKey =
     create_row signing_requests signing_requests_update signing_request_conflict
       (\<lambda>rowId t. \<lparr>sr_id = rowId, sr_org_id = orgId, sr_wallet_id = walletId, sr_chain_id = chainId,
          sr_tx_hash = None, sr_tx_payload = None, sr_signature = None, sr_status = status,
          sr_failure_reason = None, sr_error_type = None, sr_policy_result = None,
          sr_block_number = None, sr_gas_used = None, sr_effective_gas_price = None,
          sr_idempotency_key = Some idempotencyKey, sr_speed_up_attempts = 0,
          sr_original_tx_hash = None, sr_last_speed_up_at = None, sr_created_at = t,
          sr_signed_at = None, sr_broadcasted_at = None, sr_confirmed_at = None\<rparr>)"

text \<open>
  \<open>SigningRequestUpdate\<close>: a field may be absent (or \<open>undefined\<close>), and where its type
  allows it, null.  The loop of \<open>update\<close> copies the fields that are not \<open>undefined\<close>.
\<close>

datatype 'a field = Undefined | Null | Val 'a

fun set_col :: "'a field \<Rightarrow> 'a option \<Rightarrow> 'a option" where
  "set_col Undefined old = old"
| "set_col Null old = None"
| "set_col (Val v) old = Some v"

fun set_req :: "'a field \<Rightarrow> 'a \<Rightarrow> 'a" where
  "set_req (Val v) old = v"
| "set_req _ old = old"

record sr_fields =
  f_tx_hash :: "string field"
  f_signature :: "string field"
  f_status :: "string field"
  f_failure_reason :: "string field"
  f_error_type :: "string field"
  f_tx_payload :: "tx_fields field"
  f_block_number :: "js_num field"
  f_gas_used :: "string field"
  f_effective_gas_price :: "string field"
  f_speed_up_attempts :: "int field"
  f_original_tx_hash :: "string field"
  f_last_speed_up_at :: "int field"
  f_signed_at :: "int field"
  f_broadcasted_at :: "int field"
  f_confirmed_at :: "int field"

definition no_fields :: sr_fields where
  "no_fields = \<lparr>f_tx_hash = Undefined, f_signature = Undefined, f_status = Undefined,
     f_failure_reason = Undefined, f_error_type = Undefined, f_tx_payload = Undefined,
     f_block_number = Undefined, f_gas_used = Undefined, f_effective_gas_price = Undefined,
     f_speed_up_attempts = Undefined, f_original_tx_hash = Undefined,
     f_last_speed_up_at = Undefined, f_signed_at = Undefined, f_broadcasted_at = Undefined,
     f_confirmed_at = Undefined\<rparr>"

text \<open>A value bound for an \<open>integer\<close> column: 32 bits, signed.\<close>

definition int4_ok :: "int \<Rightarrow> bool" where
  "int4_ok n = (- 2147483648 \<le> n \<and> n \<le> 2147483647)"

fun to_int4 :: "js_num \<Rightarrow> js_error + int" where
  "to_int4 (NInt n) = (if int4_ok n then Inr n
     else Inl (PgError ''22003'' ''integer out of range''))"
| "to_int4 _ = Inl (PgError ''22P02'' ''invalid input syntax for type integer'')"

fun to_int4_field :: "js_num field \<Rightarrow> js_error + int field" where
  "to_int4_field Undefined = Inr Undefined"
| "to_int4_field Null = Inr Null"
| "to_int4_field (Val v) = (case to_int4 v of Inl e \<Rightarrow> Inl e | Inr n \<Rightarrow> Inr (Val n))"

definition sr_set :: "sr_fields \<Rightarrow> int field \<Rightarrow> signing_request \<Rightarrow> signing_request" where
  "sr_set f blk r = r\<lparr>
     sr_tx_hash := set_col (f_tx_hash f) (sr_tx_hash r),
     sr_signature := set_col (f_signature f) (sr_signature r),
     sr_status := set_req (f_status f) (sr_status r),
     sr_failure_reason := set_col (f_failure_reason f) (sr_failure_reason r),
     sr_error_type := set_col (f_error_type f) (sr_error_type r),
     sr_tx_payload := set_col (f_tx_payload f) (sr_tx_payload r),
     sr_block_number := set_col blk (sr_block_number r),
     sr_gas_used := set_col (f_gas_used f) (sr_gas_used r),
     sr_effective_gas_price := set_col (f_effective_gas_price f) (sr_effective_gas_price r),
     sr_speed_up_attempts := set_req (f_speed_up_attempts f) (sr_speed_up_attempts r),
     sr_original_tx_hash := set_col (f_original_tx_hash f) (sr_original_tx_hash r),
     sr_last_speed_up_at := set_col (f_last_speed_up_at f) (sr_last_speed_up_at r),
     sr_signed_at := set_col (f_signed_at f) (sr_signed_at r),
     sr_broadcasted_at := set_col (f_broadcasted_at f) (sr_broadcasted_at r),
     sr_confirmed_at := set_col (f_confirmed_at f) (sr_confirmed_at r)\<rparr>"

definition sr_update :: "string \<Rightarrow> sr_fields \<Rightarrow> unit io" where
  "sr_update rowId f = stmt (\<lambda>d. case to_int4_field (f_block_number f) of
       Inl e \<Rightarrow> Inl e
     | Inr blk \<Rightarrow> Inr ((), signing_requests_update (map_row (\<lambda>r. sr_id r = rowId) (sr_set f blk)) d))"

section \<open>policies\<close>

definition policy_findById :: "string \<Rightarrow> policy option io" where
  "policy_findById rowId = query (\<lambda>d. find_row (\<lambda>r. p_id r = rowId) (policies d))"

text \<open>\<open>orderBy(desc(policies.priority))\<close>: the highest priority comes first.\<close>

definition select_policies :: "string \<Rightarrow> string option \<Rightarrow> db \<Rightarrow> policy list" where
  "select_policies orgId status d = sort_key (\<lambda>r. - p_priority r)
     (filter (\<lambda>r. p_org_id r = orgId \<and>
        (case status of None \<Rightarrow> True | Some s \<Rightarrow> s = [] \<or> p_status r = s)) (policies d))"

definition policy_findByOrgId :: "string \<Rightarrow> string option \<Rightarrow> policy list io" where
  "policy_findByOrgId orgId status = query (select_policies orgId status)"

definition policy_create :: "(string \<Rightarrow> int \<Rightarrow> policy) \<Rightarrow> policy io" where
  "policy_create mk = create_row policies policies_update policy_conflict mk"

definition policy_update :: "string \<Rightarrow> (policy \<Rightarrow> policy) \<Rightarrow> policy option io" where
  "policy_update rowId f = andThen now (\<lambda>t. update_row policies policies_update
     (\<lambda>r. p_id r = rowId) (\<lambda>r. (f r)\<lparr>p_updated_at := t\<rparr>))"

definition policy_delete :: "string \<Rightarrow> bool io" where
  "policy_delete rowId = delete_row policies policies_update (\<lambda>r. p_id r = rowId)"

section \<open>audit\_log\<close>

text \<open>
  \<open>create\<close> adds the address and the user agent of the request that is being handled.
  The log is append only, so its serial number is the length of the log plus one.
\<close>

definition audit_create :: "string \<Rightarrow> string option \<Rightarrow> string option \<Rightarrow> string \<Rightarrow> string \<Rightarrow>
    json option \<Rightarrow> audit_entry io" where
  "audit_create orgId userId walletId event status metadata =
     andThen getRequestContext (\<lambda>ctx. andThen now (\<lambda>t. stmt (\<lambda>d.
       let e = \<lparr>a_id = int (length (audit_log d)) + 1, a_org_id = orgId, a_user_id = userId,
                a_wallet_id = walletId, a_api_key_id = None, a_event = event,
                a_status = status, a_metadata = metadata,
                a_ip_address = (case ctx of None \<Rightarrow> None | Some c \<Rightarrow> rc_ip c),
                a_user_agent = (case ctx of None \<Rightarrow> None | Some c \<Rightarrow> rc_userAgent c),
                a_created_at = t\<rparr>
       in Inr (e, audit_log_update (\<lambda>l. l @ [e]) d))))"

record audit_query =
  q_orgId :: string
  q_event :: "string option"
  q_userId :: "string option"
  q_walletId :: "string option"
  q_startDate :: "int option"
  q_endDate :: "int option"
  q_limit :: "js_num option"
  q_offset :: "js_num option"

text \<open>A filter that is absent, or an empty string, is not applied.\<close>

definition filter_eq :: "string option \<Rightarrow> string option \<Rightarrow> bool" where
  "filter_eq f col = (case f of None \<Rightarrow> True | Some s \<Rightarrow> s = [] \<or> col = Some s)"

definition audit_matches :: "audit_query \<Rightarrow> audit_entry \<Rightarrow> bool" where
  "audit_matches q e = (a_org_id e = q_orgId q
     \<and> filter_eq (q_event q) (Some (a_event e))
     \<and> filter_eq (q_userId q) (a_user_id e)
     \<and> filter_eq (q_walletId q) (a_wallet_id e)
     \<and> (case q_startDate q of None \<Rightarrow> True | Some t \<Rightarrow> t \<le> a_created_at e)
     \<and> (case q_endDate q of None \<Rightarrow> True | Some t \<Rightarrow> a_created_at e \<le> t))"

text \<open>
  What the query builder makes of a \<open>LIMIT\<close> or \<open>OFFSET\<close> that is not a natural
  number, for which the package promises nothing: an error, a bound, or none.
\<close>

record paging =
  odd_limit :: "js_num \<Rightarrow> js_error + nat option"
  odd_offset :: "js_num \<Rightarrow> js_error + nat"

definition page_limit :: "paging \<Rightarrow> js_num option \<Rightarrow> js_error + nat option" where
  "page_limit G x = (case x of None \<Rightarrow> Inr (Some 50)
     | Some (NInt n) \<Rightarrow> if 0 \<le> n then Inr (Some (nat n)) else odd_limit G (NInt n)
     | Some n \<Rightarrow> odd_limit G n)"

definition page_offset :: "paging \<Rightarrow> js_num option \<Rightarrow> js_error + nat" where
  "page_offset G x = (case x of None \<Rightarrow> Inr 0
     | Some (NInt n) \<Rightarrow> if 0 \<le> n then Inr (nat n) else odd_offset G (NInt n)
     | Some n \<Rightarrow> odd_offset G n)"

definition audit_query :: "paging \<Rightarrow> audit_query \<Rightarrow> audit_entry list io" where
  "audit_query G q = stmt (\<lambda>d.
     let rows = sort_key (\<lambda>e. - a_created_at e) (filter (audit_matches q) (audit_log d))
     in case page_limit G (q_limit q) of Inl e \<Rightarrow> Inl e
        | Inr limit \<Rightarrow> (case page_offset G (q_offset q) of Inl e \<Rightarrow> Inl e
            | Inr offset \<Rightarrow> Inr ((case limit of None \<Rightarrow> drop offset rows
                 | Some n \<Rightarrow> take n (drop offset rows)), d)))"

section \<open>The interface the services rely on\<close>

locale row_table =
  fixes rid :: "'r \<Rightarrow> string"
    and rows :: "db \<Rightarrow> 'r list"
    and put :: "('r list \<Rightarrow> 'r list) \<Rightarrow> db \<Rightarrow> db"
  assumes rows_put: "rows (put f d) = f (rows d)"
begin

lemma find_after_update:
  assumes "\<And>r. rid (f r) = rid r"
  shows "find_row (\<lambda>r. rid r = i) (rows (put (map_row (\<lambda>r. rid r = i) f) d)) =
    map_option f (find_row (\<lambda>r. rid r = i) (rows d))"
  using assms by (simp add: rows_put find_row_map_row_same)

lemma find_other_after_update:
  assumes "\<And>r. rid (f r) = rid r" and "i \<noteq> j"
  shows "find_row (\<lambda>r. rid r = j) (rows (put (map_row (\<lambda>r. rid r = i) f) d)) =
    find_row (\<lambda>r. rid r = j) (rows d)"
  using assms by (auto simp: rows_put intro!: find_row_map_row_other)

lemma find_after_insert:
  assumes "insert_row cf r (rows d) = Inr rs" and "\<And>a b. rid a = rid b \<Longrightarrow> cf a b"
  shows "find_row (\<lambda>x. rid x = rid r) (rows (put (\<lambda>_. rs) d)) = Some r"
proof -
  have "find_row (\<lambda>x. rid x = rid r) (rows d) = None"
    using assms by (auto simp: insert_row_Inr find_row_None)
  then show ?thesis using assms(1) by (simp add: rows_put insert_row_Inr find_row_append)
qed

lemma find_other_after_insert:
  assumes "insert_row cf r (rows d) = Inr rs" and "i \<noteq> rid r"
  shows "find_row (\<lambda>x. rid x = i) (rows (put (\<lambda>_. rs) d)) =
    find_row (\<lambda>x. rid x = i) (rows d)"
  using assms by (simp add: rows_put insert_row_Inr find_row_append split: option.split)

lemma ids_after_update:
  assumes "\<And>r. rid (f r) = rid r"
  shows "map rid (rows (put (map_row p f) d)) = map rid (rows d)"
  using assms by (simp add: rows_put map_map_row)

lemma ids_distinct_after_insert:
  assumes "insert_row cf r (rows d) = Inr rs" and "\<And>a b. rid a = rid b \<Longrightarrow> cf a b"
    and "distinct (map rid (rows d))"
  shows "distinct (map rid (rows (put (\<lambda>_. rs) d)))"
  using insert_row_keeps_distinct [OF assms(1,3,2)] by (simp add: rows_put)

end

interpretation orgs: row_table o_id organizations organizations_update
  by unfold_locales simp

interpretation users_tab: row_table u_id users users_update
  by unfold_locales simp

interpretation keys: row_table k_id api_keys api_keys_update
  by unfold_locales simp

interpretation seeds: row_table sd_id organization_seeds organization_seeds_update
  by unfold_locales simp

interpretation wals: row_table wl_id wallets wallets_update
  by unfold_locales simp

interpretation reqs: row_table sr_id signing_requests signing_requests_update
  by unfold_locales simp

interpretation pols: row_table p_id policies policies_update
  by unfold_locales simp

section \<open>Effects of the statements\<close>

text \<open>What a call leaves alone: requests sent, and the quietness of the world.\<close>

lemma silent_create_row [preserves_intros]: "preserves (silent rs) (create_row g p c mk)"
  unfolding create_row_def by (intro preserves_intros)

lemma silent_update_row [preserves_intros]: "preserves (silent rs) (update_row g p q f)"
  unfolding update_row_def by (intro preserves_intros)

lemma quiet_create_row [preserves_intros]: "preserves quiet (create_row g p c mk)"
  unfolding create_row_def by (intro preserves_intros)

lemma quiet_update_row [preserves_intros]: "preserves quiet (update_row g p q f)"
  unfolding update_row_def by (intro preserves_intros)

lemma stable_create_row:
  assumes "\<And>d rowId t rs. J d \<Longrightarrow> insert_row c (mk rowId t) (g d) = Inr rs \<Longrightarrow> J (p (\<lambda>_. rs) d)"
  shows "preserves (stable J) (create_row g p c mk)"
  unfolding create_row_def using assms
  by (intro preserves_intros stable_stmt) (auto split: sum.splits)

lemma stable_update_row:
  assumes "\<And>d. J d \<Longrightarrow> J (p (map_row q f) d)"
  shows "preserves (stable J) (update_row g p q f)"
  unfolding update_row_def using assms by (intro stable_stmt) auto

lemma stable_sr_update:
  assumes "\<And>d blk. J d \<Longrightarrow> J (signing_requests_update (map_row (\<lambda>r. sr_id r = i) (sr_set f blk)) d)"
  shows "preserves (stable J) (sr_update i f)"
  unfolding sr_update_def using assms by (intro stable_stmt) (auto split: sum.splits)

lemma stable_audit_create:
  assumes "\<And>d e. J d \<Longrightarrow> J (audit_log_update (\<lambda>l. l @ [e]) d)"
  shows "preserves (stable J) (audit_create a b c e s m)"
  unfolding audit_create_def using assms
  by (intro preserves_intros stable_stmt) (auto simp: Let_def)

lemmas query_defs = org_findById_def org_findBySlug_def org_findByBootstrapTokenHash_def
  user_findById_def user_findByOrgAndExternalId_def user_findByOrgId_def apiKey_findById_def
  apiKey_findByKeyId_def apiKey_findByOrgId_def seed_findByOrgId_def wallet_findByOrgId_def
  wallet_findById_def wallet_countByOrgId_def sr_findById_def sr_findByIdempotencyKey_def
  sr_findByOrgId_def sr_findByWalletId_def sr_findBroadcasted_def policy_findById_def
  policy_findByOrgId_def

lemmas create_defs = org_create_def user_create_def apiKey_create_def seed_create_def
  wallet_create_def sr_create_def policy_create_def

lemmas update_defs = org_update_def user_update_def apiKey_update_def policy_update_def

lemma sr_set_id [simp]: "sr_id (sr_set f b r) = sr_id r"
  by (simp add: sr_set_def)

lemma sr_set_key [simp]: "sr_idempotency_key (sr_set f b r) = sr_idempotency_key r"
  by (simp add: sr_set_def)

text \<open>What an audit entry holds, and the call that writes it, in a quiet world.\<close>

definition audit_entry_of :: "world \<Rightarrow> string \<Rightarrow> string option \<Rightarrow> string option \<Rightarrow> string \<Rightarrow> string \<Rightarrow>
    json option \<Rightarrow> audit_entry" where
  "audit_entry_of w orgId userId walletId event status metadata =
     \<lparr>a_id = int (length (audit_log (w_db w))) + 1, a_org_id = orgId, a_user_id = userId,
      a_wallet_id = walletId, a_api_key_id = None, a_event = event, a_status = status,
      a_metadata = metadata,
      a_ip_address = (case w_ctx w of None \<Rightarrow> None | Some c \<Rightarrow> rc_ip c),
      a_user_agent = (case w_ctx w of None \<Rightarrow> None | Some c \<Rightarrow> rc_userAgent c),
      a_created_at = w_clock w (w_reads w)\<rparr>"

lemma audit_entry_select [simp]:
  "a_org_id (audit_entry_of w og u wl ev st m) = og"
  "a_user_id (audit_entry_of w og u wl ev st m) = u"
  "a_wallet_id (audit_entry_of w og u wl ev st m) = wl"
  "a_event (audit_entry_of w og u wl ev st m) = ev"
  "a_status (audit_entry_of w og u wl ev st m) = st"
  "a_metadata (audit_entry_of w og u wl ev st m) = m"
  by (simp_all add: audit_entry_of_def)

definition after_audit :: "world \<Rightarrow> audit_entry \<Rightarrow> world" where
  "after_audit w e = w\<lparr>w_reads := Suc (w_reads w), w_stmts := Suc (w_stmts w),
     w_db := audit_log_update (\<lambda>l. l @ [e]) (w_db w)\<rparr>"

lemma after_audit_select [simp]:
  "w_db (after_audit w e) = audit_log_update (\<lambda>l. l @ [e]) (w_db w)"
  "w_sent (after_audit w e) = w_sent w" "w_clock (after_audit w e) = w_clock w"
  "w_env (after_audit w e) = w_env w" "quiet w \<Longrightarrow> quiet (after_audit w e)"
  by (simp_all add: after_audit_def)

lemma audit_create_quiet:
  "quiet w \<Longrightarrow> audit_create og u wl ev st m w =
     (Inr (audit_entry_of w og u wl ev st m), after_audit w (audit_entry_of w og u wl ev st m))"
  by (simp add: audit_create_def getRequestContext_def now_def run_defs stmt_quiet tick_def
      audit_entry_of_def after_audit_def Let_def)

lemma preserves_audit_create [preserves_intros]:
  "preserves (silent rs) (audit_create a b c e s m)"
  "preserves quiet (audit_create a b c e s m)"
  "preserves (same_env w0) (audit_create a b c e s m)"
  unfolding audit_create_def by (intro preserves_intros)+

lemma preserves_sr_update [preserves_intros]:
  "preserves (silent rs) (sr_update i f)"
  "preserves quiet (sr_update i f)"
  "preserves (same_env w0) (sr_update i f)"
  unfolding sr_update_def by (intro preserves_intros)+

lemma same_env_create_row [preserves_intros]: "preserves (same_env w0) (create_row g p c mk)"
  unfolding create_row_def by (intro preserves_intros)

lemma same_env_update_row [preserves_intros]: "preserves (same_env w0) (update_row g p q f)"
  unfolding update_row_def by (intro preserves_intros)

text \<open>An update of a request that does not touch the block number, in a quiet world.\<close>

lemma sr_update_quiet:
  "quiet w \<Longrightarrow> f_block_number f = Undefined \<Longrightarrow> sr_update i f w = (Inr (), (tick w)\<lparr>w_db :=
     signing_requests_update (map_row (\<lambda>r. sr_id r = i) (sr_set f Undefined)) (w_db w)\<rparr>)"
  by (simp add: sr_update_def stmt_quiet)

lemma stable_audit [preserves_intros]:
  assumes "\<And>d g. J (audit_log_update g d) = J d"
  shows "preserves (stable J) (audit_create a b c e s m)"
  by (rule stable_audit_create) (simp add: assms)

end
