(* ===== verification/WalletNonces.thy ===== *)
theory WalletNonces
  imports Repositories
begin

text \<open>
  \<open>WalletNonceRepository\<close> (\<open>libs/db/src/repositories/wallet-nonce.repository.ts\<close>): the
  counter of each (wallet, chain) pair, as the three SQL statements of the source act on it.

  The locale \<open>nonce_allocator\<close> states what the transaction services rely on.  Its
  lemmas say that a set of outstanding reservations stays free of duplicates, and below the
  counter, under every statement; they are lifted to all interleavings of the statements by
  rule induction on \<open>nonce_reachable\<close>.
\<close>

type_synonym nonces = "string \<times> int \<Rightarrow> int option"

section \<open>The statements\<close>

text \<open>\<open>INSERT .. VALUES (.., 1) ON CONFLICT DO UPDATE SET nonce = nonce + 1 RETURNING nonce - 1\<close>.\<close>

definition reserve_nonce :: "nonces \<Rightarrow> string \<times> int \<Rightarrow> js_error + (int \<times> nonces)" where
  "reserve_nonce m k = (let n' = (case m k of None \<Rightarrow> 1 | Some n \<Rightarrow> n + 1) in
     if int4_ok n' then Inr (n' - 1, m(k \<mapsto> n'))
     else Inl (PgError ''22003'' ''integer out of range''))"

text \<open>\<open>UPDATE .. SET nonce = n WHERE .. AND nonce = n + 1\<close>: only the tail is rolled back.\<close>

definition release_nonce :: "nonces \<Rightarrow> string \<times> int \<Rightarrow> int \<Rightarrow> bool \<times> nonces" where
  "release_nonce m k n = (if m k = Some (n + 1) then (True, m(k \<mapsto> n)) else (False, m))"

text \<open>\<open>INSERT .. ON CONFLICT DO UPDATE SET nonce = c WHERE wallet_nonces.nonce < c\<close>.\<close>

definition sync_nonce :: "nonces \<Rightarrow> string \<times> int \<Rightarrow> js_num \<Rightarrow> js_error + nonces" where
  "sync_nonce m k c = (case to_int4 c of Inl e \<Rightarrow> Inl e
     | Inr n \<Rightarrow> (case m k of None \<Rightarrow> Inr (m(k \<mapsto> n))
         | Some old \<Rightarrow> if old < n then Inr (m(k \<mapsto> n)) else Inr m))"

definition nonce_reserve :: "string \<Rightarrow> int \<Rightarrow> int io" where
  "nonce_reserve walletId chainId = stmt (\<lambda>d.
     case reserve_nonce (wallet_nonces d) (walletId, chainId) of
       Inl e \<Rightarrow> Inl e
     | Inr (n, m) \<Rightarrow> Inr (n, d\<lparr>wallet_nonces := m\<rparr>))"

definition nonce_release :: "string \<Rightarrow> int \<Rightarrow> int \<Rightarrow> bool io" where
  "nonce_release walletId chainId n = stmt (\<lambda>d.
     case release_nonce (wallet_nonces d) (walletId, chainId) n of
       (b, m) \<Rightarrow> Inr (b, d\<lparr>wallet_nonces := m\<rparr>))"

definition nonce_syncFromChain :: "string \<Rightarrow> int \<Rightarrow> js_num \<Rightarrow> unit io" where
  "nonce_syncFromChain walletId chainId chainNonce = stmt (\<lambda>d.
     case sync_nonce (wallet_nonces d) (walletId, chainId) chainNonce of
       Inl e \<Rightarrow> Inl e
     | Inr m \<Rightarrow> Inr ((), d\<lparr>wallet_nonces := m\<rparr>))"

section \<open>The contract\<close>

text \<open>
  Reservations that a request holds: made and not given back.  They are fine for a counter
  when they are pairwise distinct and below the counter of their pair.
\<close>

definition live_ok :: "('k \<Rightarrow> int option) \<Rightarrow> ('k \<times> int) list \<Rightarrow> bool" where
  "live_ok c live \<longleftrightarrow> distinct live \<and> (\<forall>(k, n) \<in> set live. \<exists>m. c k = Some m \<and> n < m)"

locale nonce_allocator =
  fixes counter :: "'s \<Rightarrow> 'k \<Rightarrow> int option"
    and reserve :: "'s \<Rightarrow> 'k \<Rightarrow> 'e + (int \<times> 's)"
    and release :: "'s \<Rightarrow> 'k \<Rightarrow> int \<Rightarrow> bool \<times> 's"
    and sync :: "'s \<Rightarrow> 'k \<Rightarrow> 'c \<Rightarrow> 'e + 's"
  assumes reserve_counter: "reserve s k = Inr (n, s') \<Longrightarrow>
      counter s' = (counter s)(k \<mapsto> n + 1) \<and> n = (case counter s k of None \<Rightarrow> 0 | Some m \<Rightarrow> m)"
    and release_tail: "release s k n = (True, s') \<Longrightarrow>
      counter s k = Some (n + 1) \<and> counter s' = (counter s)(k \<mapsto> n)"
    and release_inner: "release s k n = (False, s') \<Longrightarrow> counter s' = counter s"
    and sync_grows: "sync s k c = Inr s' \<Longrightarrow>
      (\<forall>j. j \<noteq> k \<longrightarrow> counter s' j = counter s j) \<and>
      (\<forall>m. counter s k = Some m \<longrightarrow> (\<exists>m'. counter s' k = Some m' \<and> m \<le> m'))"
begin

lemma reserve_fresh:
  assumes "live_ok (counter s) live" and "reserve s k = Inr (n, s')"
  shows "(k, n) \<notin> set live"
  using assms reserve_counter [OF assms(2)] by (fastforce simp: live_ok_def)

lemma reserve_keeps:
  assumes "live_ok (counter s) live" and "reserve s k = Inr (n, s')"
  shows "live_ok (counter s') ((k, n) # live)"
proof -
  have *: "n = (case counter s k of None \<Rightarrow> 0 | Some m \<Rightarrow> m)"
    and c: "counter s' = (counter s)(k \<mapsto> n + 1)"
    using reserve_counter [OF assms(2)] by auto
  have "\<exists>m. counter s' j = Some m \<and> i < m" if "(j, i) \<in> set live" for j i
    using that assms(1) * c by (cases "j = k") (force simp: live_ok_def)+
  with assms reserve_fresh [OF assms] c show ?thesis
    by (auto simp: live_ok_def)
qed

lemma release_keeps:
  assumes "live_ok (counter s) live" and "(k, n) \<in> set live" and "release s k n = (b, s')"
  shows "live_ok (counter s') (if b then remove1 (k, n) live else live)"
proof (cases b)
  case False
  with assms release_inner show ?thesis by simp
next
  case True
  with assms(3) have "counter s k = Some (n + 1)" and c: "counter s' = (counter s)(k \<mapsto> n)"
    using release_tail [of s k n s'] by auto
  have "\<exists>m. counter s' j = Some m \<and> i < m" if "(j, i) \<in> set (remove1 (k, n) live)" for j i
  proof (cases "j = k")
    case True
    from that assms(1) have "(j, i) \<in> set live" and "(j, i) \<noteq> (k, n)"
      by (auto simp: live_ok_def)
    moreover from this(1) assms(1) \<open>counter s k = Some (n + 1)\<close> True have "i < n + 1"
      by (auto simp: live_ok_def)
    ultimately show ?thesis using True c by auto
  next
    case False
    with that assms(1) c set_remove1_subset [of "(k, n)" live] show ?thesis
      by (auto simp: live_ok_def)
  qed
  with True assms(1) show ?thesis by (auto simp: live_ok_def)
qed

lemma sync_keeps:
  assumes "live_ok (counter s) live" and "sync s k c = Inr s'"
  shows "live_ok (counter s') live"
proof -
  have "\<exists>m. counter s' j = Some m \<and> i < m" if "(j, i) \<in> set live" for j i
  proof -
    from that assms(1) obtain m where "counter s j = Some m" "i < m"
      by (auto simp: live_ok_def)
    with sync_grows [OF assms(2)] show ?thesis by (cases "j = k") force+
  qed
  with assms(1) show ?thesis by (auto simp: live_ok_def)
qed

end

interpretation nonces: nonce_allocator "\<lambda>m. m" reserve_nonce release_nonce sync_nonce
  by unfold_locales
    (auto simp: reserve_nonce_def release_nonce_def sync_nonce_def Let_def
      split: if_splits option.splits sum.splits)

section \<open>Interleavings\<close>

text \<open>
  The statements of any number of concurrent requests, in any order.  The second component
  lists the reservations that are held.  A reservation is dropped from it when its release
  succeeds: the signer failed, so no transaction with that nonce exists.  When the release
  fails, or after a broadcast, the nonce stays consumed.
\<close>

type_synonym nonce_state = "nonces \<times> ((string \<times> int) \<times> int) list"

inductive nonce_step :: "nonce_state \<Rightarrow> nonce_state \<Rightarrow> bool" where
  reserve: "reserve_nonce m k = Inr (n, m') \<Longrightarrow> nonce_step (m, live) (m', (k, n) # live)"
| release: "(k, n) \<in> set live \<Longrightarrow> release_nonce m k n = (b, m') \<Longrightarrow>
    nonce_step (m, live) (m', if b then remove1 (k, n) live else live)"
| sync: "sync_nonce m k c = Inr m' \<Longrightarrow> nonce_step (m, live) (m', live)"

inductive_cases nonce_stepE: "nonce_step (m, live) s"

inductive nonce_reachable :: "nonce_state \<Rightarrow> bool" where
  start: "nonce_reachable (m, [])"
| step: "nonce_reachable s \<Longrightarrow> nonce_step s t \<Longrightarrow> nonce_reachable t"

lemma nonce_step_keeps:
  assumes "nonce_step s t" and "live_ok (fst s) (snd s)"
  shows "live_ok (fst t) (snd t)"
  using assms
proof (induction rule: nonce_step.induct)
  case (reserve m k n m' live)
  then show ?case using nonces.reserve_keeps by simp
next
  case (release k n live m b m')
  then show ?case using nonces.release_keeps [of m live k n b m'] by simp
next
  case (sync m k c m' live)
  then show ?case using nonces.sync_keeps by simp
qed

lemma nonce_reachable_live_ok: "nonce_reachable s \<Longrightarrow> live_ok (fst s) (snd s)"
proof (induction rule: nonce_reachable.induct)
  case (start m)
  show ?case by (simp add: live_ok_def)
next
  case (step s t)
  then show ?case by (blast intro: nonce_step_keeps)
qed

text \<open>
  C5. No two transactions get the same nonce: from any table without outstanding
  reservations, whatever the order in which concurrent requests reserve nonces, give them
  back after a failed signature, and synchronise with the chain, the reservations held for
  a wallet and chain are pairwise distinct, each is below the stored counter, and the next
  reservation is different from all of them.
\<close>

theorem nonce_never_shared:
  assumes "nonce_reachable (m, live)"
  shows "distinct live \<and> (\<forall>(k, n) \<in> set live. \<exists>c. m k = Some c \<and> n < c) \<and>
    (\<forall>k n m'. reserve_nonce m k = Inr (n, m') \<longrightarrow> (k, n) \<notin> set live)"
proof -
  have ok: "live_ok m live" using nonce_reachable_live_ok [OF assms] by simp
  then show ?thesis using nonces.reserve_fresh [OF ok] by (auto simp: live_ok_def)
qed

theorem nonce_never_shared_witness:
  "distinct [((''w'', 1 :: int), 1 :: int), ((''w'', 1), 0)] \<and>
   (\<exists>n m'. reserve_nonce (Map.empty((''w'', 1) \<mapsto> 2)) (''w'', 1) = Inr (n, m') \<and>
      ((''w'', 1), n) \<notin> set [((''w'', 1), 1), ((''w'', 1 :: int), 0 :: int)])"
proof -
  let ?k = "(''w'', 1 :: int)"
  have "nonce_step (Map.empty, []) (Map.empty(?k \<mapsto> 1), [(?k, 0)])"
    by (rule nonce_step.reserve) (simp add: reserve_nonce_def int4_ok_def)
  moreover have "nonce_step (Map.empty(?k \<mapsto> 1), [(?k, 0)])
      (Map.empty(?k \<mapsto> 2), [(?k, 1), (?k, 0)])"
    by (rule nonce_step.reserve) (simp add: reserve_nonce_def int4_ok_def)
  ultimately have "nonce_reachable (Map.empty(?k \<mapsto> 2), [(?k, 1), (?k, 0)])"
    by (meson nonce_reachable.intros)
  from nonce_never_shared [OF this]
  have d: "distinct [(?k, 1 :: int), (?k, 0)]"
    and f: "reserve_nonce (Map.empty(?k \<mapsto> 2)) ?k = Inr (n, m') \<Longrightarrow>
      (?k, n) \<notin> set [(?k, 1), (?k, 0)]" for n m'
    by blast+
  have "reserve_nonce (Map.empty(?k \<mapsto> 2)) ?k = Inr (2, Map.empty(?k \<mapsto> 3))"
    by (simp add: reserve_nonce_def int4_ok_def)
  with d f show ?thesis by blast
qed

text \<open>
  Giving a nonce back: \<open>release\<close> answers true exactly when the nonce is the newest
  reservation of its wallet and chain; then the same nonce is what the next reservation
  returns, and otherwise nothing changes.  No other pair is touched.
\<close>

theorem release_only_the_tail:
  "fst (release_nonce m k n) = (m k = Some (n + 1)) \<and>
   (let m' = snd (release_nonce m k n) in
     m' = (if m k = Some (n + 1) then m(k \<mapsto> n) else m) \<and>
     (if m k = Some (n + 1) \<and> int4_ok (n + 1)
      then reserve_nonce m' k = Inr (n, m(k \<mapsto> n + 1)) else True))"
  by (simp add: release_nonce_def reserve_nonce_def Let_def)

text \<open>
  \<open>syncFromChain\<close> never moves a counter backwards, so it cannot make a reserved
  nonce available again: the counter becomes the maximum of itself and the count the chain
  reports; a count that is not a 32-bit integer is refused and nothing changes.
\<close>

theorem sync_is_maximum:
  "sync_nonce m k (NInt c) = (if int4_ok c
     then Inr (m(k \<mapsto> (case m k of None \<Rightarrow> c | Some n \<Rightarrow> max n c)))
     else Inl (PgError ''22003'' ''integer out of range'')) \<and>
   sync_nonce m k NaN = Inl (PgError ''22P02'' ''invalid input syntax for type integer'')"
  by (auto simp: sync_nonce_def fun_eq_iff max_def split: option.split)

end
