(* ===== verification/Traffic.thy ===== *)
theory Traffic
  imports World
begin

text \<open>
  What a call sends.  \<open>emits L m\<close> says that every run of \<open>m\<close>, whether it returns or
  throws, appends to the log of the network a list of requests that satisfies \<open>L\<close>.
  \<open>traffic P m b\<close> is the instance for at most \<open>b\<close> requests of the form \<open>P\<close>, and
  \<open>rationed P S b k\<close> the one that also allows at most \<open>k\<close> of the kind \<open>S\<close>.
\<close>

definition emits :: "(http_request list \<Rightarrow> bool) \<Rightarrow> 'a io \<Rightarrow> bool" where
  "emits L m \<longleftrightarrow> (\<forall>w. \<exists>rs. w_sent (snd (m w)) = w_sent w @ rs \<and> L rs)"

lemma emits_mono: "emits L m \<Longrightarrow> (\<And>rs. L rs \<Longrightarrow> K rs) \<Longrightarrow> emits K m"
  unfolding emits_def by meson

lemma emits_run:
  assumes "emits L m" and "m w = (r, w')"
  obtains rs where "w_sent w' = w_sent w @ rs" and "L rs"
  using assms unfolding emits_def by (metis snd_conv)

lemma emits_silent:
  assumes "\<And>rs. preserves (silent rs) m" and "L []"
  shows "emits L m"
  using assms by (simp add: emits_def preserves_def silent_def)

lemma emits_fetch: "L [rq] \<Longrightarrow> emits L (fetch rq)"
  by (simp add: emits_def fetch_def)

text \<open>
  The second call may rely on how its argument came about.  Sequencing needs a list that
  is closed: \<open>N\<close> holds of what the first call sends and of both together.
\<close>

lemma emits_andThen_run:
  assumes "emits L m" and "\<And>x w w'. m w = (Inr x, w') \<Longrightarrow> emits K (f x)"
    and "\<And>rs. L rs \<Longrightarrow> N rs" and "\<And>rs ss. L rs \<Longrightarrow> K ss \<Longrightarrow> N (rs @ ss)"
  shows "emits N (andThen m f)"
  unfolding emits_def
proof
  fix w
  obtain r w' where m: "m w = (r, w')" by fastforce
  with assms(1) obtain rs where rs: "w_sent w' = w_sent w @ rs" "L rs" by (rule emits_run)
  show "\<exists>rs. w_sent (snd (andThen m f w)) = w_sent w @ rs \<and> N rs"
  proof (cases r)
    case (Inl e)
    with m rs assms(3) show ?thesis by (simp add: andThen_def)
  next
    case (Inr x)
    with m have "emits K (f x)" using assms(2) by blast
    then obtain ss where "w_sent (snd (f x w')) = w_sent w' @ ss" "K ss"
      unfolding emits_def by metis
    with Inr m rs assms(4) show ?thesis by (simp add: andThen_def)
  qed
qed

lemma emits_catch:
  assumes "emits L m" and "\<And>e. emits K (h e)"
    and "\<And>rs. L rs \<Longrightarrow> N rs" and "\<And>rs ss. L rs \<Longrightarrow> K ss \<Longrightarrow> N (rs @ ss)"
  shows "emits N (catch m h)"
  unfolding emits_def
proof
  fix w
  obtain r w' where m: "m w = (r, w')" by fastforce
  with assms(1) obtain rs where rs: "w_sent w' = w_sent w @ rs" "L rs" by (rule emits_run)
  show "\<exists>rs. w_sent (snd (catch m h w)) = w_sent w @ rs \<and> N rs"
  proof (cases r)
    case (Inr x)
    with m rs assms(3) show ?thesis by (simp add: catch_def)
  next
    case (Inl e)
    obtain ss where "w_sent (snd (h e w')) = w_sent w' @ ss" "K ss"
      using assms(2) unfolding emits_def by metis
    with Inl m rs assms(4) show ?thesis by (simp add: catch_def)
  qed
qed

section \<open>Budgets\<close>

definition rationed :: "(http_request \<Rightarrow> bool) \<Rightarrow> (http_request \<Rightarrow> bool) \<Rightarrow> nat \<Rightarrow> nat \<Rightarrow>
    http_request list \<Rightarrow> bool" where
  "rationed P S b k rs \<longleftrightarrow> list_all P rs \<and> length rs \<le> b \<and> length (filter S rs) \<le> k"

definition traffic :: "(http_request \<Rightarrow> bool) \<Rightarrow> 'a io \<Rightarrow> nat \<Rightarrow> bool" where
  "traffic P m b \<longleftrightarrow> emits (rationed P (\<lambda>_. False) b 0) m"

lemma traffic_iff:
  "traffic P m b \<longleftrightarrow> (\<forall>w. \<exists>rs. w_sent (snd (m w)) = w_sent w @ rs \<and> length rs \<le> b \<and>
     list_all P rs)"
  by (auto simp: traffic_def emits_def rationed_def)

lemma rationed_Nil [simp]: "rationed P S b k []"
  by (simp add: rationed_def)

lemma rationed_mono: "rationed P S b k rs \<Longrightarrow> b \<le> b' \<Longrightarrow> k \<le> k' \<Longrightarrow> rationed P S b' k' rs"
  by (simp add: rationed_def)

lemma rationed_append:
  "rationed P S b k rs \<Longrightarrow> rationed P S c l ss \<Longrightarrow> rationed P S (b + c) (k + l) (rs @ ss)"
  by (simp add: rationed_def)

lemma emits_rationed_mono:
  "emits (rationed P S b k) m \<Longrightarrow> b \<le> b' \<Longrightarrow> k \<le> k' \<Longrightarrow> emits (rationed P S b' k') m"
  by (erule emits_mono) (rule rationed_mono)

text \<open>Requests of one shape, none of them of the kind that is counted.\<close>

lemma traffic_rationed:
  assumes "traffic P m b" and "\<And>rq. P rq \<Longrightarrow> Q rq" and "\<And>rq. P rq \<Longrightarrow> \<not> S rq" and "b \<le> c"
  shows "emits (rationed Q S c k) m"
  using assms(1) unfolding traffic_def
proof (rule emits_mono)
  fix rs
  assume "rationed P (\<lambda>_. False) b 0 rs"
  then have "list_all P rs" and "length rs \<le> b" by (simp_all add: rationed_def)
  then have "list_all Q rs" and "filter S rs = []"
    using assms(2,3) by (auto simp: list_all_iff filter_empty_conv)
  with \<open>length rs \<le> b\<close> assms(4) show "rationed Q S c k rs" by (simp add: rationed_def)
qed

lemma emits_rationed_andThen:
  assumes "emits (rationed P S b k) m"
    and "\<And>x w w'. m w = (Inr x, w') \<Longrightarrow> emits (rationed P S c l) (f x)"
    and "b + c \<le> b'" and "k + l \<le> k'"
  shows "emits (rationed P S b' k') (andThen m f)"
  using assms(1,2)
  by (rule emits_andThen_run) (use assms(3,4) in \<open>auto intro: rationed_mono dest: rationed_append\<close>)

lemma emits_rationed_catch:
  assumes "emits (rationed P S b k) m" and "\<And>e. emits (rationed P S c l) (h e)"
    and "b + c \<le> b'" and "k + l \<le> k'"
  shows "emits (rationed P S b' k') (catch m h)"
  using assms(1,2)
  by (rule emits_catch) (use assms(3,4) in \<open>auto intro: rationed_mono dest: rationed_append\<close>)

lemma rationed_after_silent:
  assumes "\<And>rs. preserves (silent rs) m"
    and "\<And>x w w'. m w = (Inr x, w') \<Longrightarrow> emits (rationed P S b k) (f x)"
  shows "emits (rationed P S b k) (andThen m f)"
proof -
  have "emits (rationed P S 0 0) m" by (rule emits_silent [OF assms(1)]) simp
  from emits_rationed_andThen [OF this assms(2)] show ?thesis by simp
qed

lemma traffic_silent: "(\<And>rs. preserves (silent rs) m) \<Longrightarrow> traffic P m b"
  unfolding traffic_def by (rule emits_silent) simp_all

lemma traffic_lift: "traffic P (lift_res r) b"
  by (rule traffic_silent) (rule preserves_lift_res)

lemma traffic_throw: "traffic P (throw e) b"
  by (rule traffic_silent) (rule preserves_throw)

lemma traffic_mono: "traffic P m b \<Longrightarrow> b \<le> c \<Longrightarrow> traffic P m c"
  unfolding traffic_def by (rule emits_rationed_mono) simp_all

lemma traffic_andThen:
  assumes "traffic P m b" and "\<And>x. traffic P (f x) c"
  shows "traffic P (andThen m f) (b + c)"
  using emits_rationed_andThen [of P "\<lambda>_. False" b 0 m c 0 f "b + c" 0] assms
  by (simp add: traffic_def)

lemma traffic_catch:
  assumes "traffic P m b" and "\<And>e. traffic P (h e) c"
  shows "traffic P (catch m h) (b + c)"
  using emits_rationed_catch [of P "\<lambda>_. False" b 0 m c 0 h "b + c" 0] assms
  by (simp add: traffic_def)

lemma traffic_weaken: "traffic P m b \<Longrightarrow> (\<And>rq. P rq \<Longrightarrow> Q rq) \<Longrightarrow> traffic Q m b"
  unfolding traffic_def by (erule emits_mono) (auto simp: rationed_def list_all_iff)

lemma traffic_attempt: "traffic P m b \<Longrightarrow> traffic P (attempt m) b"
  by (simp add: traffic_iff attempt_def split_beta)

text \<open>A call, then steps that send nothing.\<close>

lemma traffic_then_silent:
  assumes "traffic P m b" and "\<And>rs x. preserves (silent rs) (f x)"
  shows "traffic P (andThen m f) b"
  using traffic_andThen [OF assms(1) traffic_silent [of "f x" P 0 for x]] assms(2) by fastforce

lemma traffic_after_silent:
  assumes "\<And>rs. preserves (silent rs) m" and "\<And>x. traffic P (f x) b"
  shows "traffic P (andThen m f) b"
  using traffic_andThen [OF traffic_silent [of m P 0] assms(2)] assms(1) by fastforce

lemma traffic_both:
  assumes "traffic P m b" and "traffic P k c"
  shows "traffic P (both m k) (b + c)"
  unfolding both_def
  by (rule traffic_andThen [OF traffic_attempt [OF assms(1)]],
      rule traffic_then_silent [OF traffic_attempt [OF assms(2)]], intro preserves_intros)

end
