(* ===== verification/Gas.thy ===== *)
theory Gas
  imports Chain WalletNonces Traffic
begin

text \<open>
  \<open>GasService\<close> (\<open>libs/gas/src/gas.service.ts\<close>): fees, nonces, broadcast and the JSON-RPC
  client with its two loops, over the providers of a chain and over the attempts.

  The answer of a provider is an arbitrary function of the request and of how many requests
  were sent before it.  The pauses between attempts have no effect on the state and are
  left out.  A reply is used as the declared type says; one that has another shape raises
  the \<open>TypeError\<close> or \<open>SyntaxError\<close> the language raises.

  The locale \<open>bounded_call\<close> is the contract between a call and the retry loop: a bound
  on what one call sends gives a bound on what the loop sends.
\<close>

section \<open>JSON-RPC\<close>

definition rpc_request :: "string \<Rightarrow> string \<Rightarrow> json list \<Rightarrow> http_request" where
  "rpc_request url meth params = \<lparr>rq_url = url,
     rq_headers = [(''Content-Type'', ''application/json'')],
     rq_body = JObj [(''jsonrpc'', JStr ''2.0''), (''id'', JNum 1), (''method'', JStr meth),
       (''params'', JArr params)]\<rparr>"

text \<open>\<open>json.error.message\<close>, as it prints in a template literal.\<close>

definition rpc_error_text :: "json option \<Rightarrow> string" where
  "rpc_error_text e = (case e of None \<Rightarrow> ''undefined''
     | Some j \<Rightarrow> (case get_prop ''message'' j of None \<Rightarrow> ''undefined'' | Some m \<Rightarrow> js_String m))"

text \<open>What becomes of one response: the body of the \<open>try\<close> in \<open>rpcCall\<close>.\<close>

definition rpc_reply :: "string \<Rightarrow> net_result \<Rightarrow> js_error + json option" where
  "rpc_reply meth r = (case r of
     NetError m \<Rightarrow> Inl (JsError m)
   | NetResponse status text body \<Rightarrow>
       if \<not> (200 \<le> status \<and> status \<le> 299)
       then Inl (JsError (''RPC HTTP error: '' @ show_nat status @ '' '' @ text))
       else (case body of
           BodyText t \<Rightarrow> Inl (JsError ''Unexpected token in JSON'')
         | BodyLost \<Rightarrow> Inl (JsError ''terminated'')
         | BodyJson t j \<Rightarrow>
             if j = JNull then Inl (JsError ''Cannot read properties of null'')
             else if js_truthy (get_prop ''error'' j)
             then Inl (JsError (''RPC error ['' @ meth @ '']: ''
                    @ rpc_error_text (get_prop ''error'' j)))
             else Inr (get_prop ''result'' j)))"

definition rpcOnce :: "string \<Rightarrow> json list \<Rightarrow> string \<Rightarrow> json option io" where
  "rpcOnce meth params url =
     andThen (fetch (rpc_request url meth params)) (\<lambda>r. lift_res (rpc_reply meth r))"

text \<open>The loop over the providers: the last one reports its error.\<close>

fun tryProviders :: "string \<Rightarrow> json list \<Rightarrow> string list \<Rightarrow> json option io" where
  "tryProviders meth params [] = throw (JsError ''All RPC providers failed'')"
| "tryProviders meth params [u] = rpcOnce meth params u"
| "tryProviders meth params (u # v # us) =
     catch (rpcOnce meth params u) (\<lambda>_. tryProviders meth params (v # us))"

definition rpcCall :: "string \<Rightarrow> json list \<Rightarrow> int \<Rightarrow> json option io" where
  "rpcCall meth params chainId =
     andThen (getRpcUrls chainId) (tryProviders meth params)"

text \<open>
  The loop of \<open>rpcCallWithRetry\<close>; the first argument is the number of attempts left, the
  last one is \<open>lastError\<close>.
\<close>

fun retryLoop :: "nat \<Rightarrow> 'a io \<Rightarrow> js_error option \<Rightarrow> 'a io" where
  "retryLoop 0 call lastError = throw (case lastError of None \<Rightarrow> JsError ''null'' | Some e \<Rightarrow> e)"
| "retryLoop (Suc n) call lastError =
     catch call (\<lambda>e. if classifyError e = Permanent then throw e else retryLoop n call (Some e))"

definition rpcCallWithRetry :: "string \<Rightarrow> json list \<Rightarrow> int \<Rightarrow> json option io" where
  "rpcCallWithRetry meth params chainId = retryLoop 3 (rpcCall meth params chainId) None"

section \<open>Fees\<close>

record fee_estimate =
  fe_gasLimit :: int
  fe_maxFeePerGas :: string
  fe_maxPriorityFeePerGas :: string

text \<open>Division of \<open>bigint\<close>s truncates towards zero.\<close>

definition bigint_div :: "int \<Rightarrow> int \<Rightarrow> int" where
  "bigint_div a b = sgn a * sgn b * (\<bar>a\<bar> div \<bar>b\<bar>)"

definition toHex :: "int \<Rightarrow> string" where
  "toHex v = ''0x'' @ (if v < 0 then CHR ''-'' # show_hex (nat (- v)) else show_hex (nat v))"

definition gas_with_buffer :: "int \<Rightarrow> int" where
  "gas_with_buffer estimated = bigint_div (estimated * 120) 100"

definition estimateGas :: "string \<Rightarrow> string \<Rightarrow> string \<Rightarrow> int \<Rightarrow> string option \<Rightarrow> int io" where
  "estimateGas to amount data chainId sender =
     andThen (lift_res (bigint_of_string amount)) (\<lambda>v.
     andThen (rpcCallWithRetry ''eth_estimateGas''
        [JObj ([(''to'', JStr to), (''value'', JStr (toHex v)), (''data'', JStr data)]
           @ (case sender of None \<Rightarrow> []
              | Some a \<Rightarrow> if a = [] then [] else [(''from'', JStr a)]))] chainId) (\<lambda>result.
     andThen (lift_res (js_BigInt result)) (\<lambda>estimated. ret (gas_with_buffer estimated))))"

text \<open>\<open>history.baseFeePerGas\<close> and \<open>history.reward\<close>, used as arrays.\<close>

definition json_array :: "json option \<Rightarrow> js_error + json list" where
  "json_array x = (case x of Some (JArr xs) \<Rightarrow> Inr xs | _ \<Rightarrow> Inl (JsError ''TypeError: not an array''))"

definition history_prop :: "string \<Rightarrow> json option \<Rightarrow> json option" where
  "history_prop k h = (case h of None \<Rightarrow> None | Some j \<Rightarrow> get_prop k j)"

fun bigints :: "json option list \<Rightarrow> js_error + int list" where
  "bigints [] = Inr []"
| "bigints (x # xs) = (case js_BigInt x of Inl e \<Rightarrow> Inl e
     | Inr n \<Rightarrow> (case bigints xs of Inl e \<Rightarrow> Inl e | Inr ns \<Rightarrow> Inr (n # ns)))"

text \<open>\<open>r[0]\<close> of one block: null has no elements to read, an empty array gives undefined.\<close>

fun first_reward :: "json \<Rightarrow> js_error + json option" where
  "first_reward (JArr []) = Inr None"
| "first_reward (JArr (x # xs)) = Inr (Some x)"
| "first_reward JNull = Inl (JsError ''Cannot read properties of null'')"
| "first_reward _ = Inr None"

fun map_res :: "('a \<Rightarrow> js_error + 'b) \<Rightarrow> 'a list \<Rightarrow> js_error + 'b list" where
  "map_res f [] = Inr []"
| "map_res f (x # xs) = (case f x of Inl e \<Rightarrow> Inl e
     | Inr y \<Rightarrow> (case map_res f xs of Inl e \<Rightarrow> Inl e | Inr ys \<Rightarrow> Inr (y # ys)))"

text \<open>The projected base fee: the last element, undefined for an empty array.\<close>

definition base_fee :: "json list \<Rightarrow> js_error + int" where
  "base_fee fees = js_BigInt (if fees = [] then None else Some (last fees))"

definition median_tip :: "int list \<Rightarrow> js_error + int" where
  "median_tip tips = (if tips = []
     then Inl (JsError ''Cannot mix BigInt and other types, use explicit conversions'')
     else Inr (sort tips ! (length tips div 2)))"

definition bind_res :: "'e + 'a \<Rightarrow> ('a \<Rightarrow> 'e + 'b) \<Rightarrow> 'e + 'b" where
  "bind_res r f = (case r of Inl e \<Rightarrow> Inl e | Inr x \<Rightarrow> f x)"

definition fees_of_history :: "json option \<Rightarrow> js_error + (string \<times> string)" where
  "fees_of_history h =
     bind_res (json_array (history_prop ''baseFeePerGas'' h)) (\<lambda>fees.
     bind_res (base_fee fees) (\<lambda>baseFee.
     bind_res (json_array (history_prop ''reward'' h)) (\<lambda>reward.
     bind_res (map_res (\<lambda>r. bind_res (first_reward r) js_BigInt) reward) (\<lambda>tips.
     bind_res (median_tip tips) (\<lambda>medianTip.
       Inr (show_int (baseFee * 2 + medianTip), show_int medianTip))))))"

definition fetchFeeData :: "int \<Rightarrow> (string \<times> string) io" where
  "fetchFeeData chainId =
     andThen (rpcCallWithRetry ''eth_feeHistory'' [JNum 5, JStr ''latest'', JArr [JNum 75]] chainId)
       (\<lambda>history. lift_res (fees_of_history history))"

definition estimateFees :: "string \<Rightarrow> string \<Rightarrow> string \<Rightarrow> int \<Rightarrow> string option \<Rightarrow> fee_estimate io" where
  "estimateFees to amount data chainId sender =
     andThen (both (estimateGas to amount data chainId sender) (fetchFeeData chainId))
       (\<lambda>(gasLimit, maxFee, maxPriority).
          ret \<lparr>fe_gasLimit = gasLimit, fe_maxFeePerGas = maxFee,
               fe_maxPriorityFeePerGas = maxPriority\<rparr>)"

section \<open>Nonces, broadcast and queries\<close>

definition reserveNonce :: "string \<Rightarrow> int \<Rightarrow> int io" where
  "reserveNonce walletId chainId = nonce_reserve walletId chainId"

definition releaseNonce :: "string \<Rightarrow> int \<Rightarrow> int \<Rightarrow> bool io" where
  "releaseNonce walletId chainId n = nonce_release walletId chainId n"

text \<open>
  A raw transaction that is undefined becomes null in the array of the parameters.
\<close>

definition broadcastTransaction :: "string option \<Rightarrow> int \<Rightarrow> json option io" where
  "broadcastTransaction rawTxHex chainId =
     rpcCallWithRetry ''eth_sendRawTransaction''
       [case rawTxHex of None \<Rightarrow> JNull | Some s \<Rightarrow> JStr s] chainId"

record receipt =
  rc_transactionHash :: "json option"
  rc_blockNumber :: js_num
  rc_status :: js_num
  rc_gasUsed :: "string option"
  rc_effectiveGasPrice :: "string option"

text \<open>\<open>raw.x != null ? String(raw.x) : undefined\<close>.\<close>

definition optional_string :: "json option \<Rightarrow> string option" where
  "optional_string x = (case x of None \<Rightarrow> None
     | Some j \<Rightarrow> if j = JNull then None else Some (js_String j))"

definition receipt_of_raw :: "json \<Rightarrow> receipt" where
  "receipt_of_raw raw = \<lparr>
     rc_transactionHash = get_prop ''transactionHash'' raw,
     rc_blockNumber = js_Number (get_prop ''blockNumber'' raw),
     rc_status = (case get_prop ''status'' raw of Some (JStr s) \<Rightarrow> parseInt16 s
                  | s \<Rightarrow> js_Number s),
     rc_gasUsed = optional_string (get_prop ''gasUsed'' raw),
     rc_effectiveGasPrice = optional_string (get_prop ''effectiveGasPrice'' raw)\<rparr>"

definition getTransactionReceipt :: "string \<Rightarrow> int \<Rightarrow> receipt option io" where
  "getTransactionReceipt txHash chainId =
     andThen (rpcCallWithRetry ''eth_getTransactionReceipt'' [JStr txHash] chainId) (\<lambda>raw.
       ret (if js_truthy raw then map_option receipt_of_raw raw else None))"

definition getTransactionByHash :: "string \<Rightarrow> int \<Rightarrow> json option io" where
  "getTransactionByHash txHash chainId =
     rpcCallWithRetry ''eth_getTransactionByHash'' [JStr txHash] chainId"

definition syncNonce :: "string \<Rightarrow> int \<Rightarrow> string \<Rightarrow> js_num io" where
  "syncNonce walletId chainId walletAddress =
     andThen (rpcCallWithRetry ''eth_getTransactionCount''
        [JStr walletAddress, JStr ''pending''] chainId) (\<lambda>result.
     let chainNonce = parseInt16 (case result of None \<Rightarrow> ''undefined'' | Some j \<Rightarrow> js_String j)
     in andThen (nonce_syncFromChain walletId chainId chainNonce) (\<lambda>_. ret chainNonce))"

section \<open>What a call may send\<close>

text \<open>The JSON-RPC requests for one call of a method.\<close>

definition is_rpc :: "string \<Rightarrow> json list \<Rightarrow> http_request \<Rightarrow> bool" where
  "is_rpc meth params rq \<longleftrightarrow> rq = rpc_request (rq_url rq) meth params"

lemma is_rpc_request [simp]: "is_rpc meth params (rpc_request u meth params)"
  by (simp add: is_rpc_def rpc_request_def)

lemma traffic_rpcOnce: "traffic (is_rpc meth params) (rpcOnce meth params u) 1"
  by (simp add: traffic_iff rpcOnce_def fetch_def run_defs)

lemma traffic_tryProviders:
  "traffic (is_rpc meth params) (tryProviders meth params us) (length us)"
proof (induction us rule: tryProviders.induct [of _ meth params])
  case 1
  show ?case by (simp add: traffic_throw)
next
  case (2 u)
  show ?case using traffic_rpcOnce by simp
next
  case (3 u v us)
  show ?case using traffic_catch [OF traffic_rpcOnce 3] by simp
qed

lemma traffic_rpcCall: "traffic (is_rpc meth params) (rpcCall meth params c) 5"
  unfolding traffic_iff
proof
  fix w
  show "\<exists>rs. w_sent (snd (rpcCall meth params c w)) = w_sent w @ rs \<and> length rs \<le> 5 \<and>
      list_all (is_rpc meth params) rs"
  proof (cases "map_of (chains (w_env w)) c")
    case None
    then show ?thesis by (simp add: rpcCall_def andThen_def getRpcUrls_run)
  next
    case (Some ch)
    then have "length (cc_rpcUrls ch) \<le> 5" using chains_urls by blast
    then have "traffic (is_rpc meth params) (tryProviders meth params (cc_rpcUrls ch)) 5"
      using traffic_mono traffic_tryProviders by blast
    with Some show ?thesis
      by (simp add: rpcCall_def andThen_def getRpcUrls_run traffic_iff)
  qed
qed

locale bounded_call =
  fixes call :: "'a io" and shape :: "http_request \<Rightarrow> bool" and bound :: nat
  assumes call_traffic: "traffic shape call bound"
begin

lemma retry_traffic: "traffic shape (retryLoop n call lastError) (n * bound)"
proof (induction n arbitrary: lastError)
  case 0
  show ?case by (simp add: traffic_throw)
next
  case (Suc n)
  have "traffic shape
      (if classifyError e = Permanent then throw e else retryLoop n call (Some e)) (n * bound)"
    for e using Suc by (simp add: traffic_throw)
  then show ?case using traffic_catch [OF call_traffic] by simp
qed

lemma retry_stops:
  assumes "call w = (r, w')" and "case r of Inl e \<Rightarrow> classifyError e = Permanent | Inr _ \<Rightarrow> True"
  shows "retryLoop (Suc n) call lastError w = (r, w')"
  using assms by (cases r) (simp_all add: catch_def throw_run)

lemma retry_goes_on:
  assumes "call w = (Inl e, w')" and "classifyError e \<noteq> Permanent"
  shows "retryLoop (Suc n) call lastError w = retryLoop n call (Some e) w'"
  using assms by (simp add: catch_def)

lemma retry_exhausted: "retryLoop 0 call (Some e) w = (Inl e, w)"
  by (simp add: throw_run)

end

interpretation rpc: bounded_call "rpcCall meth params c" "is_rpc meth params" 5
  for meth params c
  by unfold_locales (rule traffic_rpcCall)

lemma traffic_rpcCallWithRetry: "traffic (is_rpc meth params) (rpcCallWithRetry meth params c) 15"
  using rpc.retry_traffic [of meth params 3 c None] by (simp add: rpcCallWithRetry_def)

text \<open>Any request to a node: it carries no other header than the content type.\<close>

definition is_node_call :: "http_request \<Rightarrow> bool" where
  "is_node_call rq \<longleftrightarrow> (\<exists>meth params. is_rpc meth params rq)"

lemma node_call_header:
  assumes "is_node_call rq"
  shows "fst ` set (rq_headers rq) = {''Content-Type''}"
proof -
  from assms obtain meth params where "rq = rpc_request (rq_url rq) meth params"
    by (auto simp: is_node_call_def is_rpc_def)
  from arg_cong [OF this, of rq_headers] show ?thesis by (simp add: rpc_request_def)
qed

lemma traffic_node: "traffic is_node_call (rpcCallWithRetry meth params c) 15"
  by (rule traffic_weaken [OF traffic_rpcCallWithRetry]) (auto simp: is_node_call_def)

lemma traffic_estimateFees: "traffic is_node_call (estimateFees to v d c from) 30"
proof -
  have g: "traffic is_node_call (estimateGas to v d c from) 15"
    unfolding estimateGas_def
    by (intro traffic_after_silent traffic_then_silent traffic_node preserves_intros)
  have h: "traffic is_node_call (fetchFeeData c) 15"
    unfolding fetchFeeData_def by (intro traffic_then_silent traffic_node preserves_intros)
  show ?thesis
    unfolding estimateFees_def
    by (intro traffic_then_silent traffic_mono [OF traffic_both [OF g h]] preserves_intros) simp
qed

lemma traffic_syncNonce: "traffic is_node_call (syncNonce wid c a) 15"
  unfolding syncNonce_def Let_def nonce_syncFromChain_def
  by (intro traffic_then_silent traffic_node preserves_intros)

section \<open>Properties\<close>

text \<open>
  A call of the JSON-RPC client ends after a bounded amount of work, whatever the
  providers answer: at most fifteen requests are sent (three attempts over at most five
  providers), all of them for the same method and parameters.
\<close>

theorem rpc_traffic_bounded:
  "\<exists>rs. w_sent (snd (rpcCallWithRetry meth params c w)) = w_sent w @ rs \<and> length rs \<le> 15 \<and>
     list_all (is_rpc meth params) rs"
  using traffic_rpcCallWithRetry by (simp add: traffic_iff)

definition final :: "js_error + 'a \<Rightarrow> bool" where
  "final r \<longleftrightarrow> (case r of Inl e \<Rightarrow> classifyError e = Permanent | Inr _ \<Rightarrow> True)"

text \<open>
  Retrying: the outcome is the outcome of the first attempt that returns or fails with
  an error classified as permanent, and the third attempt's otherwise; no attempt is made
  after it, and the last error is the one reported.
\<close>

theorem rpc_retry_outcome:
  "rpcCallWithRetry meth params c w =
    (let (r1, w1) = rpcCall meth params c w;
         (r2, w2) = rpcCall meth params c w1;
         (r3, w3) = rpcCall meth params c w2
     in if final r1 then (r1, w1) else if final r2 then (r2, w2) else (r3, w3))"
proof -
  let ?call = "rpcCall meth params c"
  obtain r1 w1 where 1: "?call w = (r1, w1)" by fastforce
  obtain r2 w2 where 2: "?call w1 = (r2, w2)" by fastforce
  obtain r3 w3 where 3: "?call w2 = (r3, w3)" by fastforce
  have last: "retryLoop 1 ?call l w2 = (r3, w3)" for l
    using 3 rpc.retry_stops [of meth params c w2 r3 w3 0 l]
      rpc.retry_goes_on [of meth params c w2 _ w3 0 l] rpc.retry_exhausted
    by (cases r3) (auto simp: One_nat_def)
  have second: "retryLoop 2 ?call l w1 = (if final r2 then (r2, w2) else (r3, w3))" for l
    using 2 rpc.retry_stops [of meth params c w1 r2 w2 1 l]
      rpc.retry_goes_on [of meth params c w1 _ w2 1 l] last
    by (cases r2) (auto simp: final_def numeral_2_eq_2)
  show ?thesis
    using 1 2 3 rpc.retry_stops [of meth params c w r1 w1 2 None]
      rpc.retry_goes_on [of meth params c w _ w1 2 None] second
    by (cases r1) (auto simp: rpcCallWithRetry_def final_def numeral_3_eq_3 numeral_2_eq_2)
qed

text \<open>
  The gas limit is the estimate plus a fifth of it, rounded down: never below the
  estimate, never above 120 per cent of it.
\<close>

theorem gas_buffer_bounds:
  assumes "0 \<le> n"
  shows "gas_with_buffer n = n + n div 5 \<and> n \<le> gas_with_buffer n \<and>
    100 * gas_with_buffer n \<le> 120 * n \<and> 120 * n < 100 * (gas_with_buffer n + 1)"
proof -
  have "gas_with_buffer n = (n * 120) div 100"
    using assms by (cases "n = 0") (auto simp: gas_with_buffer_def bigint_div_def sgn_if)
  then show ?thesis using assms by auto
qed

theorem gas_buffer_bounds_witness: "gas_with_buffer 21000 = 25200 \<and> gas_with_buffer 21000 = 21000 + 21000 div 5"
  using gas_buffer_bounds [of 21000] by simp

text \<open>
  The median of the tips: the element in the middle of the sorted list.  Sorting keeps the
  number of elements below a bound, so the order of the blocks does not matter.
\<close>

lemma length_filter_sort [simp]: "length (filter P (sort xs)) = length (filter P xs)"
  by (simp add: filter_sort)

lemma sorted_nth_counts:
  assumes "sorted xs" and "i < length xs"
  shows "Suc i \<le> length (filter (\<lambda>t. t \<le> xs ! i) xs) \<and>
    length xs - i \<le> length (filter (\<lambda>t. xs ! i \<le> t) xs)"
proof -
  have split: "length (filter P xs) = length (filter P (take k xs)) + length (filter P (drop k xs))"
    for P k by (metis append_take_drop_id filter_append length_append)
  have "filter (\<lambda>t. t \<le> xs ! i) (take (Suc i) xs) = take (Suc i) xs"
    using assms by (auto simp: filter_id_conv in_set_conv_nth sorted_nth_mono less_Suc_eq_le)
  moreover have "filter (\<lambda>t. xs ! i \<le> t) (drop i xs) = drop i xs"
    using assms by (auto simp: filter_id_conv in_set_conv_nth sorted_nth_mono less_Suc_eq_le)
  ultimately show ?thesis
    using split [of "\<lambda>t. t \<le> xs ! i" "Suc i"] split [of "\<lambda>t. xs ! i \<le> t" i] assms(2) by simp
qed

lemma median_tip_middle:
  assumes "median_tip tips = Inr m"
  shows "m \<in> set tips \<and> length tips < 2 * length (filter (\<lambda>t. t \<le> m) tips) \<and>
    length tips \<le> 2 * length (filter (\<lambda>t. m \<le> t) tips)"
proof -
  let ?i = "length tips div 2"
  from assms have ne: "tips \<noteq> []" and m: "m = sort tips ! ?i"
    by (auto simp: median_tip_def split: if_splits)
  from ne have i: "?i < length (sort tips)" by simp
  have "m \<in> set tips" using m i nth_mem [OF i] by simp
  moreover have "Suc ?i \<le> length (filter (\<lambda>t. t \<le> m) tips)"
    and "length tips - ?i \<le> length (filter (\<lambda>t. m \<le> t) tips)"
    using sorted_nth_counts [OF sorted_sort i] m by simp_all
  ultimately show ?thesis by linarith
qed

text \<open>
  The fees: the priority fee is a median of the rewards of the sampled blocks (it is
  one of them, more than half of them do not exceed it and at least half of them reach it),
  and the fee cap is twice the projected base fee plus that tip.  An empty sample is an
  error, never a fee.
\<close>

theorem fees_from_history:
  assumes "json_array (history_prop ''baseFeePerGas'' h) = Inr fees"
    and "json_array (history_prop ''reward'' h) = Inr blocks"
    and "fees_of_history h = Inr (maxFee, tip)"
  shows "\<exists>base tips m. fees \<noteq> [] \<and> js_BigInt (Some (last fees)) = Inr base \<and>
     map_res (\<lambda>r. bind_res (first_reward r) js_BigInt) blocks = Inr tips \<and>
     m \<in> set tips \<and> length tips < 2 * length (filter (\<lambda>t. t \<le> m) tips) \<and>
     length tips \<le> 2 * length (filter (\<lambda>t. m \<le> t) tips) \<and>
     tip = show_int m \<and> maxFee = show_int (2 * base + m)"
proof -
  from assms obtain base tips m where base: "base_fee fees = Inr base"
    and tips: "map_res (\<lambda>r. bind_res (first_reward r) js_BigInt) blocks = Inr tips"
    and m: "median_tip tips = Inr m" and "tip = show_int m" and "maxFee = show_int (base * 2 + m)"
    by (auto simp: fees_of_history_def bind_res_def split: sum.splits)
  moreover from base have "fees \<noteq> []" and "js_BigInt (Some (last fees)) = Inr base"
    by (auto simp: base_fee_def split: if_splits)
  ultimately show ?thesis
    using median_tip_middle [OF m] by (intro exI [of _ base] exI [of _ tips] exI [of _ m])
      (simp add: mult.commute)
qed

theorem fees_from_history_witness:
  "let h = Some (JObj [(''baseFeePerGas'', JArr [JStr ''0x64'', JStr ''0x6e'']),
       (''reward'', JArr [JArr [JStr ''0x3''], JArr [JStr ''0x1''], JArr [JStr ''0x2'']])])
   in fees_of_history h = Inr (''222'', ''2'') \<and>
      (\<exists>base m. ''222'' = show_int (2 * base + m) \<and> ''2'' = show_int m)"
proof -
  let ?h = "Some (JObj [(''baseFeePerGas'', JArr [JStr ''0x64'', JStr ''0x6e'']),
     (''reward'', JArr [JArr [JStr ''0x3''], JArr [JStr ''0x1''], JArr [JStr ''0x2'']])])"
  have f: "fees_of_history ?h = Inr (''222'', ''2'')" by code_simp
  have "json_array (history_prop ''baseFeePerGas'' ?h) = Inr [JStr ''0x64'', JStr ''0x6e'']"
    and "json_array (history_prop ''reward'' ?h) =
      Inr [JArr [JStr ''0x3''], JArr [JStr ''0x1''], JArr [JStr ''0x2'']]"
    by (simp_all add: json_array_def history_prop_def)
  from fees_from_history [OF this f] f show ?thesis by (auto simp: Let_def)
qed

section \<open>What a call of a node keeps\<close>

text \<open>A call of a node keeps whatever sending a request keeps.\<close>

lemma rpc_preserves:
  assumes "\<And>rq. preserves I (fetch rq)"
  shows "preserves I (rpcCallWithRetry meth params c)"
proof -
  have prov: "preserves I (tryProviders meth params us)" for us
    by (induction us rule: tryProviders.induct [of _ meth params])
      (auto simp: rpcOnce_def intro!: preserves_intros assms)
  have "preserves I (retryLoop n (rpcCall meth params c) e)" for n e
  proof (induction n arbitrary: e)
    case 0
    show ?case by (simp add: preserves_throw)
  next
    case (Suc n)
    then show ?case
      by (auto simp: rpcCall_def intro!: preserves_intros prov)
  qed
  then show ?thesis by (simp add: rpcCallWithRetry_def)
qed

end
