(* ===== verification/External.thy ===== *)
theory External
  imports World
begin

text \<open>
  The functions the source calls in packages that are not part of the repository: viem,
  the cryptography of Node, and the parser of dates, whose accepted formats the language
  leaves to the implementation.  They are the fields of one record, which every definition
  that needs one of them takes as its first argument.
\<close>

record ext =
  isAddress :: "string \<Rightarrow> bool"
    \<comment> \<open>viem: a 20-byte hex address, with a valid checksum when its case is mixed\<close>
  parseDate :: "string \<Rightarrow> int option"
    \<comment> \<open>\<open>new Date(s).getTime()\<close>; \<open>None\<close> is \<open>NaN\<close>\<close>
  sha256hex :: "string \<Rightarrow> string"
    \<comment> \<open>\<open>createHash('sha256').update(s).digest('hex')\<close>\<close>
  sha256b64 :: "string \<Rightarrow> string"
    \<comment> \<open>the same digest in base64url\<close>
  fromBase64 :: "string \<Rightarrow> string"
    \<comment> \<open>\<open>Buffer.from(s, 'base64url')\<close>, which skips what is not base64\<close>
  fromHex :: "string \<Rightarrow> string"
    \<comment> \<open>\<open>Buffer.from(s, 'hex')\<close>\<close>
  verifyP256 :: "string \<Rightarrow> string \<Rightarrow> string \<Rightarrow> bool option"
    \<comment> \<open>key, payload, signature: \<open>verify('sha256', ..)\<close>; \<open>None\<close> when it throws\<close>
  keyType :: "string \<Rightarrow> (string \<times> string option) option"
    \<comment> \<open>\<open>createPublicKey(pem)\<close>: its type and the curve of its JWK; \<open>None\<close> when it throws\<close>
  hashTypedData :: "json \<Rightarrow> json \<Rightarrow> string \<Rightarrow> json \<Rightarrow> js_error + string"
    \<comment> \<open>viem: domain, types, primary type, message\<close>
  hashMessage :: "string \<Rightarrow> string"
    \<comment> \<open>viem: the EIP-191 hash\<close>

text \<open>
  A concrete instance, for the examples: addresses are strings of 42 characters, dates are
  decimal numbers of milliseconds, digests and encodings are the identity, and every
  signature is the payload it signs.
\<close>

definition sample_ext :: ext where
  "sample_ext = \<lparr>isAddress = (\<lambda>s. length s = 42),
     parseDate = (\<lambda>s. if is_digits s then Some (int (dec_value s)) else None),
     sha256hex = (\<lambda>s. s), sha256b64 = (\<lambda>s. s), fromBase64 = (\<lambda>s. s), fromHex = (\<lambda>s. s),
     verifyP256 = (\<lambda>k m s. Some (take (length m) s = m)),
     keyType = (\<lambda>k. Some (''ec'', Some ''P-256'')),
     hashTypedData = (\<lambda>d t p m. Inr p), hashMessage = (\<lambda>m. m)\<rparr>"

end
