(* ===== verification/Policy.thy ===== *)
theory Policy
  imports Repositories External
begin

text \<open>
  \<open>PolicyService\<close> (\<open>libs/policy/src/policy.service.ts\<close>): the rules that gate every
  signing request.  A rule is evaluated by \<open>evaluateRule_at\<close>, a function of the policy,
  the transaction and the time; \<open>evaluateRule\<close> reads the clock where the source does.
\<close>

record tx_payload =
  pl_to :: string
  pl_value :: string
  pl_chainId :: int
  pl_dataHash :: "string option"
  pl_dataLength :: "int option"
  pl_dataSelector :: "string option"

datatype verdict = Allow | Deny string

text \<open>The payload as the audit log stores it: absent fields are dropped by \<open>jsonb\<close>.\<close>

definition json_opt :: "string \<Rightarrow> ('a \<Rightarrow> json) \<Rightarrow> 'a option \<Rightarrow> (string \<times> json) list" where
  "json_opt k f x = (case x of None \<Rightarrow> [] | Some v \<Rightarrow> [(k, f v)])"

definition payload_json :: "tx_payload \<Rightarrow> json" where
  "payload_json tx = JObj ([(''to'', JStr (pl_to tx)), (''value'', JStr (pl_value tx)),
     (''chainId'', JNum (pl_chainId tx))]
     @ json_opt ''dataHash'' JStr (pl_dataHash tx)
     @ json_opt ''dataLength'' JNum (pl_dataLength tx)
     @ json_opt ''dataSelector'' JStr (pl_dataSelector tx))"

section \<open>Shape checks\<close>

fun is_string :: "json \<Rightarrow> bool" where
  "is_string (JStr _) = True"
| "is_string _ = False"

fun is_object :: "json \<Rightarrow> bool" where
  "is_object (JObj _) = True"
| "is_object (JArr _) = True"
| "is_object _ = False"

fun string_prop :: "string \<Rightarrow> json \<Rightarrow> string option" where
  "string_prop k j = (case get_prop k j of Some (JStr s) \<Rightarrow> Some s | _ \<Rightarrow> None)"

definition isAddressList :: "json option \<Rightarrow> bool" where
  "isAddressList v = (case v of Some (JArr xs) \<Rightarrow> list_all is_string xs | _ \<Rightarrow> False)"

definition isCalldataAllowlist :: "json option \<Rightarrow> bool" where
  "isCalldataAllowlist v = (case v of
     Some (JArr xs) \<Rightarrow> list_all (\<lambda>e. is_object e \<and> string_prop ''to'' e \<noteq> None \<and>
       string_prop ''selector'' e \<noteq> None) xs
   | _ \<Rightarrow> False)"

text \<open>The elements of an array value.\<close>

fun elements :: "json option \<Rightarrow> json list" where
  "elements (Some (JArr xs)) = xs"
| "elements _ = []"

section \<open>One rule\<close>

definition invalidConfig :: "policy \<Rightarrow> verdict" where
  "invalidConfig p = Deny (''Policy '' @ p_id p @ '' has invalid configuration'')"

definition appliesToWallet :: "policy \<Rightarrow> string \<Rightarrow> bool" where
  "appliesToWallet p walletId = (p_applies_to p = ''all'' \<or>
     (p_applies_to p = ''wallet'' \<and> p_target_id p = Some walletId))"

definition eval_blocklist :: "policy \<Rightarrow> tx_payload \<Rightarrow> verdict" where
  "eval_blocklist p tx = (let blocklist = get_prop ''addresses'' (p_rule_config p) in
     if \<not> isAddressList blocklist then invalidConfig p
     else if JStr (toLowerCase (pl_to tx)) \<in> set (elements blocklist)
     then Deny (''Recipient address '' @ pl_to tx @ '' is on the blocklist'')
     else Allow)"

definition eval_allowlist :: "policy \<Rightarrow> tx_payload \<Rightarrow> verdict" where
  "eval_allowlist p tx = (let allowlist = get_prop ''addresses'' (p_rule_config p) in
     if \<not> isAddressList allowlist then invalidConfig p
     else if 0 < length (elements allowlist) \<and>
             JStr (toLowerCase (pl_to tx)) \<notin> set (elements allowlist)
     then Deny (''Recipient address '' @ pl_to tx @ '' is not on the allowlist'')
     else Allow)"

definition eval_spend_limit :: "policy \<Rightarrow> tx_payload \<Rightarrow> js_error + verdict" where
  "eval_spend_limit p tx = (case get_prop ''max_amount_wei'' (p_rule_config p) of
     Some (JStr m) \<Rightarrow>
       if \<not> is_canonical_dec m then Inr (invalidConfig p)
       else (case bigint_of_string m of Inl e \<Rightarrow> Inl e
         | Inr maxAmount \<Rightarrow> (case bigint_of_string (pl_value tx) of Inl e \<Rightarrow> Inl e
             | Inr txValue \<Rightarrow>
                 if maxAmount < txValue
                 then Inr (Deny (''Transaction value '' @ show_int txValue
                        @ '' exceeds limit '' @ show_int maxAmount))
                 else Inr Allow))
   | _ \<Rightarrow> Inr (invalidConfig p))"

definition eval_calldata :: "policy \<Rightarrow> tx_payload \<Rightarrow> verdict" where
  "eval_calldata p tx = (let entries = get_prop ''entries'' (p_rule_config p) in
     if \<not> isCalldataAllowlist entries then invalidConfig p
     else case pl_dataSelector tx of
       None \<Rightarrow> Allow
     | Some sel \<Rightarrow>
         if sel = [] then Allow
         else if list_ex (\<lambda>e. string_prop ''to'' e = Some (toLowerCase (pl_to tx)) \<and>
                   string_prop ''selector'' e = Some (toLowerCase sel)) (elements entries)
         then Allow
         else Deny (''Calldata selector '' @ sel @ '' on '' @ pl_to tx @ '' is not allowlisted''))"

definition eval_time_lock :: "ext \<Rightarrow> policy \<Rightarrow> int \<Rightarrow> verdict" where
  "eval_time_lock X p t =
     (case (string_prop ''start_time'' (p_rule_config p), string_prop ''end_time'' (p_rule_config p)) of
       (Some s, Some e) \<Rightarrow> (case (parseDate X s, parseDate X e) of
           (Some startTime, Some endTime) \<Rightarrow>
             if endTime \<le> startTime then invalidConfig p
             else if t < startTime \<or> endTime < t
             then Deny ''Current time is outside the allowed signing window''
             else Allow
         | _ \<Rightarrow> invalidConfig p)
     | _ \<Rightarrow> invalidConfig p)"

definition known_rule_types :: "string list" where
  "known_rule_types = [''address_blocklist'', ''address_allowlist'', ''spend_limit'',
     ''calldata_allowlist'', ''time_lock'']"

text \<open>
  The \<open>switch\<close> of \<open>evaluateRule\<close>.  A \<open>rule_config\<close> that is null has no
  properties to read, so a rule of a known type then raises; any other malformed
  configuration denies.
\<close>

definition evaluateRule_at :: "ext \<Rightarrow> policy \<Rightarrow> tx_payload \<Rightarrow> int \<Rightarrow> js_error + verdict" where
  "evaluateRule_at X p tx t =
     (if p_rule_type p \<notin> set known_rule_types then Inr (invalidConfig p)
      else if p_rule_config p = JNull then Inl (JsError ''Cannot read properties of null'')
      else if p_rule_type p = ''address_blocklist'' then Inr (eval_blocklist p tx)
      else if p_rule_type p = ''address_allowlist'' then Inr (eval_allowlist p tx)
      else if p_rule_type p = ''spend_limit'' then eval_spend_limit p tx
      else if p_rule_type p = ''calldata_allowlist'' then Inr (eval_calldata p tx)
      else Inr (eval_time_lock X p t))"

text \<open>\<open>new Date()\<close> is called by a time lock only, once both bounds are strings.\<close>

definition reads_clock :: "policy \<Rightarrow> bool" where
  "reads_clock p = (p_rule_type p = ''time_lock'' \<and>
     string_prop ''start_time'' (p_rule_config p) \<noteq> None \<and>
     string_prop ''end_time'' (p_rule_config p) \<noteq> None)"

definition evaluateRule :: "ext \<Rightarrow> policy \<Rightarrow> tx_payload \<Rightarrow> verdict io" where
  "evaluateRule X p tx =
     (if reads_clock p then andThen now (\<lambda>t. lift_res (evaluateRule_at X p tx t))
      else lift_res (evaluateRule_at X p tx 0))"

section \<open>evaluate\<close>

definition log_evaluation :: "string \<Rightarrow> string \<Rightarrow> string \<Rightarrow> json \<Rightarrow> audit_entry io" where
  "log_evaluation orgId walletId status metadata =
     audit_create orgId None (Some walletId) ''policy_evaluation'' status (Some metadata)"

definition denied_json :: "policy \<Rightarrow> string \<Rightarrow> tx_payload \<Rightarrow> json" where
  "denied_json p reason tx = JObj [(''policyId'', JStr (p_id p)), (''policyName'', JStr (p_name p)),
     (''ruleType'', JStr (p_rule_type p)), (''reason'', JStr reason),
     (''txPayload'', payload_json tx)]"

text \<open>The loop over the applicable policies; \<open>n\<close> is their number.\<close>

fun evaluateAll :: "ext \<Rightarrow> string \<Rightarrow> string \<Rightarrow> tx_payload \<Rightarrow> nat \<Rightarrow> policy list \<Rightarrow> verdict io" where
  "evaluateAll X orgId walletId tx n [] =
     andThen (log_evaluation orgId walletId ''allowed''
        (JObj [(''policiesChecked'', JNum (int n)), (''txPayload'', payload_json tx)]))
       (\<lambda>_. ret Allow)"
| "evaluateAll X orgId walletId tx n (p # ps) =
     andThen (evaluateRule X p tx) (\<lambda>result. case result of
       Deny reason \<Rightarrow> andThen (log_evaluation orgId walletId ''denied'' (denied_json p reason tx))
          (\<lambda>_. ret (Deny reason))
     | Allow \<Rightarrow> evaluateAll X orgId walletId tx n ps)"

definition no_policy_reason :: string where
  "no_policy_reason = ''No applicable active policy for this wallet''"

definition evaluate :: "ext \<Rightarrow> string \<Rightarrow> string \<Rightarrow> tx_payload \<Rightarrow> verdict io" where
  "evaluate X orgId walletId tx =
     andThen (policy_findByOrgId orgId (Some ''active'')) (\<lambda>policies.
       let applicable = filter (\<lambda>p. appliesToWallet p walletId) policies in
       if applicable = []
       then andThen (log_evaluation orgId walletId ''denied''
              (JObj [(''reason'', JStr no_policy_reason), (''txPayload'', payload_json tx)]))
            (\<lambda>_. ret (Deny no_policy_reason))
       else evaluateAll X orgId walletId tx (length applicable) applicable)"

section \<open>Creation, listing and deletion\<close>

definition is_selector :: "string \<Rightarrow> bool" where
  "is_selector s = (length s = 10 \<and> take 2 s = ''0x'' \<and> list_all is_hex_digit (drop 2 s))"

definition valid_address :: "ext \<Rightarrow> json \<Rightarrow> bool" where
  "valid_address X a = (case a of JStr s \<Rightarrow> isAddress X s | _ \<Rightarrow> False)"

definition valid_entry :: "ext \<Rightarrow> json \<Rightarrow> bool" where
  "valid_entry X e = (is_object e \<and>
     (case (string_prop ''to'' e, string_prop ''selector'' e) of
        (Some to, Some sel) \<Rightarrow> isAddress X to \<and> is_selector sel
      | _ \<Rightarrow> False))"

fun lower_json :: "json \<Rightarrow> json" where
  "lower_json (JStr s) = JStr (toLowerCase s)"
| "lower_json j = j"

definition lower_entry :: "json \<Rightarrow> json" where
  "lower_entry e = (case (string_prop ''to'' e, string_prop ''selector'' e) of
     (Some to, Some sel) \<Rightarrow> JObj [(''to'', JStr (toLowerCase to)), (''selector'', JStr (toLowerCase sel))]
   | _ \<Rightarrow> e)"

definition validateRuleConfig :: "ext \<Rightarrow> string \<Rightarrow> json \<Rightarrow> js_error + json" where
  "validateRuleConfig X ruleType config = (case config of
     JObj kvs \<Rightarrow>
       if ruleType = ''address_allowlist'' \<or> ruleType = ''address_blocklist'' then
         (case get_prop ''addresses'' config of
            Some (JArr xs) \<Rightarrow> if list_all (valid_address X) xs
              then Inr (JObj [(''addresses'', JArr (map lower_json xs))])
              else Inl (BadRequestException ''address policy ruleConfig.addresses must be an array of Ethereum addresses'')
          | _ \<Rightarrow> Inl (BadRequestException ''address policy ruleConfig.addresses must be an array of Ethereum addresses''))
       else if ruleType = ''spend_limit'' then
         (case get_prop ''max_amount_wei'' config of
            Some (JStr m) \<Rightarrow> if is_canonical_dec m then Inr (JObj [(''max_amount_wei'', JStr m)])
              else Inl (BadRequestException ''spend_limit ruleConfig.max_amount_wei must be a non-negative decimal wei string'')
          | _ \<Rightarrow> Inl (BadRequestException ''spend_limit ruleConfig.max_amount_wei must be a non-negative decimal wei string''))
       else if ruleType = ''calldata_allowlist'' then
         (case get_prop ''entries'' config of
            Some (JArr xs) \<Rightarrow> if list_all (valid_entry X) xs
              then Inr (JObj [(''entries'', JArr (map lower_entry xs))])
              else Inl (BadRequestException ''calldata_allowlist ruleConfig.entries must be an array of { to, selector } with a valid address and 4-byte selector'')
          | _ \<Rightarrow> Inl (BadRequestException ''calldata_allowlist ruleConfig.entries must be an array of { to, selector } with a valid address and 4-byte selector''))
       else if ruleType = ''time_lock'' then
         (case (string_prop ''start_time'' config, string_prop ''end_time'' config) of
            (Some s, Some e) \<Rightarrow> (case (parseDate X s, parseDate X e) of
                (Some st, Some en) \<Rightarrow> if st < en
                  then Inr (JObj [(''start_time'', JStr s), (''end_time'', JStr e)])
                  else Inl (BadRequestException ''time_lock ruleConfig requires valid start_time and end_time values with start_time before end_time'')
              | _ \<Rightarrow> Inl (BadRequestException ''time_lock ruleConfig requires valid start_time and end_time values with start_time before end_time''))
          | _ \<Rightarrow> Inl (BadRequestException ''time_lock ruleConfig requires valid start_time and end_time values with start_time before end_time''))
       else Inl (BadRequestException (''Unsupported policy rule type: '' @ ruleType))
   | _ \<Rightarrow> Inl (BadRequestException ''policy ruleConfig must be an object''))"

record new_policy =
  np_name :: string
  np_description :: "string option"
  np_rule_type :: string
  np_rule_config :: json
  np_applies_to :: string
  np_target_id :: "string option"
  np_priority :: int
  np_status :: string

definition createPolicy :: "ext \<Rightarrow> string \<Rightarrow> new_policy \<Rightarrow> policy io" where
  "createPolicy X orgId data =
     andThen (lift_res (validateRuleConfig X (np_rule_type data) (np_rule_config data))) (\<lambda>config.
       policy_create (\<lambda>i t. \<lparr>p_id = i, p_org_id = orgId, p_name = np_name data,
          p_description = np_description data, p_rule_type = np_rule_type data,
          p_rule_config = config, p_applies_to = np_applies_to data,
          p_target_id = np_target_id data, p_priority = np_priority data,
          p_status = np_status data, p_created_at = t, p_updated_at = t\<rparr>))"

definition listPolicies :: "string \<Rightarrow> policy list io" where
  "listPolicies orgId = policy_findByOrgId orgId (Some ''active'')"

definition deletePolicy :: "string \<Rightarrow> string \<Rightarrow> unit io" where
  "deletePolicy orgId policyId =
     andThen (policy_findById policyId) (\<lambda>found. case found of
       None \<Rightarrow> throw (BadRequestException ''Policy not found'')
     | Some p \<Rightarrow>
         if p_org_id p \<noteq> orgId
         then throw (BadRequestException ''Policy does not belong to this organization'')
         else andThen (policy_update policyId (\<lambda>r. r\<lparr>p_status := ''inactive''\<rparr>)) (\<lambda>_.
              andThen (audit_create orgId None None ''policy_deleted'' ''success''
                 (Some (JObj [(''policyId'', JStr policyId), (''name'', JStr (p_name p))]))) (\<lambda>_.
              ret ())))"

section \<open>Lemmas\<close>

lemma evaluateRule_at_indep:
  "\<not> reads_clock p \<Longrightarrow> evaluateRule_at X p tx t = evaluateRule_at X p tx t'"
  by (auto simp: evaluateRule_at_def reads_clock_def eval_time_lock_def known_rule_types_def
      split: option.splits)

lemma evaluateRule_returns:
  assumes "evaluateRule X p tx w = (Inr v, w')"
  shows "\<exists>i. evaluateRule_at X p tx (w_clock w i) = Inr v"
proof (cases "reads_clock p")
  case True
  with assms show ?thesis by (auto simp: evaluateRule_def now_def run_defs)
next
  case False
  with assms have "evaluateRule_at X p tx 0 = Inr v"
    by (simp add: evaluateRule_def run_defs)
  with evaluateRule_at_indep [OF False] show ?thesis by metis
qed

lemma evaluateRule_env [preserves_intros]:
  "preserves (same_env w0) (evaluateRule X p tx)"
  "preserves (silent rs) (evaluateRule X p tx)"
  "preserves quiet (evaluateRule X p tx)"
  unfolding evaluateRule_def by (intro preserves_intros)+

lemma evaluateRule_quiet:
  assumes "\<And>i. evaluateRule_at X p tx (w_clock w i) = Inr v"
  shows "\<exists>w'. evaluateRule X p tx w = (Inr v, w') \<and> w_db w' = w_db w \<and>
    w_sent w' = w_sent w \<and> w_clock w' = w_clock w \<and> quiet w' = quiet w"
proof (cases "reads_clock p")
  case True
  with assms show ?thesis by (simp add: evaluateRule_def now_def run_defs)
next
  case False
  with assms have "evaluateRule_at X p tx 0 = Inr v"
    using evaluateRule_at_indep by metis
  with False show ?thesis by (simp add: evaluateRule_def run_defs)
qed

lemma evaluateAll_allows:
  assumes "evaluateAll X orgId walletId tx n ps w = (Inr Allow, w')" and "p \<in> set ps"
  shows "\<exists>i. evaluateRule_at X p tx (w_clock w i) = Inr Allow"
  using assms
proof (induction ps arbitrary: w)
  case Nil
  then show ?case by simp
next
  case (Cons q qs)
  from Cons.prems(1) obtain v w1 where q: "evaluateRule X q tx w = (Inr v, w1)"
    and rest: "(case v of Deny reason \<Rightarrow> andThen (log_evaluation orgId walletId ''denied''
        (denied_json q reason tx)) (\<lambda>_. ret (Deny reason))
      | Allow \<Rightarrow> evaluateAll X orgId walletId tx n qs) w1 = (Inr Allow, w')"
    by (auto elim!: andThen_returns)
  have v: "v = Allow"
    using rest by (auto simp: run_defs split: verdict.splits prod.splits sum.splits)
  have "same_env w w1"
    using preserves_runD [OF evaluateRule_env(1) q same_env_refl] .
  then have clock: "w_clock w1 = w_clock w" by (simp add: same_env_def)
  show ?case
  proof (cases "p = q")
    case True
    with evaluateRule_returns [OF q] v show ?thesis by simp
  next
    case False
    with Cons.prems(2) Cons.IH [of w1] rest v clock show ?thesis by simp
  qed
qed

lemma evaluateAll_quiet:
  assumes "quiet w" and "\<And>p i. p \<in> set ps \<Longrightarrow> evaluateRule_at X p tx (w_clock w i) = Inr Allow"
  shows "\<exists>w' e. evaluateAll X orgId walletId tx n ps w = (Inr Allow, w') \<and>
    w_db w' = audit_log_update (\<lambda>l. l @ [e]) (w_db w) \<and> w_sent w' = w_sent w \<and>
    a_event e = ''policy_evaluation'' \<and> a_status e = ''allowed'' \<and> a_wallet_id e = Some walletId"
  using assms
proof (induction ps arbitrary: w)
  case Nil
  then show ?case
    by (simp add: log_evaluation_def andThen_def audit_create_quiet ret_run)
      (rule exI, rule conjI, rule refl, simp)
next
  case (Cons p ps)
  obtain w1 where w1: "evaluateRule X p tx w = (Inr Allow, w1)" "w_db w1 = w_db w"
      "w_sent w1 = w_sent w" "w_clock w1 = w_clock w" "quiet w1"
    using evaluateRule_quiet [of X p tx w Allow] Cons.prems by auto
  then show ?case
    using Cons.IH [of w1] Cons.prems by (simp add: andThen_def)
qed

lemma log_evaluation_env [preserves_intros]:
  "preserves (silent rs) (log_evaluation a b c d)"
  "preserves quiet (log_evaluation a b c d)"
  "preserves (same_env w0) (log_evaluation a b c d)"
  unfolding log_evaluation_def by (intro preserves_intros)+

lemma case_verdict_preserves [preserves_intros]:
  "(v = Allow \<Longrightarrow> preserves I m) \<Longrightarrow> (\<And>r. v = Deny r \<Longrightarrow> preserves I (k r)) \<Longrightarrow>
   preserves I (case v of Allow \<Rightarrow> m | Deny r \<Rightarrow> k r)"
  by (cases v) auto

lemma evaluateAll_env [preserves_intros]:
  "preserves (silent rs) (evaluateAll X a b tx n ps)"
  "preserves quiet (evaluateAll X a b tx n ps)"
  "preserves (same_env w0) (evaluateAll X a b tx n ps)"
  by (induction ps) (auto intro!: preserves_intros)

lemma evaluate_env [preserves_intros]:
  "preserves (silent rs) (evaluate X a b tx)"
  "preserves quiet (evaluate X a b tx)"
  "preserves (same_env w0) (evaluate X a b tx)"
  unfolding evaluate_def policy_findByOrgId_def Let_def by (intro preserves_intros)+

text \<open>The policies that decide on a request for a wallet.\<close>

definition applicable :: "string \<Rightarrow> string \<Rightarrow> db \<Rightarrow> policy list" where
  "applicable orgId walletId d =
     filter (\<lambda>p. appliesToWallet p walletId) (select_policies orgId (Some ''active'') d)"

lemma set_applicable:
  "set (applicable orgId walletId d) = {p \<in> set (policies d). p_org_id p = orgId \<and>
     p_status p = ''active'' \<and> appliesToWallet p walletId}"
  by (auto simp: applicable_def select_policies_def)

lemma evaluate_no_policy:
  assumes "quiet w" and "applicable orgId walletId (w_db w) = []"
  shows "\<exists>w' e. evaluate X orgId walletId tx w = (Inr (Deny no_policy_reason), w') \<and>
    w_db w' = audit_log_update (\<lambda>l. l @ [e]) (w_db w) \<and> w_sent w' = w_sent w \<and>
    a_event e = ''policy_evaluation'' \<and> a_status e = ''denied'' \<and> a_wallet_id e = Some walletId"
  using assms
  by (simp add: evaluate_def policy_findByOrgId_def andThen_def query_quiet applicable_def
      log_evaluation_def audit_create_quiet ret_run) (rule exI, rule conjI, rule refl, simp)

lemma validated_addresses:
  assumes "list_all (valid_address X) xs"
  shows "list_all is_string (map lower_json xs)"
    and "JStr s \<in> set (map lower_json xs) \<longleftrightarrow> (\<exists>a. JStr a \<in> set xs \<and> s = toLowerCase a)"
proof -
  have str: "\<exists>a. x = JStr a" if "x \<in> set xs" for x
    using assms that by (cases x) (auto simp: list_all_iff valid_address_def)
  then show "list_all is_string (map lower_json xs)"
    by (force simp: list_all_iff)
  show "JStr s \<in> set (map lower_json xs) \<longleftrightarrow> (\<exists>a. JStr a \<in> set xs \<and> s = toLowerCase a)"
    using str by (force simp: image_iff)
qed

lemma validated_entries:
  assumes "list_all (valid_entry X) xs"
  shows "isCalldataAllowlist (Some (JArr (map lower_entry xs)))"
  using assms
  by (auto simp: isCalldataAllowlist_def list_all_iff valid_entry_def lower_entry_def
      split: option.splits)

text \<open>What \<open>validateRuleConfig\<close> returns, per rule type.\<close>

lemma validated_config_cases:
  assumes "validateRuleConfig X ty config = Inr c"
  obtains (addresses) xs where "ty = ''address_blocklist'' \<or> ty = ''address_allowlist''"
      and "get_prop ''addresses'' config = Some (JArr xs)" and "list_all (valid_address X) xs"
      and "c = JObj [(''addresses'', JArr (map lower_json xs))]"
  | (limit) m where "ty = ''spend_limit''" and "get_prop ''max_amount_wei'' config = Some (JStr m)"
      and "is_canonical_dec m" and "c = JObj [(''max_amount_wei'', JStr m)]"
  | (calldata) xs where "ty = ''calldata_allowlist''"
      and "get_prop ''entries'' config = Some (JArr xs)" and "list_all (valid_entry X) xs"
      and "c = JObj [(''entries'', JArr (map lower_entry xs))]"
  | (time) s e st en where "ty = ''time_lock''" and "string_prop ''start_time'' config = Some s"
      and "string_prop ''end_time'' config = Some e" and "parseDate X s = Some st"
      and "parseDate X e = Some en" and "st < en"
      and "c = JObj [(''start_time'', JStr s), (''end_time'', JStr e)]"
  using assms unfolding validateRuleConfig_def
  by (auto split: json.splits if_splits option.splits)

lemmas evaluateRule_at_defs = evaluateRule_at_def known_rule_types_def eval_blocklist_def
  eval_allowlist_def eval_spend_limit_def eval_calldata_def eval_time_lock_def

text \<open>What an allow decision rests on.\<close>

lemma evaluate_allows:
  assumes "evaluate X orgId walletId tx w = (Inr Allow, w')"
  shows "let ps = applicable orgId walletId (w_sched w (w_stmts w) (w_db w)) in
    ps \<noteq> [] \<and> (\<forall>p \<in> set ps. p_org_id p = orgId \<and> p_status p = ''active'' \<and>
      appliesToWallet p walletId \<and> (\<exists>i. evaluateRule_at X p tx (w_clock w i) = Inr Allow))"
proof -
  let ?d = "w_sched w (w_stmts w) (w_db w)"
  from assms obtain policies w1 where q: "policy_findByOrgId orgId (Some ''active'') w = (Inr policies, w1)"
    and rest: "(let ps = filter (\<lambda>p. appliesToWallet p walletId) policies in
       if ps = [] then andThen (log_evaluation orgId walletId ''denied''
              (JObj [(''reason'', JStr no_policy_reason), (''txPayload'', payload_json tx)]))
            (\<lambda>_. ret (Deny no_policy_reason))
       else evaluateAll X orgId walletId tx (length ps) ps) w1 = (Inr Allow, w')"
    unfolding evaluate_def by (rule andThen_returns)
  from q have "policies = select_policies orgId (Some ''active'') ?d" and clock: "w_clock w1 = w_clock w"
    by (auto simp: policy_findByOrgId_def query_def stmt_def Let_def split: option.splits)
  then have ps: "filter (\<lambda>p. appliesToWallet p walletId) policies = applicable orgId walletId ?d"
    by (simp add: applicable_def)
  have ne: "applicable orgId walletId ?d \<noteq> []"
  proof
    assume "applicable orgId walletId ?d = []"
    with rest ps show False
      by (auto simp: Let_def ret_run elim!: andThen_returns)
  qed
  with rest ps have "evaluateAll X orgId walletId tx (length (applicable orgId walletId ?d))
      (applicable orgId walletId ?d) w1 = (Inr Allow, w')"
    by (simp add: Let_def)
  from evaluateAll_allows [OF this] ne clock show ?thesis
    by (simp add: Let_def set_applicable)
qed

text \<open>
  \<open>refuses\<close>: no policy applies to the wallet, or one that applies never allows the
  transaction.  Writing to the audit log does not change it.
\<close>

definition refuses :: "ext \<Rightarrow> string \<Rightarrow> string \<Rightarrow> tx_payload \<Rightarrow> db \<Rightarrow> bool" where
  "refuses X orgId walletId tx d \<longleftrightarrow> applicable orgId walletId d = [] \<or>
     (\<exists>p \<in> set (applicable orgId walletId d). \<forall>t. evaluateRule_at X p tx t \<noteq> Inr Allow)"

lemma refuses_audit [simp]:
  "refuses X orgId walletId tx (audit_log_update f d) = refuses X orgId walletId tx d"
  by (simp add: refuses_def applicable_def select_policies_def)

lemma refuses_not_allowed:
  assumes "stable (refuses X orgId walletId tx) w"
  shows "evaluate X orgId walletId tx w \<noteq> (Inr Allow, w')"
proof
  assume "evaluate X orgId walletId tx w = (Inr Allow, w')"
  note allows = evaluate_allows [OF this, unfolded Let_def]
  have "refuses X orgId walletId tx (w_sched w (w_stmts w) (w_db w))"
    using assms by (simp add: stable_def)
  with allows show False by (auto simp: refuses_def)
qed

lemma stable_evaluate:
  assumes "\<And>d e. J d \<Longrightarrow> J (audit_log_update (\<lambda>l. l @ [e]) d)"
  shows "preserves (stable J) (evaluate X a b tx)"
proof -
  have log: "preserves (stable J) (log_evaluation a b s m)" for s m
    unfolding log_evaluation_def by (rule stable_audit_create) (rule assms)
  have rule: "preserves (stable J) (evaluateRule X p tx)" for p
    unfolding evaluateRule_def by (intro preserves_intros)
  have all: "preserves (stable J) (evaluateAll X a b tx n ps)" for n ps
    by (induction ps) (auto intro!: preserves_intros log rule)
  show ?thesis
    unfolding evaluate_def policy_findByOrgId_def Let_def by (intro preserves_intros log all)
qed

section \<open>Properties\<close>

text \<open>
  C17. An allow decision is justified: whatever other requests do meanwhile and whatever
  fails, if \<open>evaluate\<close> answers allow then, in the state its query saw, at least one active
  policy of the organization applied to the wallet, and each policy that applied allowed
  the transaction at the time it was checked.
\<close>

theorem evaluate_allow_sound:
  assumes "evaluate X orgId walletId tx w = (Inr Allow, w')"
  shows "let ps = applicable orgId walletId (w_sched w (w_stmts w) (w_db w)) in
    ps \<noteq> [] \<and> (\<forall>p \<in> set ps. p_org_id p = orgId \<and> p_status p = ''active'' \<and>
      appliesToWallet p walletId \<and> (\<exists>i. evaluateRule_at X p tx (w_clock w i) = Inr Allow))"
  using assms by (rule evaluate_allows)

text \<open>
  Conversely, with nothing interfering, a request on which every applicable policy
  allows the transaction is allowed; exactly one audit entry is written for it and nothing
  else in the database changes.
\<close>

theorem evaluate_allow_complete:
  assumes "quiet w" and "applicable orgId walletId (w_db w) \<noteq> []"
    and "\<And>p i. p \<in> set (applicable orgId walletId (w_db w)) \<Longrightarrow>
      evaluateRule_at X p tx (w_clock w i) = Inr Allow"
  shows "\<exists>w' e. evaluate X orgId walletId tx w = (Inr Allow, w') \<and>
    w_db w' = audit_log_update (\<lambda>l. l @ [e]) (w_db w) \<and> w_sent w' = w_sent w \<and>
    a_event e = ''policy_evaluation'' \<and> a_status e = ''allowed'' \<and> a_wallet_id e = Some walletId"
proof -
  have "evaluate X orgId walletId tx w = evaluateAll X orgId walletId tx
      (length (applicable orgId walletId (w_db w))) (applicable orgId walletId (w_db w)) (tick w)"
    using assms(1,2)
    by (simp add: evaluate_def policy_findByOrgId_def andThen_def query_quiet applicable_def
        Let_def)
  with evaluateAll_quiet [of "tick w" "applicable orgId walletId (w_db w)" X tx] assms
  show ?thesis by simp
qed

definition sample_policy :: "string \<Rightarrow> json \<Rightarrow> policy" where
  "sample_policy ty cfg = \<lparr>p_id = ''p1'', p_org_id = ''org'', p_name = ''rule'',
     p_description = None, p_rule_type = ty, p_rule_config = cfg, p_applies_to = ''all'',
     p_target_id = None, p_priority = 0, p_status = ''active'', p_created_at = 0,
     p_updated_at = 0\<rparr>"

definition sample_limit :: policy where
  "sample_limit = sample_policy ''spend_limit'' (JObj [(''max_amount_wei'', JStr ''1000'')])"

definition sample_tx :: tx_payload where
  "sample_tx = \<lparr>pl_to = ''0xAb'', pl_value = ''999'', pl_chainId = 1, pl_dataHash = None,
     pl_dataLength = None, pl_dataSelector = None\<rparr>"

definition policy_world :: "policy list \<Rightarrow> world" where
  "policy_world ps = calm_world (empty_db\<lparr>policies := ps\<rparr>) (\<lambda>_ _. NetError ''down'') Map.empty 0"

lemma applicable_policy_world:
  "applicable ''org'' ''w'' (w_db (policy_world [sample_limit])) = [sample_limit]"
  by (simp add: applicable_def select_policies_def policy_world_def calm_world_def
      sample_limit_def sample_policy_def appliesToWallet_def)

lemma sample_limit_allows: "evaluateRule_at X sample_limit sample_tx t = Inr Allow"
proof -
  have "is_canonical_dec ''1000''" and "is_canonical_dec ''999''"
    and "dec_value ''1000'' = 1000" and "dec_value ''999'' = 999" by code_simp+
  then show ?thesis
    by (simp add: evaluateRule_at_def known_rule_types_def sample_limit_def sample_policy_def
        sample_tx_def eval_spend_limit_def bigint_of_canonical)
qed

theorem evaluate_allow_complete_witness:
  "\<exists>w'. evaluate sample_ext ''org'' ''w'' sample_tx (policy_world [sample_limit]) = (Inr Allow, w')
     \<and> length (audit_log (w_db w')) = 1"
proof -
  have "quiet (policy_world [sample_limit])" by (simp add: policy_world_def)
  from evaluate_allow_complete [OF this, of "''org''" "''w''" sample_ext sample_tx]
  show ?thesis
    by (auto simp: applicable_policy_world sample_limit_allows)
      (auto simp: policy_world_def calm_world_def empty_db_def)
qed

theorem evaluate_allow_sound_witness:
  "applicable ''org'' ''w'' (w_db (policy_world [sample_limit])) \<noteq> [] \<and>
   (\<exists>i. evaluateRule_at sample_ext sample_limit sample_tx (w_clock (policy_world [sample_limit]) i) = Inr Allow)"
proof -
  let ?w = "policy_world [sample_limit]"
  have "evaluateRule sample_ext sample_limit sample_tx w = (Inr Allow, w)" for w
    using sample_limit_allows
    by (simp add: evaluateRule_def reads_clock_def sample_limit_def sample_policy_def run_defs)
  moreover have "quiet ?w" "quiet (tick ?w)" by (simp_all add: policy_world_def)
  ultimately have "fst (evaluate sample_ext ''org'' ''w'' sample_tx ?w) = Inr Allow"
    using applicable_policy_world
    by (simp add: evaluate_def policy_findByOrgId_def andThen_def query_quiet applicable_def
        Let_def log_evaluation_def audit_create_quiet ret_run)
  then obtain w' where "evaluate sample_ext ''org'' ''w'' sample_tx ?w = (Inr Allow, w')"
    by (metis prod.collapse)
  moreover have "w_sched ?w n d = d" for n d by (simp add: policy_world_def calm_world_def)
  ultimately show ?thesis
    using evaluate_allow_sound [of sample_ext "''org''" "''w''" sample_tx ?w w']
      applicable_policy_world by (simp add: Let_def)
qed

text \<open>
  The reference: of the policies that apply, each with the time at which it is judged and in
  their order, the first that does not allow the transaction decides; without any policy the
  transaction is denied.
\<close>

definition decision :: "ext \<Rightarrow> tx_payload \<Rightarrow> (policy \<times> int) list \<Rightarrow> js_error + verdict" where
  "decision X tx pts = (if pts = [] then Inr (Deny no_policy_reason)
     else case find (\<lambda>(p, t). evaluateRule_at X p tx t \<noteq> Inr Allow) pts of
       None \<Rightarrow> Inr Allow | Some (p, t) \<Rightarrow> evaluateRule_at X p tx t)"

definition logged :: "js_error + verdict \<Rightarrow> db \<Rightarrow> db \<Rightarrow> bool" where
  "logged r d d' \<longleftrightarrow> (case r of Inl e \<Rightarrow> d' = d
     | Inr v \<Rightarrow> \<exists>e. d' = audit_log_update (\<lambda>l. l @ [e]) d \<and> a_event e = ''policy_evaluation'' \<and>
         a_status e = (if v = Allow then ''allowed'' else ''denied''))"

text \<open>\<open>n\<close> readings of the clock, one after the other and between two worlds.\<close>

definition readings :: "nat \<Rightarrow> world \<Rightarrow> world \<Rightarrow> int list \<Rightarrow> bool" where
  "readings n w w' ts \<longleftrightarrow> (\<exists>ks. ts = map (w_clock w) ks \<and> length ks = n \<and> sorted ks \<and>
     (\<forall>k \<in> set ks. w_reads w \<le> k \<and> k \<le> w_reads w'))"

lemma readings_Cons:
  assumes "readings n w1 w' ts" and "w_clock w1 = w_clock w" and "w_reads w \<le> w_reads w1" and "w_reads w1 \<le> w_reads w'"
  shows "readings (Suc n) w w' (w_clock w (w_reads w) # ts)"
proof -
  from assms(1) obtain ks where ks: "ts = map (w_clock w1) ks" "length ks = n" "sorted ks"
    "\<forall>k \<in> set ks. w_reads w1 \<le> k \<and> k \<le> w_reads w'" unfolding readings_def by blast
  then show ?thesis
    using assms(2-4) unfolding readings_def by (intro exI [of _ "w_reads w # ks"]) fastforce
qed

lemma readings_same:
  "w_reads w \<le> w_reads w' \<Longrightarrow> readings n w w' (replicate n (w_clock w (w_reads w)))"
  unfolding readings_def by (intro exI [of _ "replicate n (w_reads w)"]) auto

lemma evaluateRule_clock:
  "\<exists>w'. evaluateRule X p tx w = (evaluateRule_at X p tx (w_clock w (w_reads w)), w') \<and> w_db w' = w_db w \<and>
    w_clock w' = w_clock w \<and> quiet w' = quiet w \<and> w_reads w \<le> w_reads w'"
proof (cases "reads_clock p")
  case True
  then show ?thesis by (simp add: evaluateRule_def now_def run_defs)
next
  case False
  with evaluateRule_at_indep have "evaluateRule_at X p tx 0 = evaluateRule_at X p tx (w_clock w (w_reads w))" by metis
  with False show ?thesis by (simp add: evaluateRule_def run_defs)
qed

lemma log_then_return:
  assumes "quiet w" and "st = (if v = Allow then ''allowed'' else ''denied'')"
  shows "\<exists>w'. andThen (log_evaluation orgId walletId st m) (\<lambda>_. ret v) w = (Inr v, w') \<and>
    logged (Inr v) (w_db w) (w_db w') \<and> w_reads w \<le> w_reads w'"
proof -
  let ?e = "audit_entry_of w orgId None (Some walletId) ''policy_evaluation'' st (Some m)"
  have "andThen (log_evaluation orgId walletId st m) (\<lambda>_. ret v) w = (Inr v, after_audit w ?e)"
    using assms(1) by (simp add: log_evaluation_def andThen_def audit_create_quiet ret_run)
  moreover have "logged (Inr v) (w_db w) (w_db (after_audit w ?e))"
    using assms(2) by (auto simp: logged_def)
  moreover have "w_reads w \<le> w_reads (after_audit w ?e)" by (simp add: after_audit_def)
  ultimately show ?thesis by blast
qed

lemma evaluateAll_decides:
  assumes "quiet w"
  shows "\<exists>r w' ts. evaluateAll X orgId walletId tx n ps w = (r, w') \<and> logged r (w_db w) (w_db w') \<and>
    readings (length ps) w w' ts \<and> w_reads w \<le> w_reads w' \<and>
    r = (case find (\<lambda>(p, t). evaluateRule_at X p tx t \<noteq> Inr Allow) (zip ps ts) of
      None \<Rightarrow> Inr Allow | Some (p, t) \<Rightarrow> evaluateRule_at X p tx t)"
  using assms
proof (induction ps arbitrary: w)
  case Nil
  from log_then_return [OF Nil, of "''allowed''" Allow] readings_same [of w _ 0] show ?case by fastforce
next
  case (Cons p ps)
  let ?t = "w_clock w (w_reads w)"
  obtain w1 where p: "evaluateRule X p tx w = (evaluateRule_at X p tx ?t, w1)" and w1: "w_db w1 = w_db w"
    "w_clock w1 = w_clock w" "quiet w1" "w_reads w \<le> w_reads w1"
    using evaluateRule_clock [of X p tx w] Cons.prems by auto
  consider e where "evaluateRule_at X p tx ?t = Inl e" | "evaluateRule_at X p tx ?t = Inr Allow"
    | reason where "evaluateRule_at X p tx ?t = Inr (Deny reason)"
    by (metis sum.exhaust verdict.exhaust)
  then show ?case
  proof cases
    case 1
    with p w1 readings_same [OF w1(4), of "Suc (length ps)"] show ?thesis
      by (intro exI [of _ "Inl e"] exI [of _ w1] exI [of _ "replicate (Suc (length ps)) ?t"])
        (simp add: andThen_def logged_def)
  next
    case 2
    from Cons.IH [OF w1(3)] obtain r w' ts where rest: "evaluateAll X orgId walletId tx n ps w1 = (r, w')"
      "logged r (w_db w1) (w_db w')" "readings (length ps) w1 w' ts" "w_reads w1 \<le> w_reads w'"
      "r = (case find (\<lambda>(p, t). evaluateRule_at X p tx t \<noteq> Inr Allow) (zip ps ts) of
        None \<Rightarrow> Inr Allow | Some (p, t) \<Rightarrow> evaluateRule_at X p tx t)" by (elim exE conjE)
    with 2 p w1 readings_Cons [OF rest(3) w1(2,4) rest(4)] show ?thesis
      by (intro exI [of _ r] exI [of _ w'] exI [of _ "?t # ts"]) (simp add: andThen_def)
  next
    case 3
    with p have run: "evaluateAll X orgId walletId tx n (p # ps) w =
        andThen (log_evaluation orgId walletId ''denied'' (denied_json p reason tx)) (\<lambda>_. ret (Deny reason)) w1"
      by (simp add: andThen_Inr)
    obtain w' where w': "andThen (log_evaluation orgId walletId ''denied'' (denied_json p reason tx))
        (\<lambda>_. ret (Deny reason)) w1 = (Inr (Deny reason), w')" "logged (Inr (Deny reason)) (w_db w1) (w_db w')"
        "w_reads w1 \<le> w_reads w'"
      using log_then_return [OF w1(3), of "''denied''" "Deny reason" orgId walletId "denied_json p reason tx"] by auto
    from w1(4) w'(3) have "w_reads w \<le> w_reads w'" by simp
    with 3 run w' w1(1) readings_same [OF this, of "Suc (length ps)"] show ?thesis
      by (intro exI [of _ "Inr (Deny reason)"] exI [of _ w'] exI [of _ "replicate (Suc (length ps)) ?t"]) simp
  qed
qed

lemma sorted_by_priority: "sorted_wrt (\<lambda>p q. p_priority q \<le> p_priority p) (applicable orgId walletId d)"
proof -
  have "sorted (map (\<lambda>p. - p_priority p) (applicable orgId walletId d))"
    by (simp add: applicable_def select_policies_def sorted_filter)
  then show ?thesis by (simp add: sorted_map)
qed

lemma evaluate_decides:
  assumes "quiet w"
  shows "\<exists>r w' ts. evaluate X orgId walletId tx w = (r, w') \<and> readings (length (applicable orgId walletId (w_db w))) w w' ts \<and>
    r = decision X tx (zip (applicable orgId walletId (w_db w)) ts) \<and> logged r (w_db w) (w_db w')"
proof (cases "applicable orgId walletId (w_db w) = []")
  case True
  have "evaluate X orgId walletId tx w = andThen (log_evaluation orgId walletId ''denied''
      (JObj [(''reason'', JStr no_policy_reason), (''txPayload'', payload_json tx)])) (\<lambda>_. ret (Deny no_policy_reason)) (tick w)"
    using assms True by (simp add: evaluate_def policy_findByOrgId_def andThen_def query_quiet applicable_def Let_def)
  with log_then_return [of "tick w" "''denied''" "Deny no_policy_reason"] assms True readings_same [of w _ 0]
  show ?thesis by (fastforce simp: decision_def)
next
  case False
  let ?ps = "applicable orgId walletId (w_db w)"
  have run: "evaluate X orgId walletId tx w = evaluateAll X orgId walletId tx (length ?ps) ?ps (tick w)"
    using assms False
    by (simp add: evaluate_def policy_findByOrgId_def andThen_def query_quiet applicable_def Let_def)
  have "quiet (tick w)" using assms by simp
  from evaluateAll_decides [OF this, of X orgId walletId tx "length ?ps" ?ps] obtain r w' ts where
    all: "evaluateAll X orgId walletId tx (length ?ps) ?ps (tick w) = (r, w')" "logged r (w_db w) (w_db w')"
    and ts: "readings (length ?ps) (tick w) w' ts"
    and r: "r = (case find (\<lambda>(p, t). evaluateRule_at X p tx t \<noteq> Inr Allow) (zip ?ps ts) of
      None \<Rightarrow> Inr Allow | Some (p, t) \<Rightarrow> evaluateRule_at X p tx t)"
    by (elim exE conjE) (simp only: tick_select)
  have "length ts = length ?ps" using ts by (auto simp: readings_def)
  then have "zip ?ps ts \<noteq> []" using False by (cases ?ps; cases ts) auto
  with r have "r = decision X tx (zip ?ps ts)" by (simp add: decision_def)
  moreover have "readings (length ?ps) w w' ts" using ts by (simp add: readings_def)
  ultimately show ?thesis using run all by auto
qed

text \<open>
  C8. The decision.  Undisturbed, \<open>evaluate\<close> is the reference decision on the active policies
  of the organization that apply to the wallet, ordered by falling priority, each judged at a
  reading of the clock during the call, one after the other: default denial, otherwise the first
  refusal (an error that a rule raises included), otherwise permission.  A verdict is written to
  the audit log in exactly one entry with the outcome; when a rule raises nothing is written; and
  the rest of the database is as before.
\<close>

theorem evaluate_is_the_first_refusal:
  assumes "quiet w" and "ps = applicable orgId walletId (w_db w)"
  shows "sorted_wrt (\<lambda>p q. p_priority q \<le> p_priority p) ps \<and>
    (\<exists>r w' ts. evaluate X orgId walletId tx w = (r, w') \<and> readings (length ps) w w' ts \<and>
      r = decision X tx (zip ps ts) \<and> logged r (w_db w) (w_db w'))"
  using evaluate_decides [OF assms(1)] sorted_by_priority unfolding assms(2) by blast

text \<open>Two limits, the stricter one behind: it decides.\<close>

definition strict_limit :: policy where
  "strict_limit = (sample_policy ''spend_limit'' (JObj [(''max_amount_wei'', JStr ''10'')]))\<lparr>p_id := ''p2'', p_priority := -1\<rparr>"

theorem evaluate_is_the_first_refusal_witness:
  "fst (evaluate sample_ext ''org'' ''w'' sample_tx (policy_world [strict_limit, sample_limit])) =
     evaluateRule_at sample_ext strict_limit sample_tx 0 \<and> evaluateRule_at sample_ext strict_limit sample_tx 0 \<noteq> Inr Allow"
proof
  let ?w = "policy_world [strict_limit, sample_limit]"
  have no: "evaluateRule_at sample_ext strict_limit sample_tx 0 \<noteq> Inr Allow" by code_simp
  then show "evaluateRule_at sample_ext strict_limit sample_tx 0 \<noteq> Inr Allow" .
  have i: "evaluateRule_at sample_ext strict_limit sample_tx t = evaluateRule_at sample_ext strict_limit sample_tx 0" for t
    by (rule evaluateRule_at_indep) (simp add: reads_clock_def strict_limit_def sample_policy_def)
  have ps: "[sample_limit, strict_limit] = applicable ''org'' ''w'' (w_db ?w)"
    by (simp add: applicable_def select_policies_def policy_world_def calm_world_def sample_limit_def strict_limit_def
        sample_policy_def appliesToWallet_def insort_key.simps)
  have "quiet ?w" by (simp add: policy_world_def)
  from evaluate_is_the_first_refusal [OF this ps, of sample_ext sample_tx] obtain r w' ts where
    run: "evaluate sample_ext ''org'' ''w'' sample_tx ?w = (r, w')" and ts: "readings (Suc (Suc 0)) ?w w' ts"
    and r: "r = decision sample_ext sample_tx (zip [sample_limit, strict_limit] ts)"
    by (elim conjE exE) (rule that, assumption, simp_all)
  from ts obtain t t' where "ts = [t, t']" by (auto simp: readings_def length_Suc_conv)
  with r no i [of t'] sample_limit_allows have "r = evaluateRule_at sample_ext strict_limit sample_tx 0"
    by (simp add: decision_def)
  with run show "fst (evaluate sample_ext ''org'' ''w'' sample_tx ?w) = evaluateRule_at sample_ext strict_limit sample_tx 0" by simp
qed

text \<open>
  Default deny: a wallet to which no active policy of its organization applies cannot
  sign.  The decision is a denial with its own reason, one audit entry records it, and
  nothing is sent and nothing else changes.
\<close>

theorem evaluate_default_deny:
  assumes "quiet w"
    and "\<forall>p \<in> set (policies (w_db w)). p_org_id p = orgId \<longrightarrow> p_status p = ''active'' \<longrightarrow>
      \<not> appliesToWallet p walletId"
  shows "\<exists>w' e. evaluate X orgId walletId tx w =
      (Inr (Deny ''No applicable active policy for this wallet''), w') \<and>
    w_db w' = audit_log_update (\<lambda>l. l @ [e]) (w_db w) \<and> w_sent w' = w_sent w \<and>
    a_event e = ''policy_evaluation'' \<and> a_status e = ''denied'' \<and> a_wallet_id e = Some walletId"
proof -
  have "set (applicable orgId walletId (w_db w)) = {}"
    using assms(2) by (auto simp: set_applicable)
  then show ?thesis
    using evaluate_no_policy [OF assms(1)] by (simp add: no_policy_reason_def)
qed

theorem evaluate_default_deny_witness:
  "\<exists>w'. evaluate sample_ext ''other'' ''w'' sample_tx (policy_world [sample_limit]) =
     (Inr (Deny ''No applicable active policy for this wallet''), w')"
proof -
  have "quiet (policy_world [sample_limit])" by (simp add: policy_world_def)
  moreover have "\<forall>p \<in> set (policies (w_db (policy_world [sample_limit]))). p_org_id p = ''other'' \<longrightarrow>
      p_status p = ''active'' \<longrightarrow> \<not> appliesToWallet p ''w''"
    by (simp add: policy_world_def calm_world_def sample_limit_def sample_policy_def)
  ultimately show ?thesis
    using evaluate_default_deny [of "policy_world [sample_limit]" "''other''" "''w''" sample_ext sample_tx]
    by blast
qed

text \<open>
  What \<open>createPolicy\<close> accepts, \<open>evaluate\<close> understands: a configuration that passed
  \<open>validateRuleConfig\<close> is never reported as invalid, at any time and for any transaction
  with a decimal amount, and its evaluation does not raise.
\<close>

theorem stored_config_is_evaluable:
  assumes "validateRuleConfig X (p_rule_type p) config = Inr (p_rule_config p)"
    and "is_canonical_dec (pl_value tx)"
  shows "\<exists>v. evaluateRule_at X p tx t = Inr v \<and> v \<noteq> invalidConfig p"
  using assms(1)
proof (cases rule: validated_config_cases)
  case (addresses xs)
  then have "isAddressList (get_prop ''addresses'' (p_rule_config p))"
    by (simp add: isAddressList_def validated_addresses(1))
  with addresses show ?thesis
    by (auto simp: evaluateRule_at_defs invalidConfig_def Let_def)
next
  case (limit m)
  with assms(2) show ?thesis
    by (auto simp: evaluateRule_at_defs bigint_of_canonical invalidConfig_def)
next
  case (calldata xs)
  then have "isCalldataAllowlist (get_prop ''entries'' (p_rule_config p))"
    by (simp add: validated_entries)
  with calldata show ?thesis
    by (auto simp: evaluateRule_at_defs invalidConfig_def Let_def split: option.split)
next
  case (time s e st en)
  then show ?thesis by (auto simp: evaluateRule_at_defs invalidConfig_def)
qed

theorem stored_config_is_evaluable_witness:
  "validateRuleConfig sample_ext ''time_lock''
      (JObj [(''end_time'', JStr ''20''), (''start_time'', JStr ''10'')]) =
    Inr (JObj [(''start_time'', JStr ''10''), (''end_time'', JStr ''20'')]) \<and>
   (\<exists>v. evaluateRule_at sample_ext (sample_policy ''time_lock''
      (JObj [(''start_time'', JStr ''10''), (''end_time'', JStr ''20'')])) sample_tx 15 = Inr v)"
proof -
  let ?p = "sample_policy ''time_lock'' (JObj [(''start_time'', JStr ''10''), (''end_time'', JStr ''20'')])"
  have v: "validateRuleConfig sample_ext ''time_lock''
      (JObj [(''end_time'', JStr ''20''), (''start_time'', JStr ''10'')]) =
    Inr (JObj [(''start_time'', JStr ''10''), (''end_time'', JStr ''20'')])"
    by code_simp
  have "is_canonical_dec (pl_value sample_tx)" by code_simp
  with stored_config_is_evaluable [of sample_ext ?p _ sample_tx 15] v show ?thesis
    by (auto simp: sample_policy_def)
qed

text \<open>
  The address rules compare addresses, not spellings: a rule created from the list
  \<open>as\<close> denies (blocklist) a recipient exactly when it equals an address of the list up to
  upper and lower case, and allows (allowlist) exactly those; an allowlist created from the
  empty list allows every recipient.
\<close>

theorem address_rules_ignore_case:
  assumes "validateRuleConfig X (p_rule_type p) config = Inr (p_rule_config p)"
    and "get_prop ''addresses'' config = Some (JArr (map JStr as))"
  shows "(p_rule_type p = ''address_blocklist'' \<longrightarrow>
      (evaluateRule_at X p tx t = Inr Allow \<longleftrightarrow> toLowerCase (pl_to tx) \<notin> toLowerCase ` set as)) \<and>
    (p_rule_type p = ''address_allowlist'' \<longrightarrow>
      (evaluateRule_at X p tx t = Inr Allow \<longleftrightarrow> as = [] \<or> toLowerCase (pl_to tx) \<in> toLowerCase ` set as))"
  using assms(1)
proof (cases rule: validated_config_cases)
  case (addresses xs)
  with assms(2) have xs: "xs = map JStr as" by simp
  have "isAddressList (get_prop ''addresses'' (p_rule_config p))"
    using addresses by (simp add: isAddressList_def validated_addresses(1))
  moreover have "elements (get_prop ''addresses'' (p_rule_config p)) = map (\<lambda>a. JStr (toLowerCase a)) as"
    using addresses(4) by (simp add: xs)
  ultimately show ?thesis
    using addresses(1,4) by (auto simp: evaluateRule_at_defs invalidConfig_def Let_def)
qed auto

definition checksummed :: string where
  "checksummed = ''0xD8dA6BF26964aF9D7eEd9e03E53415D37aA96045''"

theorem address_rules_ignore_case_witness:
  "let p = sample_policy ''address_blocklist'' (JObj [(''addresses'', JArr [JStr (toLowerCase checksummed)])])
   in evaluateRule_at sample_ext p (sample_tx\<lparr>pl_to := checksummed\<rparr>) 0 \<noteq> Inr Allow"
proof -
  let ?p = "sample_policy ''address_blocklist'' (JObj [(''addresses'', JArr [JStr (toLowerCase checksummed)])])"
  have "validateRuleConfig sample_ext (p_rule_type ?p) (JObj [(''addresses'', JArr (map JStr [checksummed]))])
      = Inr (p_rule_config ?p)"
    by code_simp
  from address_rules_ignore_case [OF this, of "[checksummed]" "sample_tx\<lparr>pl_to := checksummed\<rparr>" 0]
  show ?thesis by (simp add: sample_policy_def Let_def)
qed

text \<open>
  The spend limit compares amounts as numbers: with a limit and an amount in canonical
  decimal form it allows exactly the amounts up to and including the limit, however long
  the two strings are.
\<close>

theorem spend_limit_is_numeric:
  assumes "p_rule_type p = ''spend_limit''"
    and "get_prop ''max_amount_wei'' (p_rule_config p) = Some (JStr m)"
    and "is_canonical_dec m" and "is_canonical_dec (pl_value tx)"
  shows "evaluateRule_at X p tx t = Inr Allow \<longleftrightarrow> dec_value (pl_value tx) \<le> dec_value m"
proof -
  have "p_rule_config p \<noteq> JNull" using assms(2) by auto
  then show ?thesis
    using assms by (simp add: evaluateRule_at_defs bigint_of_canonical not_less)
qed

theorem spend_limit_is_numeric_witness:
  "evaluateRule_at sample_ext sample_limit (sample_tx\<lparr>pl_value := ''1001''\<rparr>) 0 \<noteq> Inr Allow \<and>
   evaluateRule_at sample_ext sample_limit (sample_tx\<lparr>pl_value := ''1000''\<rparr>) 0 = Inr Allow"
proof -
  have d: "is_canonical_dec ''1000''" "is_canonical_dec ''1001''"
    "dec_value ''1000'' = 1000" "dec_value ''1001'' = 1001" by code_simp+
  have "p_rule_type sample_limit = ''spend_limit''"
    and "get_prop ''max_amount_wei'' (p_rule_config sample_limit) = Some (JStr ''1000'')"
    by (simp_all add: sample_limit_def sample_policy_def)
  note l = spend_limit_is_numeric [OF this d(1)]
  show ?thesis
    using l [of "sample_tx\<lparr>pl_value := ''1001''\<rparr>" sample_ext 0]
      l [of "sample_tx\<lparr>pl_value := ''1000''\<rparr>" sample_ext 0] d by simp
qed

end
