(* ===== verification/CryptoClient.thy ===== *)
theory CryptoClient
  imports Repositories Traffic
begin

text \<open>
  \<open>CryptoClientService\<close> (\<open>libs/crypto-client/src/crypto-client.service.ts\<close>): the client
  of the signing service, which holds no state of its own.  The service itself is the
  network: its reply is an arbitrary function of the request.  A field of a reply that is
  missing (or is not the string the declared type promises) is \<open>None\<close>.
\<close>

definition getOrThrow :: "string \<Rightarrow> string io" where
  "getOrThrow k = andThen (config_get k) (\<lambda>v. case v of
     None \<Rightarrow> throw (JsError (''Configuration key '' @ k @ '' does not exist''))
   | Some s \<Rightarrow> ret s)"

text \<open>The two fields of the client, read from the configuration when the module starts.\<close>

definition crypto_onModuleInit :: "(string \<times> string) io" where
  "crypto_onModuleInit = andThen (getOrThrow ''CRYPTO_SERVICE_URL'') (\<lambda>baseUrl.
     andThen (getOrThrow ''CRYPTO_AUTH_TOKEN'') (\<lambda>authToken. ret (baseUrl, authToken)))"

definition crypto_request :: "string \<Rightarrow> string \<Rightarrow> string \<Rightarrow> json \<Rightarrow> http_request" where
  "crypto_request baseUrl authToken path body = \<lparr>rq_url = baseUrl @ path,
     rq_headers = [(''Content-Type'', ''application/json''), (''X-Crypto-Token'', authToken)],
     rq_body = body\<rparr>"

fun body_text :: "http_body \<Rightarrow> string" where
  "body_text (BodyJson t _) = t"
| "body_text (BodyText t) = t"
| "body_text BodyLost = ''(no body)''"

definition crypto_reply :: "string \<Rightarrow> net_result \<Rightarrow> js_error + json" where
  "crypto_reply path r = (case r of
     NetError m \<Rightarrow> Inl (JsError m)
   | NetResponse status _ body \<Rightarrow>
       if \<not> (200 \<le> status \<and> status \<le> 299)
       then Inl (JsError (''Crypto service '' @ path @ '' failed ['' @ show_nat status @ '']: ''
              @ body_text body))
       else (case body of
           BodyText t \<Rightarrow> Inl (JsError ''Unexpected token in JSON'')
         | BodyLost \<Rightarrow> Inl (JsError ''terminated'')
         | BodyJson t j \<Rightarrow> Inr j))"

definition post :: "string \<Rightarrow> json \<Rightarrow> json io" where
  "post path body =
     andThen crypto_onModuleInit (\<lambda>(baseUrl, authToken).
     andThen (fetch (crypto_request baseUrl authToken path body)) (\<lambda>r.
     lift_res (crypto_reply path r)))"

section \<open>The operations\<close>

text \<open>A property of a reply; a reply that is null has none to read.\<close>

definition reply_prop :: "string \<Rightarrow> json \<Rightarrow> string option" where
  "reply_prop k j = (case get_prop k j of Some (JStr s) \<Rightarrow> Some s | _ \<Rightarrow> None)"

definition not_null_reply :: "json \<Rightarrow> json io" where
  "not_null_reply j = (if j = JNull
     then throw (JsError ''Cannot read properties of null'') else ret j)"

record create_wallet_response =
  cw_encryptedSeed :: "string option"
  cw_seedNonce :: "string option"
  cw_encryptedDek :: "string option"
  cw_firstAddress :: "string option"

record derive_wallet_response =
  dw_address :: "string option"
  dw_derivationPath :: "string option"

record sign_transaction_result =
  st_signature :: "string option"
  st_txHash :: "string option"
  st_rawTx :: "string option"

definition crypto_createWallet :: "create_wallet_response io" where
  "crypto_createWallet = andThen (post ''/wallet/create'' (JObj [])) (\<lambda>j.
     andThen (not_null_reply j) (\<lambda>_.
     ret \<lparr>cw_encryptedSeed = reply_prop ''encryptedSeed'' j,
          cw_seedNonce = reply_prop ''seedNonce'' j,
          cw_encryptedDek = reply_prop ''encryptedDek'' j,
          cw_firstAddress = reply_prop ''firstAddress'' j\<rparr>))"

text \<open>The key material every other call carries.\<close>

definition seed_fields :: "organization_seed \<Rightarrow> (string \<times> json) list" where
  "seed_fields s = [(''encryptedSeed'', JStr (sd_encrypted_seed s)),
     (''seedNonce'', JStr (sd_seed_nonce s)), (''encryptedDek'', JStr (sd_encrypted_dek s))]"

definition derive_body :: "organization_seed \<Rightarrow> int \<Rightarrow> json" where
  "derive_body s derivIndex = JObj (seed_fields s @ [(''derivIndex'', JNum derivIndex)])"

definition crypto_deriveWallet :: "organization_seed \<Rightarrow> int \<Rightarrow> derive_wallet_response io" where
  "crypto_deriveWallet s derivIndex =
     andThen (post ''/wallet/derive'' (derive_body s derivIndex)) (\<lambda>j.
     andThen (not_null_reply j) (\<lambda>_.
     ret \<lparr>dw_address = reply_prop ''address'' j,
          dw_derivationPath = reply_prop ''derivationPath'' j\<rparr>))"

definition tx_fields_json :: "tx_fields \<Rightarrow> json" where
  "tx_fields_json tx = JObj [(''chainId'', JNum (tx_chainId tx)), (''nonce'', JNum (tx_nonce tx)),
     (''to'', JStr (tx_to tx)), (''value'', JStr (tx_value tx)),
     (''gasLimit'', JNum (tx_gasLimit tx)), (''maxFeePerGas'', JStr (tx_maxFeePerGas tx)),
     (''maxPriorityFeePerGas'', JStr (tx_maxPriorityFeePerGas tx)), (''data'', JStr (tx_data tx))]"

definition sign_body :: "organization_seed \<Rightarrow> string \<Rightarrow> tx_fields \<Rightarrow> json" where
  "sign_body s derivationPath tx = JObj (seed_fields s
     @ [(''derivationPath'', JStr derivationPath), (''txFields'', tx_fields_json tx)])"

definition crypto_signTransaction ::
    "organization_seed \<Rightarrow> string \<Rightarrow> tx_fields \<Rightarrow> sign_transaction_result io" where
  "crypto_signTransaction s derivationPath tx =
     andThen (post ''/wallet/sign-transaction'' (sign_body s derivationPath tx)) (\<lambda>j.
     andThen (not_null_reply j) (\<lambda>_.
     ret \<lparr>st_signature = reply_prop ''signature'' j, st_txHash = reply_prop ''txHash'' j,
          st_rawTx = reply_prop ''rawTx'' j\<rparr>))"

definition hash_body :: "organization_seed \<Rightarrow> string \<Rightarrow> string \<Rightarrow> json" where
  "hash_body s derivationPath hashHex = JObj (seed_fields s
     @ [(''derivationPath'', JStr derivationPath), (''hashHex'', JStr hashHex)])"

definition crypto_signHash :: "organization_seed \<Rightarrow> string \<Rightarrow> string \<Rightarrow> string option io" where
  "crypto_signHash s derivationPath hashHex =
     andThen (post ''/wallet/sign-hash'' (hash_body s derivationPath hashHex)) (\<lambda>j.
     andThen (not_null_reply j) (\<lambda>_. ret (reply_prop ''signature'' j)))"

section \<open>What the client sends\<close>

text \<open>A call of the signing service at a path, with a body; a request to sign a transaction.\<close>

definition is_crypto :: "string \<Rightarrow> json \<Rightarrow> http_request \<Rightarrow> bool" where
  "is_crypto path body rq \<longleftrightarrow> (\<exists>baseUrl authToken. rq = crypto_request baseUrl authToken path body)"

definition has_token :: "http_request \<Rightarrow> bool" where
  "has_token rq \<longleftrightarrow> ''X-Crypto-Token'' \<in> fst ` set (rq_headers rq)"

lemma is_crypto_has_token: "is_crypto path body rq \<Longrightarrow> has_token rq"
  by (auto simp: is_crypto_def has_token_def crypto_request_def)

lemma crypto_onModuleInit_env [preserves_intros]:
  "preserves (silent rs) crypto_onModuleInit" "preserves quiet crypto_onModuleInit"
  "preserves (same_env w0) crypto_onModuleInit" "preserves (stable J) crypto_onModuleInit"
  unfolding crypto_onModuleInit_def getOrThrow_def by (intro preserves_intros)+

lemma post_env [preserves_intros]:
  "preserves quiet (post path body)" "preserves (same_env w0) (post path body)"
  "preserves (stable J) (post path body)"
  unfolding post_def by (intro preserves_intros)+

lemma not_null_reply_env [preserves_intros]: "preserves I (not_null_reply j)"
  unfolding not_null_reply_def by (intro preserves_intros)

lemma crypto_env [preserves_intros]:
  "preserves quiet crypto_createWallet" "preserves (same_env w0) crypto_createWallet"
  "preserves (stable J) crypto_createWallet"
  "preserves quiet (crypto_deriveWallet s i)" "preserves (same_env w0) (crypto_deriveWallet s i)"
  "preserves (stable J) (crypto_deriveWallet s i)"
  "preserves quiet (crypto_signTransaction s p t)"
  "preserves (same_env w0) (crypto_signTransaction s p t)"
  "preserves (stable J) (crypto_signTransaction s p t)"
  "preserves quiet (crypto_signHash s p h)" "preserves (same_env w0) (crypto_signHash s p h)"
  "preserves (stable J) (crypto_signHash s p h)"
  unfolding crypto_createWallet_def crypto_deriveWallet_def crypto_signTransaction_def
    crypto_signHash_def by (intro preserves_intros)+

text \<open>One call sends one request, and it is the only kind that carries the token.\<close>

lemma emits_post: "emits (rationed (is_crypto path body) S 1 1) (post path body)"
proof -
  have init: "emits (rationed (is_crypto path body) S 0 0) crypto_onModuleInit"
    by (intro emits_silent preserves_intros) simp
  have "emits (rationed (is_crypto path body) S 1 1)
      (andThen (fetch (crypto_request u t path body)) (\<lambda>r. lift_res (crypto_reply path r)))" for u t
  proof (rule emits_rationed_andThen [where b = 1 and k = 1 and c = 0 and l = 0])
    show "emits (rationed (is_crypto path body) S 1 1) (fetch (crypto_request u t path body))"
      by (rule emits_fetch) (auto simp: rationed_def is_crypto_def)
  qed (auto intro!: emits_silent preserves_intros)
  then show ?thesis
    unfolding post_def
    by (intro emits_rationed_andThen [OF init]) (auto split: prod.splits)
qed

lemma emits_post_then:
  assumes "\<And>rs j. preserves (silent rs) (f j)"
  shows "emits (rationed (is_crypto path body) S 1 1) (andThen (post path body) f)"
  using assms by (intro emits_rationed_andThen [OF emits_post, where c = 0 and l = 0] emits_silent) auto

lemma emits_crypto:
  "emits (rationed (is_crypto ''/wallet/create'' (JObj [])) S 1 1) crypto_createWallet"
  "emits (rationed (is_crypto ''/wallet/derive'' (derive_body s i)) S 1 1) (crypto_deriveWallet s i)"
  "emits (rationed (is_crypto ''/wallet/sign-transaction'' (sign_body s p t)) S 1 1)
     (crypto_signTransaction s p t)"
  "emits (rationed (is_crypto ''/wallet/sign-hash'' (hash_body s p h)) S 1 1) (crypto_signHash s p h)"
  unfolding crypto_createWallet_def crypto_deriveWallet_def crypto_signTransaction_def
    crypto_signHash_def by (intro emits_post_then preserves_intros)+

end
