(* ===== verification/WalletService.thy ===== *)
theory WalletService
  imports Gas Policy CryptoClient
begin

text \<open>
  \<open>WalletService\<close> (\<open>libs/wallet/src/wallet.service.ts\<close>): onboarding, derivation, and
  the signing pipeline \<open>requestSign\<close>, cut where the source numbers its steps:
  \<open>loadPrerequisites\<close> (1), \<open>computeIdempotencyKey\<close> and the fast path (2),
  \<open>policy_payload\<close> and the evaluation (3), the fees (4), \<open>claimRequest\<close> (5),
  \<open>signOrFail\<close> (7), \<open>broadcastOrFail\<close> (9), and \<open>signAndSend\<close> for the steps
  from 6 on.
\<close>

record sign_request =
  req_chainId :: int
  req_to :: string
  req_value :: string
  req_data :: string

record sign_result =
  res_signingRequestId :: string
  res_txHash :: "string option"
  res_status :: string
  res_nonce :: int
  res_idempotencyKey :: "string option"
  res_errorType :: "string option"
  res_errorMessage :: "string option"

text \<open>\<open>x || ''\<close> and \<open>x || undefined\<close> on a column.\<close>

definition or_empty :: "string option \<Rightarrow> string" where
  "or_empty x = (case x of None \<Rightarrow> [] | Some s \<Rightarrow> s)"

definition or_undefined :: "string option \<Rightarrow> string option" where
  "or_undefined x = (case x of None \<Rightarrow> None | Some s \<Rightarrow> if s = [] then None else Some s)"

text \<open>A value of a reply that goes into a column declared \<open>NOT NULL\<close>.\<close>

definition not_null :: "string option \<Rightarrow> string io" where
  "not_null x = (case x of
     None \<Rightarrow> refuse (PgError ''23502'' ''null value violates not-null constraint'')
   | Some s \<Rightarrow> ret s)"

section \<open>Onboarding and derivation\<close>

definition onBoardOrganization :: "string \<Rightarrow> (string \<times> string) io" where
  "onBoardOrganization orgId =
     andThen (seed_findByOrgId orgId) (\<lambda>existing.
     if existing \<noteq> None then throw (JsError ''organization already onboarded'')
     else andThen crypto_createWallet (\<lambda>c.
     andThen (not_null (cw_encryptedSeed c)) (\<lambda>encryptedSeed.
     andThen (not_null (cw_seedNonce c)) (\<lambda>seedNonce.
     andThen (not_null (cw_encryptedDek c)) (\<lambda>encryptedDek.
     andThen (seed_create orgId encryptedSeed seedNonce encryptedDek) (\<lambda>_.
     andThen (not_null (cw_firstAddress c)) (\<lambda>firstAddress.
     andThen (wallet_create orgId None None firstAddress ''m/44'/60'/0'/0/0'' 1) (\<lambda>_.
     andThen (audit_create orgId None None ''org_onboarded'' ''success'' None) (\<lambda>_.
     ret (orgId, firstAddress))))))))))"

text \<open>The body of the \<open>try\<close> in the loop of \<open>deriveWallet\<close>.\<close>

definition insertDerived :: "string \<Rightarrow> string option \<Rightarrow> string \<Rightarrow> int \<Rightarrow> derive_wallet_response \<Rightarrow>
    (string \<times> string) io" where
  "insertDerived orgId userId label chainId d =
     andThen (not_null (dw_address d)) (\<lambda>address.
     andThen (not_null (dw_derivationPath d)) (\<lambda>derivationPath.
     andThen (wallet_create orgId userId (Some label) address derivationPath chainId) (\<lambda>wallet.
     andThen (audit_create orgId userId (Some (wl_id wallet)) ''wallet_created'' ''success'' None) (\<lambda>_.
     ret (wl_id wallet, address)))))"

definition derive_conflict :: js_error where
  "derive_conflict = ConflictException
     ''Wallet derivation conflicted with a concurrent request - please retry''"

text \<open>The first argument is the number of attempts left.\<close>

fun deriveLoop :: "nat \<Rightarrow> string \<Rightarrow> string option \<Rightarrow> string \<Rightarrow> int \<Rightarrow> organization_seed \<Rightarrow> int \<Rightarrow>
    (string \<times> string) io" where
  "deriveLoop 0 orgId userId label chainId seedRow derivIndex =
     throw (ConflictException ''Wallet derivation failed'')"
| "deriveLoop (Suc n) orgId userId label chainId seedRow derivIndex =
     andThen (crypto_deriveWallet seedRow derivIndex) (\<lambda>d.
     catch (insertDerived orgId userId label chainId d) (\<lambda>err.
       if \<not> is_unique_violation err then throw err
       else if n = 0 then throw derive_conflict
       else andThen (wallet_countByOrgId orgId)
              (deriveLoop n orgId userId label chainId seedRow)))"

definition checkUser :: "string \<Rightarrow> string option \<Rightarrow> unit io" where
  "checkUser orgId userId = (case userId of None \<Rightarrow> ret ()
   | Some u \<Rightarrow> if u = [] then ret ()
       else andThen (user_findById u) (\<lambda>found. case found of
           None \<Rightarrow> throw (NotFoundException (''User with id '' @ quoted u @ '' does not exist''))
         | Some user \<Rightarrow> if u_org_id user \<noteq> orgId
             then throw (BadRequestException (''User '' @ quoted u
                    @ '' does not belong to organization '' @ quoted orgId))
             else ret ()))"

definition deriveWallet :: "string \<Rightarrow> string option \<Rightarrow> string \<Rightarrow> int option \<Rightarrow> (string \<times> string) io" where
  "deriveWallet orgId userId label chainId =
     andThen (seed_findByOrgId orgId) (\<lambda>found. case found of
       None \<Rightarrow> throw (BadRequestException ''organization has not been onboarded'')
     | Some seedRow \<Rightarrow>
         andThen (checkUser orgId userId) (\<lambda>_.
         andThen (wallet_countByOrgId orgId) (\<lambda>derivIndex.
           deriveLoop 3 orgId userId label (case chainId of None \<Rightarrow> 1 | Some c \<Rightarrow> c)
             seedRow derivIndex)))"

section \<open>Queries\<close>

record wallet_view =
  wv_id :: string
  wv_orgId :: string
  wv_userId :: "string option"
  wv_label :: "string option"
  wv_address :: string
  wv_chainId :: int
  wv_status :: string
  wv_createdAt :: int

definition wallet_view_of :: "wallet \<Rightarrow> wallet_view" where
  "wallet_view_of w = \<lparr>wv_id = wl_id w, wv_orgId = wl_org_id w, wv_userId = wl_user_id w,
     wv_label = wl_label w, wv_address = wl_address w, wv_chainId = wl_chain_id w,
     wv_status = wl_status w, wv_createdAt = wl_created_at w\<rparr>"

definition listWalletsByOrgId :: "string \<Rightarrow> wallet_view list io" where
  "listWalletsByOrgId orgId = andThen (wallet_findByOrgId orgId) (\<lambda>ws. ret (map wallet_view_of ws))"

text \<open>The check that the queries on one wallet share.\<close>

definition ownWallet :: "string \<Rightarrow> string \<Rightarrow> wallet io" where
  "ownWallet walletId orgId = andThen (wallet_findById walletId) (\<lambda>found. case found of
     None \<Rightarrow> throw (NotFoundException (''Wallet with id '' @ quoted walletId @ '' does not exist''))
   | Some w \<Rightarrow> if wl_org_id w \<noteq> orgId
       then throw (BadRequestException ''Wallet does not belong to this org'') else ret w)"

definition getWalletById :: "string \<Rightarrow> string \<Rightarrow> wallet_view io" where
  "getWalletById walletId orgId = andThen (ownWallet walletId orgId) (\<lambda>w. ret (wallet_view_of w))"

record signing_request_view =
  sv_id :: string
  sv_orgId :: string
  sv_walletId :: string
  sv_chainId :: int
  sv_txHash :: string
  sv_txPayload :: "tx_fields option"
  sv_signature :: string
  sv_status :: string
  sv_failureReason :: "string option"
  sv_errorType :: "string option"
  sv_policyResult :: "json option"
  sv_blockNumber :: "int option"
  sv_gasUsed :: "string option"
  sv_effectiveGasPrice :: "string option"
  sv_idempotencyKey :: "string option"
  sv_createdAt :: int
  sv_signedAt :: "int option"
  sv_broadcastedAt :: "int option"
  sv_confirmedAt :: "int option"

definition mapSigningRequest :: "signing_request \<Rightarrow> signing_request_view" where
  "mapSigningRequest r = \<lparr>sv_id = sr_id r, sv_orgId = sr_org_id r, sv_walletId = sr_wallet_id r,
     sv_chainId = sr_chain_id r, sv_txHash = or_empty (sr_tx_hash r),
     sv_txPayload = sr_tx_payload r, sv_signature = or_empty (sr_signature r),
     sv_status = sr_status r, sv_failureReason = or_undefined (sr_failure_reason r),
     sv_errorType = or_undefined (sr_error_type r), sv_policyResult = sr_policy_result r,
     sv_blockNumber = sr_block_number r, sv_gasUsed = sr_gas_used r,
     sv_effectiveGasPrice = sr_effective_gas_price r, sv_idempotencyKey = sr_idempotency_key r,
     sv_createdAt = sr_created_at r, sv_signedAt = sr_signed_at r,
     sv_broadcastedAt = sr_broadcasted_at r, sv_confirmedAt = sr_confirmed_at r\<rparr>"

definition listSigningRequestsByOrgId :: "string \<Rightarrow> signing_request_view list io" where
  "listSigningRequestsByOrgId orgId =
     andThen (sr_findByOrgId orgId) (\<lambda>rs. ret (map mapSigningRequest rs))"

definition listSigningRequestsByWalletId :: "string \<Rightarrow> string \<Rightarrow> signing_request_view list io" where
  "listSigningRequestsByWalletId walletId orgId = andThen (ownWallet walletId orgId) (\<lambda>_.
     andThen (sr_findByWalletId walletId) (\<lambda>rs. ret (map mapSigningRequest rs)))"

definition getSigningRequestById :: "string \<Rightarrow> string \<Rightarrow> string \<Rightarrow> signing_request_view io" where
  "getSigningRequestById orgId walletId requestId =
     andThen (ownWallet walletId orgId) (\<lambda>_.
     andThen (sr_findById requestId) (\<lambda>found. case found of
       None \<Rightarrow> throw (NotFoundException
                (''Signing request with id '' @ quoted requestId @ '' does not exist''))
     | Some r \<Rightarrow> if sr_wallet_id r \<noteq> walletId
         then throw (BadRequestException ''Signing request does not belong to this wallet'')
         else ret (mapSigningRequest r)))"

section \<open>requestSign\<close>

definition computeIdempotencyKey :: "ext \<Rightarrow> string \<Rightarrow> sign_request \<Rightarrow> string" where
  "computeIdempotencyKey X walletId req = sha256hex X (walletId @ '':'' @ show_int (req_chainId req)
     @ '':'' @ req_to req @ '':'' @ req_value req @ '':'' @ req_data req)"

definition buildSignResultFromRequest :: "signing_request \<Rightarrow> sign_result" where
  "buildSignResultFromRequest r = \<lparr>res_signingRequestId = sr_id r,
     res_txHash = Some (or_empty (sr_tx_hash r)), res_status = sr_status r,
     res_nonce = (case sr_tx_payload r of None \<Rightarrow> 0 | Some p \<Rightarrow> tx_nonce p),
     res_idempotencyKey = sr_idempotency_key r, res_errorType = sr_error_type r,
     res_errorMessage = or_undefined (sr_failure_reason r)\<rparr>"

definition loadPrerequisites :: "string \<Rightarrow> string \<Rightarrow> (organization_seed \<times> wallet) io" where
  "loadPrerequisites orgId walletId =
     andThen (both (seed_findByOrgId orgId) (wallet_findById walletId)) (\<lambda>(seedRow, wallet).
     case seedRow of None \<Rightarrow> throw (BadRequestException ''Org has not been onboarded'')
     | Some s \<Rightarrow> (case wallet of
         None \<Rightarrow> throw (NotFoundException (''Wallet '' @ quoted walletId @ '' not found''))
       | Some w \<Rightarrow> if wl_org_id w \<noteq> orgId
           then throw (BadRequestException ''Wallet does not belong to this org'')
           else ret (s, w)))"

definition policy_payload :: "ext \<Rightarrow> sign_request \<Rightarrow> tx_payload" where
  "policy_payload X req = \<lparr>pl_to = req_to req, pl_value = req_value req,
     pl_chainId = req_chainId req, pl_dataHash = Some (sha256hex X (req_data req)),
     pl_dataLength = Some (int (length (req_data req))),
     pl_dataSelector = (if 10 \<le> length (req_data req)
       then Some (toLowerCase (take 10 (req_data req))) else None)\<rparr>"

text \<open>
  Step 5: the row of this request.  \<open>Inl\<close> is the early return of a duplicate's result,
  \<open>Inr\<close> the row to go on with, a new one or the failed one of an earlier attempt.
\<close>

definition claimRequest :: "string \<Rightarrow> string \<Rightarrow> sign_request \<Rightarrow> string \<Rightarrow> (sign_result + string) io" where
  "claimRequest orgId walletId req key =
     catch (andThen (sr_create orgId walletId (req_chainId req) ''pending'' key)
              (\<lambda>r. ret (Inr (sr_id r))))
       (\<lambda>err. if \<not> is_unique_violation err then throw err
        else andThen (sr_findByIdempotencyKey key) (\<lambda>raced. case raced of
            None \<Rightarrow> throw err
          | Some r \<Rightarrow>
              if sr_status r \<noteq> ''failed'' then ret (Inl (buildSignResultFromRequest r))
              else andThen (sr_update (sr_id r) (no_fields\<lparr>f_status := Val ''pending'',
                       f_tx_payload := Undefined, f_tx_hash := Undefined,
                       f_signature := Undefined, f_failure_reason := Undefined,
                       f_error_type := Undefined\<rparr>))
                     (\<lambda>_. ret (Inr (sr_id r)))))"

definition failed_fields :: "string \<Rightarrow> string \<Rightarrow> sr_fields" where
  "failed_fields reason errorType = no_fields\<lparr>f_status := Val ''failed'',
     f_failure_reason := Val reason, f_error_type := Val errorType\<rparr>"

definition http_failure :: "string \<Rightarrow> error_type \<Rightarrow> js_error" where
  "http_failure what errorType = HttpException (if errorType = Permanent then 400 else 500)
     (what @ '' failed ('' @ error_type_text errorType @ '')'')"

definition signOrFail :: "organization_seed \<Rightarrow> wallet \<Rightarrow> tx_fields \<Rightarrow> string \<Rightarrow>
    sign_transaction_result io" where
  "signOrFail seedRow wallet tx requestId =
     catch (crypto_signTransaction seedRow (wl_derivation_path wallet) tx)
       (\<lambda>err. andThen (sr_update requestId
                (failed_fields (error_message err) (error_type_text (classifyError err)))) (\<lambda>_.
        andThen (releaseNonce (wl_id wallet) (tx_chainId tx) (tx_nonce tx)) (\<lambda>_.
        throw (http_failure ''Transaction signing'' (classifyError err)))))"

text \<open>
  Step 9.  The synchronisation is started and not waited for; it runs here before the
  exception leaves, and what becomes of it is not seen by the caller.
\<close>

definition broadcastOrFail :: "wallet \<Rightarrow> int \<Rightarrow> sign_transaction_result \<Rightarrow> string \<Rightarrow> unit io" where
  "broadcastOrFail wallet chainId signed requestId =
     catch (andThen (broadcastTransaction (st_rawTx signed) chainId) (\<lambda>_.
            andThen now (\<lambda>t. sr_update requestId
              (no_fields\<lparr>f_status := Val ''broadcasted'', f_broadcasted_at := Val t\<rparr>))))
       (\<lambda>err. andThen (sr_update requestId
                (failed_fields (''broadcast failed: '' @ error_message err)
                   (error_type_text (classifyError err)))) (\<lambda>_.
        andThen (attempt (syncNonce (wl_id wallet) chainId (wl_address wallet))) (\<lambda>_.
        throw (http_failure ''Transaction broadcast'' (classifyError err)))))"

definition tx_fields_of :: "sign_request \<Rightarrow> fee_estimate \<Rightarrow> int \<Rightarrow> tx_fields" where
  "tx_fields_of req fees n = \<lparr>tx_chainId = req_chainId req, tx_nonce = n, tx_to = req_to req,
     tx_value = req_value req, tx_gasLimit = fe_gasLimit fees,
     tx_maxFeePerGas = fe_maxFeePerGas fees,
     tx_maxPriorityFeePerGas = fe_maxPriorityFeePerGas fees, tx_data = req_data req\<rparr>"

definition opt_field :: "'a option \<Rightarrow> 'a field" where
  "opt_field x = (case x of None \<Rightarrow> Undefined | Some v \<Rightarrow> Val v)"

definition signed_fields :: "sign_transaction_result \<Rightarrow> int \<Rightarrow> sr_fields" where
  "signed_fields signed t = no_fields\<lparr>f_tx_hash := opt_field (st_txHash signed),
     f_signature := opt_field (st_signature signed), f_status := Val ''signed'',
     f_signed_at := Val t\<rparr>"

definition signAndSend :: "string \<Rightarrow> organization_seed \<Rightarrow> wallet \<Rightarrow> sign_request \<Rightarrow> fee_estimate \<Rightarrow>
    string \<Rightarrow> string \<Rightarrow> sign_result io" where
  "signAndSend orgId seedRow wallet req fees key requestId =
     andThen (reserveNonce (wl_id wallet) (req_chainId req)) (\<lambda>n.
     andThen (sr_update requestId (no_fields\<lparr>f_tx_payload := Val (tx_fields_of req fees n)\<rparr>)) (\<lambda>_.
     andThen (signOrFail seedRow wallet (tx_fields_of req fees n) requestId) (\<lambda>signed.
     andThen now (\<lambda>t.
     andThen (sr_update requestId (signed_fields signed t)) (\<lambda>_.
     andThen (broadcastOrFail wallet (req_chainId req) signed requestId) (\<lambda>_.
     andThen (audit_create orgId None (Some (wl_id wallet)) ''tx_signed'' ''broadcasted''
        (Some (JObj (json_opt ''txHash'' JStr (st_txHash signed)
           @ [(''signingRequestId'', JStr requestId), (''chainId'', JNum (req_chainId req))])))) (\<lambda>_.
     ret \<lparr>res_signingRequestId = requestId, res_txHash = st_txHash signed,
       res_status = ''broadcasted'', res_nonce = n, res_idempotencyKey = Some key,
       res_errorType = None, res_errorMessage = None\<rparr>)))))))"

text \<open>Steps 3 to 11, once the request is known to be no duplicate.\<close>

definition authorizeAndSign :: "ext \<Rightarrow> string \<Rightarrow> organization_seed \<Rightarrow> wallet \<Rightarrow> sign_request \<Rightarrow>
    string \<Rightarrow> sign_result io" where
  "authorizeAndSign X orgId seedRow wallet req key =
     andThen (evaluate X orgId (wl_id wallet) (policy_payload X req)) (\<lambda>v. case v of
       Deny reason \<Rightarrow> throw (ForbiddenException (''Policy denied: '' @ reason))
     | Allow \<Rightarrow>
         andThen (estimateFees (req_to req) (req_value req) (req_data req) (req_chainId req)
            (Some (wl_address wallet))) (\<lambda>fees.
         andThen (claimRequest orgId (wl_id wallet) req key) (\<lambda>claim. case claim of
           Inl res \<Rightarrow> ret res
         | Inr requestId \<Rightarrow> signAndSend orgId seedRow wallet req fees key requestId)))"

definition requestSign :: "ext \<Rightarrow> string \<Rightarrow> string \<Rightarrow> sign_request \<Rightarrow> sign_result io" where
  "requestSign X orgId walletId req =
     andThen (loadPrerequisites orgId walletId) (\<lambda>(seedRow, wallet).
     let key = computeIdempotencyKey X walletId req in
     andThen (sr_findByIdempotencyKey key) (\<lambda>existing.
       case existing of
         Some r \<Rightarrow> if sr_status r \<noteq> ''failed'' then ret (buildSignResultFromRequest r)
                   else authorizeAndSign X orgId seedRow wallet req key
       | None \<Rightarrow> authorizeAndSign X orgId seedRow wallet req key))"

end
