(* ===== verification/WalletSigning.thy ===== *)
theory WalletSigning
  imports WalletService
begin

text \<open>
  What \<open>requestSign\<close> guarantees: it obeys the policies, it is idempotent, the signer sees
  only what was asked and only keys of the organization, and each way it can fail leaves
  the row of the request and the nonce counter in a definite state.
\<close>

section \<open>Interference\<close>

lemma loadPrerequisites_env [preserves_intros]:
  "preserves (silent rs) (loadPrerequisites orgId walletId)"
  "preserves quiet (loadPrerequisites orgId walletId)"
  "preserves (same_env w0) (loadPrerequisites orgId walletId)"
  "preserves (stable J) (loadPrerequisites orgId walletId)"
  unfolding loadPrerequisites_def seed_findByOrgId_def wallet_findById_def
  by (intro preserves_intros)+

lemma both_returns:
  assumes "both m k w = (Inr (x, y), w')"
  obtains w1 where "m w = (Inr x, w1)" and "k w1 = (Inr y, w')"
  using assms by (auto simp: run_defs split: prod.splits sum.splits)

lemma query_returns:
  "query f w = (Inr x, w') \<Longrightarrow> x = f (w_sched w (w_stmts w) (w_db w))"
  by (auto simp: query_def stmt_def Let_def split: option.splits)

text \<open>
  The seed and the wallet that \<open>both\<close> queries of a call find: rows of the database at the two
  first statements, of the organization the request is made for.
\<close>

definition own_rows :: "world \<Rightarrow> string \<Rightarrow> string \<Rightarrow> organization_seed \<Rightarrow> wallet \<Rightarrow> bool" where
  "own_rows w orgId walletId s v \<longleftrightarrow>
     s \<in> set (organization_seeds (w_sched w (w_stmts w) (w_db w))) \<and> sd_org_id s = orgId \<and>
     v \<in> set (wallets (w_sched w (Suc (w_stmts w)) (w_sched w (w_stmts w) (w_db w)))) \<and>
     wl_id v = walletId \<and> wl_org_id v = orgId"

lemma both_rows:
  assumes "both (seed_findByOrgId orgId) (wallet_findById walletId) w = (Inr (Some s, Some v), w1)"
    and "wl_org_id v = orgId"
  shows "own_rows w orgId walletId s v"
proof -
  from assms(1) obtain w2 where q: "seed_findByOrgId orgId w = (Inr (Some s), w2)"
    "wallet_findById walletId w2 = (Inr (Some v), w1)" by (rule both_returns)
  note st = query_outcome [OF q(1) [unfolded seed_findByOrgId_def]]
  have "find_row (\<lambda>r. sd_org_id r = orgId) (organization_seeds (w_sched w (w_stmts w) (w_db w))) = Some s"
    using st by simp
  moreover have "find_row (\<lambda>r. wl_id r = walletId)
      (wallets (w_sched w (Suc (w_stmts w)) (w_sched w (w_stmts w) (w_db w)))) = Some v"
    using query_outcome [OF q(2) [unfolded wallet_findById_def]] st by simp
  ultimately show ?thesis using assms(2) by (auto simp: own_rows_def dest!: find_row_Some)
qed

lemma loadPrerequisites_rows:
  assumes "loadPrerequisites orgId walletId w = (Inr (s, v), w')"
  shows "own_rows w orgId walletId s v"
proof -
  from assms obtain w1 where "both (seed_findByOrgId orgId) (wallet_findById walletId) w = (Inr (Some s, Some v), w1)"
    "wl_org_id v = orgId"
    unfolding loadPrerequisites_def
    by (elim andThen_returns) (auto simp: run_defs split: option.splits if_splits)
  then show ?thesis by (rule both_rows)
qed

lemma loadPrerequisites_returns:
  "loadPrerequisites orgId walletId w = (Inr (s, v), w') \<Longrightarrow> sd_org_id s = orgId \<and> wl_id v = walletId \<and> wl_org_id v = orgId"
  by (drule loadPrerequisites_rows) (simp add: own_rows_def)

lemma sr_query_env [preserves_intros]:
  "preserves (silent rs) (sr_findByIdempotencyKey k)" "preserves quiet (sr_findByIdempotencyKey k)"
  "preserves (same_env w0) (sr_findByIdempotencyKey k)"
  "preserves (stable J) (sr_findByIdempotencyKey k)"
  unfolding sr_findByIdempotencyKey_def by (intro preserves_intros)+

lemma sr_findByIdempotencyKey_returns:
  assumes "sr_findByIdempotencyKey k w = (Inr (Some r), w')"
  shows "r \<in> set (signing_requests (w_db w')) \<and> sr_idempotency_key r = Some k"
proof -
  note q = query_outcome [OF assms [unfolded sr_findByIdempotencyKey_def]]
  then have "find_row (\<lambda>r. sr_idempotency_key r = Some k) (signing_requests (w_db w')) = Some r" by simp
  then show ?thesis by (rule find_row_Some)
qed

text \<open>
  Where the policies refuse the transaction throughout, nothing is sent, and a result can
  only be that of an earlier request: of a row with the same key that has not failed, in the
  database as the last statement of the call saw it.
\<close>

definition replays :: "string \<Rightarrow> db \<Rightarrow> js_error + sign_result \<Rightarrow> bool" where
  "replays key d r \<longleftrightarrow> (case r of Inl e \<Rightarrow> True
     | Inr res \<Rightarrow> \<exists>row \<in> set (signing_requests d). sr_idempotency_key row = Some key \<and>
         sr_status row \<noteq> ''failed'' \<and> res = buildSignResultFromRequest row)"

lemma authorizeAndSign_refused:
  assumes "stable (refuses X orgId (wl_id v) (policy_payload X req)) w"
    and "authorizeAndSign X orgId s v req key w = (r, w')"
  shows "w_sent w' = w_sent w \<and> replays key (w_db w') r"
proof -
  obtain r1 w1 where e: "evaluate X orgId (wl_id v) (policy_payload X req) w = (r1, w1)"
    by fastforce
  then have sent: "w_sent w1 = w_sent w"
    using preserves_runD [OF evaluate_env(1) e, of "w_sent w"] by (simp add: silent_def)
  from e have "r1 \<noteq> Inr Allow" using refuses_not_allowed [OF assms(1)] by blast
  then have "w' = w1 \<and> (\<exists>e. r = Inl e)"
    using assms(2) e unfolding authorizeAndSign_def
    by (cases r1) (auto simp: andThen_def throw_run split: verdict.splits)
  with sent show ?thesis by (auto simp: replays_def)
qed

lemma requestSign_refused:
  assumes "stable (refuses X orgId walletId (policy_payload X req)) w"
    and "requestSign X orgId walletId req w = (r, w')"
  shows "w_sent w' = w_sent w \<and> replays (computeIdempotencyKey X walletId req) (w_db w') r"
proof -
  let ?J = "refuses X orgId walletId (policy_payload X req)"
  let ?key = "computeIdempotencyKey X walletId req"
  obtain r1 w1 where l: "loadPrerequisites orgId walletId w = (r1, w1)" by fastforce
  have w1: "w_sent w1 = w_sent w" "stable ?J w1"
    using preserves_runD [OF loadPrerequisites_env(1) l, of "w_sent w"]
      preserves_runD [OF loadPrerequisites_env(4) l assms(1)] by (simp_all add: silent_def)
  show ?thesis
  proof (cases r1)
    case (Inl e)
    with assms(2) l w1 show ?thesis by (auto simp: requestSign_def andThen_def replays_def)
  next
    case (Inr sv)
    obtain s v where sv: "sv = (s, v)" by fastforce
    have v: "wl_id v = walletId" using loadPrerequisites_returns l Inr sv by blast
    obtain r2 w2 where f: "sr_findByIdempotencyKey ?key w1 = (r2, w2)" by fastforce
    have w2: "w_sent w2 = w_sent w" "stable ?J w2"
      using preserves_runD [OF sr_query_env(1) f, of "w_sent w"] w1
        preserves_runD [OF sr_query_env(4) f w1(2)] by (simp_all add: silent_def)
    have run: "requestSign X orgId walletId req w = (case r2 of Inl e \<Rightarrow> (Inl e, w2)
        | Inr None \<Rightarrow> authorizeAndSign X orgId s v req ?key w2
        | Inr (Some row) \<Rightarrow> if sr_status row \<noteq> ''failed''
            then (Inr (buildSignResultFromRequest row), w2)
            else authorizeAndSign X orgId s v req ?key w2)"
      using l Inr sv f
      by (simp add: requestSign_def andThen_def Let_def ret_run split: sum.splits option.splits)
    have again: "w_sent w' = w_sent w \<and> replays ?key (w_db w') r"
      if "authorizeAndSign X orgId s v req ?key w2 = (r, w')"
      using authorizeAndSign_refused [OF _ that] w2 v by simp
    show ?thesis
    proof (cases r2)
      case (Inl e)
      with run assms(2) w2 show ?thesis by (auto simp: replays_def)
    next
      case found: (Inr x)
      show ?thesis
      proof (cases x)
        case None
        with found run assms(2) again show ?thesis by simp
      next
        case (Some row)
        with found f have "row \<in> set (signing_requests (w_db w2))" "sr_idempotency_key row = Some ?key"
          using sr_findByIdempotencyKey_returns by blast+
        with Some found run assms(2) w2(1) again show ?thesis
          by (cases "sr_status row = ''failed''") (auto simp: replays_def)
      qed
    qed
  qed
qed

section \<open>What is sent\<close>

text \<open>
  The requests of one call of \<open>requestSign\<close>: calls of the nodes, and requests to sign the
  transaction that was asked for under the seed \<open>s\<close> at the path of the wallet \<open>v\<close>.
\<close>

definition asked_of_signer :: "organization_seed \<Rightarrow> wallet \<Rightarrow> sign_request \<Rightarrow> http_request \<Rightarrow> bool" where
  "asked_of_signer s v req rq \<longleftrightarrow> (\<exists>(fees :: fee_estimate) n. is_crypto ''/wallet/sign-transaction''
     (sign_body s (wl_derivation_path v) (tx_fields_of req fees n)) rq)"

abbreviation "signing_budget s v req b k \<equiv>
  emits (rationed (\<lambda>rq. is_node_call rq \<or> asked_of_signer s v req rq) has_token b k)"

lemma node_call_no_token: "is_node_call rq \<Longrightarrow> \<not> has_token rq"
  by (simp add: has_token_def node_call_header)

lemma budget_node: "traffic is_node_call m b \<Longrightarrow> signing_budget s v req b k m"
  by (erule traffic_rationed) (auto dest: node_call_no_token)

lemma budget_silent:
  "(\<And>rs. preserves (silent rs) m) \<Longrightarrow> signing_budget s v req b k m"
  by (rule emits_silent) simp_all

lemma budget_sign:
  "signing_budget s v req 1 1 (crypto_signTransaction s (wl_derivation_path v) (tx_fields_of req fees n))"
  by (rule emits_mono [OF emits_crypto(3) [of s "wl_derivation_path v" "tx_fields_of req fees n"]])
    (auto simp: rationed_def list_all_iff asked_of_signer_def)

lemmas budget_then = emits_rationed_andThen [where S = has_token]
lemmas budget_catch = emits_rationed_catch [where S = has_token]

lemma reserveNonce_env [preserves_intros]:
  "preserves (silent rs) (reserveNonce i c)" "preserves quiet (reserveNonce i c)"
  "preserves (same_env w0) (reserveNonce i c)"
  "preserves (silent rs) (releaseNonce i c n)" "preserves quiet (releaseNonce i c n)"
  "preserves (same_env w0) (releaseNonce i c n)"
  unfolding reserveNonce_def releaseNonce_def nonce_reserve_def nonce_release_def
  by (intro preserves_intros)+

lemma budget_signOrFail:
  "signing_budget s v req 1 1 (signOrFail s v (tx_fields_of req fees n) i)"
  unfolding signOrFail_def
  by (rule budget_catch [OF budget_sign budget_silent [where b = 0 and k = 0]])
    (intro preserves_intros | simp)+

lemma budget_broadcastOrFail: "signing_budget s v req 30 0 (broadcastOrFail v c signed i)"
proof -
  have "traffic is_node_call (broadcastOrFail v c signed i) (15 + 15)"
    unfolding broadcastOrFail_def broadcastTransaction_def
    by (intro traffic_catch traffic_after_silent traffic_then_silent traffic_attempt traffic_node
        traffic_syncNonce preserves_intros)
  then show ?thesis using budget_node by fastforce
qed

lemma claimRequest_env [preserves_intros]:
  "preserves (silent rs) (claimRequest orgId walletId req key)"
  "preserves quiet (claimRequest orgId walletId req key)"
  "preserves (same_env w0) (claimRequest orgId walletId req key)"
  unfolding claimRequest_def sr_create_def by (intro preserves_intros)+

lemma budget_signAndSend:
  "signing_budget s v req 31 1 (signAndSend orgId s v req fees key i)"
  unfolding signAndSend_def
  by (rule rationed_after_silent, (intro preserves_intros),
      rule rationed_after_silent, (intro preserves_intros),
      rule budget_then [OF budget_signOrFail, where c = 30 and l = 0],
      rule rationed_after_silent, (intro preserves_intros),
      rule rationed_after_silent, (intro preserves_intros),
      rule budget_then [OF budget_broadcastOrFail, where c = 0 and l = 0],
      (intro budget_silent preserves_intros)) simp_all

lemma budget_authorizeAndSign:
  "signing_budget s v req 61 1 (authorizeAndSign X orgId s v req key)"
proof -
  have go: "signing_budget s v req 31 1 (case claim of Inl res \<Rightarrow> ret res
      | Inr i \<Rightarrow> signAndSend orgId s v req fees key i)" for claim fees
    using budget_signAndSend by (cases claim) (simp_all add: budget_silent preserves_ret)
  have "signing_budget s v req 61 1 (case verdict of
      Deny reason \<Rightarrow> throw (ForbiddenException (''Policy denied: '' @ reason))
    | Allow \<Rightarrow> andThen (estimateFees (req_to req) (req_value req) (req_data req) (req_chainId req)
        (Some (wl_address v))) (\<lambda>fees.
        andThen (claimRequest orgId (wl_id v) req key) (\<lambda>claim. case claim of
          Inl res \<Rightarrow> ret res
        | Inr i \<Rightarrow> signAndSend orgId s v req fees key i)))" for verdict
  proof (cases verdict)
    case Allow
    have "signing_budget s v req 31 1
        (andThen (claimRequest orgId (wl_id v) req key) (\<lambda>claim. case claim of
          Inl res \<Rightarrow> ret res | Inr i \<Rightarrow> signAndSend orgId s v req fees key i))" for fees
      by (intro rationed_after_silent go preserves_intros)
    with Allow show ?thesis
      by (simp, intro budget_then [OF budget_node [OF traffic_estimateFees]]) auto
  next
    case (Deny reason)
    then show ?thesis by (auto intro!: budget_silent preserves_intros)
  qed
  then show ?thesis
    unfolding authorizeAndSign_def
    by (intro rationed_after_silent preserves_intros)
qed

lemma requestSign_emits:
  assumes "requestSign X orgId walletId req w = (r, w')"
  shows "\<exists>rs. w_sent w' = w_sent w @ rs \<and> (rs \<noteq> [] \<longrightarrow> (\<exists>s v. own_rows w orgId walletId s v \<and>
    rationed (\<lambda>rq. is_node_call rq \<or> asked_of_signer s v req rq) has_token 61 1 rs))"
proof -
  let ?key = "computeIdempotencyKey X walletId req"
  obtain l w1 where l: "loadPrerequisites orgId walletId w = (l, w1)" by fastforce
  have w1: "w_sent w1 = w_sent w"
    using preserves_runD [OF loadPrerequisites_env(1) l, of "w_sent w"] by (simp add: silent_def)
  show ?thesis
  proof (cases l)
    case (Inl e)
    with l w1 assms show ?thesis by (auto simp: requestSign_def andThen_def)
  next
    case (Inr sv)
    obtain s v where sv: "sv = (s, v)" by fastforce
    have "signing_budget s v req 61 1 (andThen (sr_findByIdempotencyKey ?key) (\<lambda>existing. case existing of
           Some r \<Rightarrow> if sr_status r \<noteq> ''failed'' then ret (buildSignResultFromRequest r)
                     else authorizeAndSign X orgId s v req ?key
         | None \<Rightarrow> authorizeAndSign X orgId s v req ?key))"
      by (rule rationed_after_silent, rule sr_query_env,
          simp add: budget_authorizeAndSign [unfolded One_nat_def] budget_silent preserves_ret split: option.split)
    moreover have "andThen (sr_findByIdempotencyKey ?key) (\<lambda>existing. case existing of
           Some r \<Rightarrow> if sr_status r \<noteq> ''failed'' then ret (buildSignResultFromRequest r)
                     else authorizeAndSign X orgId s v req ?key
         | None \<Rightarrow> authorizeAndSign X orgId s v req ?key) w1 = (r, w')"
      using assms l Inr sv by (simp add: requestSign_def andThen_Inr Let_def)
    ultimately obtain rs where "w_sent w' = w_sent w1 @ rs"
      "rationed (\<lambda>rq. is_node_call rq \<or> asked_of_signer s v req rq) has_token 61 1 rs" by (rule emits_run)
    moreover have "own_rows w orgId walletId s v" using loadPrerequisites_rows l Inr sv by simp
    ultimately show ?thesis using w1 by auto
  qed
qed

section \<open>Keys stay unique\<close>

definition requests_unique :: "db \<Rightarrow> bool" where
  "requests_unique d \<longleftrightarrow> sorted_wrt (\<lambda>a b. \<not> signing_request_conflict a b) (signing_requests d)"

lemma requests_unique_insert:
  assumes "requests_unique d" and "insert_row signing_request_conflict r (signing_requests d) = Inr rs"
  shows "requests_unique (signing_requests_update (\<lambda>_. rs) d)"
  using assms by (auto simp: requests_unique_def insert_row_Inr sorted_wrt_append)

lemma requests_unique_update:
  "requests_unique (signing_requests_update (map_row p (sr_set f blk)) d) = requests_unique d"
proof -
  let ?k = "\<lambda>r. (sr_id r, sr_idempotency_key r)"
  let ?R = "\<lambda>(i, x) (j, y). \<not> (i = j \<or> (x \<noteq> None \<and> x = y))"
  have "signing_request_conflict a b = (\<not> ?R (?k a) (?k b))" for a b
    by (simp add: signing_request_conflict_def)
  then have "sorted_wrt (\<lambda>a b. \<not> signing_request_conflict a b) rs = sorted_wrt ?R (map ?k rs)"
    for rs by (simp add: sorted_wrt_map)
  moreover have "map ?k (map_row p (sr_set f blk) rs) = map ?k rs" for rs
    by (rule map_map_row) simp
  ultimately show ?thesis by (simp add: requests_unique_def)
qed

lemma requests_unique_other [simp]:
  "requests_unique (audit_log_update g d) = requests_unique d"
  "requests_unique (wallet_nonces_update h d) = requests_unique d"
  by (simp_all add: requests_unique_def)

lemma stable_nonces:
  assumes "\<And>d h. J (wallet_nonces_update h d) = J d"
  shows "preserves (stable J) (nonce_reserve i c)" "preserves (stable J) (nonce_release i c n)"
    "preserves (stable J) (nonce_syncFromChain i c x)"
proof -
  have J: "J (d\<lparr>wallet_nonces := m\<rparr>) = J d" for d m using assms by simp
  show "preserves (stable J) (nonce_reserve i c)" "preserves (stable J) (nonce_release i c n)"
    "preserves (stable J) (nonce_syncFromChain i c x)"
    unfolding nonce_reserve_def nonce_release_def nonce_syncFromChain_def
    by (intro stable_stmt; auto simp: J split: sum.splits prod.splits)+
qed

lemma stable_getRpcUrls [preserves_intros]: "preserves (stable J) (getRpcUrls c)"
  by (rule preserves_getRpcUrls)

lemma stable_rpc [preserves_intros]: "preserves (stable J) (rpcCallWithRetry meth params c)"
  by (rule rpc_preserves) (rule stable_fetch)

lemma same_env_rpc [preserves_intros]: "preserves (same_env w0) (rpcCallWithRetry meth params c)"
  by (rule rpc_preserves) (rule same_env_fetch)

lemma estimateFees_same_env [preserves_intros]: "preserves (same_env w0) (estimateFees to v d c from)"
  unfolding estimateFees_def estimateGas_def fetchFeeData_def by (intro preserves_intros)

lemma stable_estimateFees [preserves_intros]: "preserves (stable J) (estimateFees to v d c from)"
  unfolding estimateFees_def estimateGas_def fetchFeeData_def by (intro preserves_intros)

text \<open>
  An invariant of the rows of the requests: kept by what other requests do, it is kept by
  \<open>requestSign\<close>, at every interleaving and at every failure.
\<close>

locale request_invariant =
  fixes J :: "db \<Rightarrow> bool"
  assumes insert_keeps: "J d \<Longrightarrow> insert_row signing_request_conflict r (signing_requests d) = Inr rs \<Longrightarrow>
      J (signing_requests_update (\<lambda>_. rs) d)"
    and update_keeps: "J d \<Longrightarrow> J (signing_requests_update (map_row p (sr_set f blk)) d)"
    and audit_keeps: "J (audit_log_update g d) = J d"
    and nonces_keep: "J (wallet_nonces_update h d) = J d"
begin

lemma update_stable: "preserves (stable J) (sr_update i f)"
  by (rule stable_sr_update) (rule update_keeps)

lemma create_stable: "preserves (stable J) (sr_create orgId walletId c st key)"
  unfolding sr_create_def by (rule stable_create_row) (rule insert_keeps)

lemma audit_stable: "preserves (stable J) (audit_create a b c e s m)"
  by (rule stable_audit) (rule audit_keeps)

lemma evaluate_stable: "preserves (stable J) (evaluate X a b tx)"
  by (rule stable_evaluate) (simp only: audit_keeps)

lemma nonces_stable: "preserves (stable J) (reserveNonce i c)" "preserves (stable J) (releaseNonce i c n)"
    "preserves (stable J) (syncNonce i c a)"
  unfolding reserveNonce_def releaseNonce_def syncNonce_def Let_def
  by (intro preserves_intros stable_nonces nonces_keep)+

lemmas steps_stable = update_stable create_stable audit_stable evaluate_stable nonces_stable

lemma signAndSend_stable: "preserves (stable J) (signAndSend orgId s v req fees key i)"
  unfolding signAndSend_def signOrFail_def broadcastOrFail_def broadcastTransaction_def
  by (intro preserves_intros steps_stable)

lemma claimRequest_stable: "preserves (stable J) (claimRequest orgId walletId req key)"
  unfolding claimRequest_def by (intro preserves_intros steps_stable)

lemma authorizeAndSign_stable: "preserves (stable J) (authorizeAndSign X orgId s v req key)"
  unfolding authorizeAndSign_def
  by (intro preserves_intros steps_stable claimRequest_stable signAndSend_stable)

lemma requestSign_stable: "preserves (stable J) (requestSign X orgId walletId req)"
  unfolding requestSign_def Let_def
  by (intro preserves_intros authorizeAndSign_stable)

end

interpretation unique_requests: request_invariant requests_unique
  by unfold_locales
    (auto intro: requests_unique_insert simp: requests_unique_update requests_unique_other)

section \<open>Properties\<close>

text \<open>A small database for the examples: one organization with a seed and a wallet.\<close>

definition sample_seed :: organization_seed where
  "sample_seed = \<lparr>sd_id = ''s1'', sd_org_id = ''org'', sd_encrypted_seed = ''seed'',
     sd_seed_nonce = ''iv'', sd_encrypted_dek = ''dek'', sd_created_at = 0\<rparr>"

definition sample_wallet :: wallet where
  "sample_wallet = \<lparr>wl_id = ''w'', wl_org_id = ''org'', wl_user_id = None, wl_label = None,
     wl_address = ''0xaddr'', wl_derivation_path = ''m/0'', wl_chain_id = 1,
     wl_status = ''active'', wl_created_at = 0, wl_updated_at = 0\<rparr>"

definition sample_db :: "policy list \<Rightarrow> signing_request list \<Rightarrow> db" where
  "sample_db ps rs = empty_db\<lparr>organization_seeds := [sample_seed], wallets := [sample_wallet],
     policies := ps, signing_requests := rs\<rparr>"

definition sample_request :: sign_request where
  "sample_request = \<lparr>req_chainId = 1, req_to = ''0xto'', req_value = ''5'', req_data = ''0x''\<rparr>"

text \<open>
  C1. Signing obeys the policies.  As long as no policy applies to the wallet, or one that
  applies does not allow the transaction at any time, \<open>requestSign\<close> sends nothing to
  anybody, neither to the signer nor to a node, whatever runs beside it and whatever
  fails; it throws, or hands out the result of an earlier request: of a row with the same key that
  is in the database when the call ends and has not failed.
\<close>

theorem policy_gates_signing:
  assumes "stable (refuses X orgId walletId (policy_payload X req)) w"
    and "requestSign X orgId walletId req w = (r, w')"
  shows "w_sent w' = w_sent w \<and> (case r of Inl e \<Rightarrow> True
    | Inr res \<Rightarrow> \<exists>row \<in> set (signing_requests (w_db w')). sr_idempotency_key row = Some (computeIdempotencyKey X walletId req) \<and>
        sr_status row \<noteq> ''failed'' \<and> res = buildSignResultFromRequest row)"
  using requestSign_refused [OF assms] by (simp add: replays_def)

theorem policy_gates_signing_witness:
  "\<exists>e w'. requestSign sample_ext ''org'' ''w'' sample_request
     (calm_world (sample_db [] []) (\<lambda>_ _. NetError ''down'') Map.empty 0) = (Inl e, w') \<and> w_sent w' = []"
proof -
  let ?w = "calm_world (sample_db [] []) (\<lambda>_ _. NetError ''down'') Map.empty 0"
  obtain r w' where run: "requestSign sample_ext ''org'' ''w'' sample_request ?w = (r, w')"
    by fastforce
  have "stable (refuses sample_ext ''org'' ''w'' (policy_payload sample_ext sample_request)) ?w"
    by (simp add: stable_def calm_world_def sample_db_def empty_db_def refuses_def applicable_def
        select_policies_def)
  note sent = policy_gates_signing [OF this run]
  have "isl (fst (requestSign sample_ext ''org'' ''w'' sample_request ?w))"
    by code_simp
  with run sent show ?thesis by (cases r) (auto simp: calm_world_def)
qed

text \<open>
  C3. The signer sees only what was asked for.  One call sends at most 61 requests; all but
  at most one are calls of a node, which do not carry the token of the signer, and that
  one asks for a signature of the transaction of the caller (recipient, value, data and
  chain), with the encrypted seed that is stored for the caller's organization and the derivation
  path of the stored wallet that was named, which is of that organization.
\<close>

theorem signer_sees_only_what_was_asked:
  "\<exists>rs. w_sent (snd (requestSign X orgId walletId req w)) = w_sent w @ rs \<and> length rs \<le> 61 \<and>
     length (filter has_token rs) \<le> 1 \<and>
     list_all (\<lambda>rq. (is_node_call rq \<and> \<not> has_token rq) \<or>
       (\<exists>s v. own_rows w orgId walletId s v \<and> asked_of_signer s v req rq)) rs"
proof -
  obtain r w' where run: "requestSign X orgId walletId req w = (r, w')" by fastforce
  from requestSign_emits [OF run] obtain rs where sent: "w_sent w' = w_sent w @ rs"
    and rs: "rs \<noteq> [] \<longrightarrow> (\<exists>s v. own_rows w orgId walletId s v \<and>
      rationed (\<lambda>rq. is_node_call rq \<or> asked_of_signer s v req rq) has_token 61 1 rs)" by blast
  show ?thesis
  proof (cases "rs = []")
    case True
    with run sent show ?thesis by (intro exI [of _ "[]"]) simp
  next
    case False
    with rs obtain s v where "own_rows w orgId walletId s v"
      "rationed (\<lambda>rq. is_node_call rq \<or> asked_of_signer s v req rq) has_token 61 1 rs" by blast
    with run sent show ?thesis
      by (intro exI [of _ rs]) (auto simp: rationed_def list_all_iff dest: node_call_no_token)
  qed
qed

text \<open>
  C16. Identifiers and idempotency keys of the requests stay unique: an invariant of the
  database that other requests keep is kept by \<open>requestSign\<close>, also when it throws.
\<close>

theorem idempotency_keys_stay_unique:
  assumes "stable requests_unique w" and "requestSign X orgId walletId req w = (r, w')"
  shows "stable requests_unique w' \<and> requests_unique (w_db w')"
  using preserves_runD [OF unique_requests.requestSign_stable assms(2,1)] by (simp add: stableD)

theorem idempotency_keys_stay_unique_witness:
  "requests_unique (w_db (snd (requestSign sample_ext ''org'' ''w'' sample_request
     (calm_world (sample_db [] []) (\<lambda>_ _. NetError ''down'') Map.empty 0))))"
proof -
  let ?w = "calm_world (sample_db [] []) (\<lambda>_ _. NetError ''down'') Map.empty 0"
  obtain r w' where run: "requestSign sample_ext ''org'' ''w'' sample_request ?w = (r, w')"
    by fastforce
  have "stable requests_unique ?w"
    by (simp add: stable_def calm_world_def requests_unique_def sample_db_def empty_db_def)
  from idempotency_keys_stay_unique [OF this run] run show ?thesis by simp
qed

end
