(* ===== verification/SigningRuns.thy ===== *)
theory SigningRuns
  imports WalletSigning
begin

text \<open>
  Complete runs of the signing pipeline in a world without interference: the success path,
  the replay of a known request, and what each failure leaves behind.
\<close>

section \<open>Runs of the parts in a quiet world\<close>

text \<open>The first provider of the chain answers the request well.\<close>

lemma rpc_first_provider:
  assumes "map_of (chains (w_env w)) c = Some ch" and "cc_rpcUrls ch = u # us"
    and "rpc_reply meth (w_net w (length (w_sent w)) (rpc_request u meth params)) = Inr res"
  shows "rpcCallWithRetry meth params c w =
    (Inr res, w\<lparr>w_sent := w_sent w @ [rpc_request u meth params]\<rparr>)"
proof -
  have "rpcOnce meth params u w = (Inr res, w\<lparr>w_sent := w_sent w @ [rpc_request u meth params]\<rparr>)"
    using assms(3) by (simp add: rpcOnce_def fetch_def run_defs)
  then have "tryProviders meth params (u # us) w =
      (Inr res, w\<lparr>w_sent := w_sent w @ [rpc_request u meth params]\<rparr>)"
    by (cases us) (simp_all add: catch_def)
  then have "rpcCall meth params c w = (Inr res, w\<lparr>w_sent := w_sent w @ [rpc_request u meth params]\<rparr>)"
    using assms(1,2) by (simp add: rpcCall_def andThen_def getRpcUrls_run)
  then show ?thesis
    using rpc.retry_stops [of meth params c w "Inr res" _ 2 None]
    by (simp add: rpcCallWithRetry_def numeral_3_eq_3 numeral_2_eq_2)
qed

lemma post_run:
  assumes "w_env w ''CRYPTO_SERVICE_URL'' = Some u" and "w_env w ''CRYPTO_AUTH_TOKEN'' = Some k"
  shows "post path body w = (crypto_reply path (w_net w (length (w_sent w)) (crypto_request u k path body)),
    w\<lparr>w_sent := w_sent w @ [crypto_request u k path body]\<rparr>)"
  using assms
  by (simp add: post_def crypto_onModuleInit_def getOrThrow_def config_get_def fetch_def run_defs)

lemma sign_run:
  fixes w :: world and s path tx
  assumes "w_env w ''CRYPTO_SERVICE_URL'' = Some u" and "w_env w ''CRYPTO_AUTH_TOKEN'' = Some k"
  defines "rq \<equiv> crypto_request u k ''/wallet/sign-transaction'' (sign_body s path tx)"
  shows "crypto_reply ''/wallet/sign-transaction'' (w_net w (length (w_sent w)) rq) = Inl e \<Longrightarrow>
      crypto_signTransaction s path tx w = (Inl e, w\<lparr>w_sent := w_sent w @ [rq]\<rparr>)"
    and "crypto_reply ''/wallet/sign-transaction'' (w_net w (length (w_sent w)) rq) = Inr j \<Longrightarrow>
      j \<noteq> JNull \<Longrightarrow> crypto_signTransaction s path tx w =
        (Inr \<lparr>st_signature = reply_prop ''signature'' j, st_txHash = reply_prop ''txHash'' j,
              st_rawTx = reply_prop ''rawTx'' j\<rparr>, w\<lparr>w_sent := w_sent w @ [rq]\<rparr>)"
  using post_run [OF assms(1,2)]
  by (simp_all add: crypto_signTransaction_def andThen_def not_null_reply_def ret_run rq_def)

text \<open>The row of a request and the counter of a wallet in the state of the database.\<close>

definition request_row :: "string \<Rightarrow> db \<Rightarrow> signing_request option" where
  "request_row i d = find_row (\<lambda>r. sr_id r = i) (signing_requests d)"

lemma request_row_update [simp]:
  "request_row i (signing_requests_update (map_row (\<lambda>r. sr_id r = i) (sr_set f blk)) d) =
     map_option (sr_set f blk) (request_row i d)"
  by (simp add: request_row_def find_row_map_row_same)

lemma request_row_other [simp]:
  "request_row i (audit_log_update g d) = request_row i d"
  "request_row i (wallet_nonces_update h d) = request_row i d"
  by (simp_all add: request_row_def)

lemma reserve_quiet:
  assumes "quiet w" and "reserve_nonce (wallet_nonces (w_db w)) (i, c) = Inr (n, m)"
  shows "reserveNonce i c w = (Inr n, (tick w)\<lparr>w_db := (w_db w)\<lparr>wallet_nonces := m\<rparr>\<rparr>)"
  using assms by (simp add: reserveNonce_def nonce_reserve_def stmt_quiet)

lemma release_quiet:
  assumes "quiet w"
  shows "releaseNonce i c n w = (Inr (fst (release_nonce (wallet_nonces (w_db w)) (i, c) n)),
    (tick w)\<lparr>w_db := (w_db w)\<lparr>wallet_nonces := snd (release_nonce (wallet_nonces (w_db w)) (i, c) n)\<rparr>\<rparr>)"
  using assms by (simp add: releaseNonce_def nonce_release_def stmt_quiet split: prod.splits)

lemma failed_fields_block [simp]: "f_block_number (failed_fields r t) = Undefined"
  by (simp add: failed_fields_def no_fields_def)

lemma sr_set_failed:
  "sr_set (failed_fields reason ty) Undefined r = r\<lparr>sr_status := ''failed'',
     sr_failure_reason := Some reason, sr_error_type := Some ty\<rparr>"
  by (simp add: sr_set_def failed_fields_def no_fields_def)

text \<open>A signer failure: the row is failed, the nonce given back, and nothing else is sent.\<close>

lemma signOrFail_fails:
  assumes "quiet w"
    and "crypto_signTransaction s (wl_derivation_path v) tx w = (Inl e, w\<lparr>w_sent := rs\<rparr>)"
  shows "signOrFail s v tx i w = (Inl (http_failure ''Transaction signing'' (classifyError e)),
    (tick (tick w))\<lparr>w_sent := rs, w_db := (w_db w)\<lparr>
       signing_requests := map_row (\<lambda>r. sr_id r = i) (\<lambda>r. r\<lparr>sr_status := ''failed'',
          sr_failure_reason := Some (error_message e),
          sr_error_type := Some (error_type_text (classifyError e))\<rparr>) (signing_requests (w_db w)),
       wallet_nonces := snd (release_nonce (wallet_nonces (w_db w)) (wl_id v, tx_chainId tx) (tx_nonce tx))\<rparr>\<rparr>)"
proof -
  have fields: "sr_set (failed_fields reason ty) Undefined = (\<lambda>r. r\<lparr>sr_status := ''failed'',
     sr_failure_reason := Some reason, sr_error_type := Some ty\<rparr>)" for reason ty
    by (rule ext) (rule sr_set_failed)
  show ?thesis
    using assms
    by (simp add: signOrFail_def catch_def andThen_def sr_update_quiet release_quiet throw_run fields
        tick_def)
qed

text \<open>Broadcasting through the first provider.\<close>

lemma broadcast_first_provider:
  assumes "quiet w" and "map_of (chains (w_env w)) c = Some ch" and "cc_rpcUrls ch = u # us"
    and "rpc_reply ''eth_sendRawTransaction'' (w_net w (length (w_sent w))
      (rpc_request u ''eth_sendRawTransaction'' [JStr raw])) = Inr res"
    and "st_rawTx signed = Some raw"
  shows "broadcastOrFail v c signed i w = (Inr (), (tick w)\<lparr>
     w_sent := w_sent w @ [rpc_request u ''eth_sendRawTransaction'' [JStr raw]],
     w_reads := Suc (w_reads w),
     w_db := signing_requests_update (map_row (\<lambda>r. sr_id r = i)
       (sr_set (no_fields\<lparr>f_status := Val ''broadcasted'',
          f_broadcasted_at := Val (w_clock w (w_reads w))\<rparr>) Undefined)) (w_db w)\<rparr>)"
proof -
  have "broadcastTransaction (st_rawTx signed) c w =
      (Inr res, w\<lparr>w_sent := w_sent w @ [rpc_request u ''eth_sendRawTransaction'' [JStr raw]]\<rparr>)"
    using rpc_first_provider [OF assms(2,3,4)] assms(5) by (simp add: broadcastTransaction_def)
  then show ?thesis
    using assms(1)
    by (simp add: broadcastOrFail_def catch_def andThen_def now_def sr_update_quiet no_fields_def
        tick_def)
qed

definition broadcasted_row :: "tx_fields \<Rightarrow> string \<Rightarrow> string \<Rightarrow> int \<Rightarrow> int \<Rightarrow> signing_request \<Rightarrow>
    signing_request" where
  "broadcasted_row tx hash sig t t' row = row\<lparr>sr_tx_payload := Some tx, sr_tx_hash := Some hash,
     sr_signature := Some sig, sr_status := ''broadcasted'', sr_signed_at := Some t,
     sr_broadcasted_at := Some t'\<rparr>"

lemma signAndSend_success:
  fixes w :: world and s u k v req fees n
  defines "tx \<equiv> tx_fields_of req fees n"
  defines "sign_rq \<equiv> crypto_request u k ''/wallet/sign-transaction'' (sign_body s (wl_derivation_path v) tx)"
  assumes "quiet w" and "w_env w ''CRYPTO_SERVICE_URL'' = Some u" and "w_env w ''CRYPTO_AUTH_TOKEN'' = Some k"
    and "reserve_nonce (wallet_nonces (w_db w)) (wl_id v, req_chainId req) = Inr (n, m)"
    and "crypto_reply ''/wallet/sign-transaction'' (w_net w (length (w_sent w)) sign_rq) = Inr j"
    and "reply_prop ''txHash'' j = Some hash" and "reply_prop ''signature'' j = Some sig"
    and "reply_prop ''rawTx'' j = Some raw"
    and "map_of (chains (w_env w)) (req_chainId req) = Some ch" and "cc_rpcUrls ch = p # ps"
    and "rpc_reply ''eth_sendRawTransaction'' (w_net w (Suc (length (w_sent w)))
      (rpc_request p ''eth_sendRawTransaction'' [JStr raw])) = Inr res"
    and "request_row i (w_db w) = Some row"
  shows "\<exists>w' t t'. signAndSend orgId s v req fees key i w =
      (Inr \<lparr>res_signingRequestId = i, res_txHash = Some hash, res_status = ''broadcasted'',
         res_nonce = n, res_idempotencyKey = Some key, res_errorType = None,
         res_errorMessage = None\<rparr>, w') \<and>
    w_sent w' = w_sent w @ [sign_rq, rpc_request p ''eth_sendRawTransaction'' [JStr raw]] \<and>
    request_row i (w_db w') = Some (broadcasted_row tx hash sig t t' row) \<and>
    wallet_nonces (w_db w') = m"
proof -
  let ?up = "\<lambda>f. signing_requests_update (map_row (\<lambda>r. sr_id r = i) (sr_set f Undefined))"
  let ?signed = "\<lparr>st_signature = Some sig, st_txHash = Some hash, st_rawTx = Some raw\<rparr>"
  have j: "j \<noteq> JNull" using assms by (auto simp: reply_prop_def)
  define w1 where "w1 = (tick w)\<lparr>w_db := (w_db w)\<lparr>wallet_nonces := m\<rparr>\<rparr>"
  define w2 where "w2 = (tick w1)\<lparr>w_db := ?up (no_fields\<lparr>f_tx_payload := Val tx\<rparr>) (w_db w1)\<rparr>"
  define w3 where "w3 = w2\<lparr>w_sent := w_sent w2 @ [sign_rq], w_reads := Suc (w_reads w2)\<rparr>"
  define w4 where "w4 = (tick w3)\<lparr>w_db := ?up (signed_fields ?signed (w_clock w (w_reads w2))) (w_db w3)\<rparr>"
  have q: "quiet w1" "quiet w2" "quiet w3" "quiet w4"
    using assms(3) by (simp_all add: w1_def w2_def w3_def w4_def)
  have 1: "reserveNonce (wl_id v) (req_chainId req) w = (Inr n, w1)"
    using reserve_quiet assms(3,6) by (simp add: w1_def)
  have 2: "sr_update i (no_fields\<lparr>f_tx_payload := Val tx\<rparr>) w1 = (Inr (), w2)"
    using sr_update_quiet [OF q(1)] by (simp add: w2_def no_fields_def)
  have net2: "w_net w2 = w_net w" "w_env w2 = w_env w" "w_sent w2 = w_sent w"
    by (simp_all add: w1_def w2_def)
  have "crypto_signTransaction s (wl_derivation_path v) tx w2 =
      (Inr ?signed, w2\<lparr>w_sent := w_sent w2 @ [sign_rq]\<rparr>)"
    using sign_run(2) [of w2 u k s "wl_derivation_path v" tx j] assms(4,5,7-10) j
    by (simp add: net2 sign_rq_def)
  then have 3: "signOrFail s v tx i w2 = (Inr ?signed, w2\<lparr>w_sent := w_sent w2 @ [sign_rq]\<rparr>)"
    by (simp add: signOrFail_def catch_def)
  have 4: "sr_update i (signed_fields ?signed (w_clock w (w_reads w2))) w3 = (Inr (), w4)"
    using sr_update_quiet [OF q(3)] by (simp add: w4_def signed_fields_def no_fields_def)
  note sent = broadcast_first_provider [OF q(4), of "req_chainId req" ch p ps raw res ?signed v i]
  have clock: "w_clock w2 = w_clock w" by (simp add: w1_def w2_def)
  define w5 where "w5 = snd (broadcastOrFail v (req_chainId req) ?signed i w4)"
  have 5: "broadcastOrFail v (req_chainId req) ?signed i w4 = (Inr (), w5)"
    and db5: "w_db w5 = ?up (no_fields\<lparr>f_status := Val ''broadcasted'',
          f_broadcasted_at := Val (w_clock w4 (w_reads w4))\<rparr>) (w_db w4)"
    and s5: "w_sent w5 = w_sent w4 @ [rpc_request p ''eth_sendRawTransaction'' [JStr raw]]"
    and q5: "quiet w5"
    using sent assms(11-13) q(4) by (simp_all add: w5_def w4_def w3_def net2)
  have run: "\<exists>w' e. signAndSend orgId s v req fees key i w = (Inr \<lparr>res_signingRequestId = i,
      res_txHash = Some hash, res_status = ''broadcasted'', res_nonce = n,
      res_idempotencyKey = Some key, res_errorType = None, res_errorMessage = None\<rparr>, w') \<and>
      w' = after_audit w5 e"
    using 1 2 3 4 5 q5 audit_create_quiet [OF q5]
    by (simp add: signAndSend_def andThen_def now_def ret_run tx_def [symmetric] clock w3_def [symmetric])
      (rule exI, rule refl)
  then obtain w' e where w': "signAndSend orgId s v req fees key i w = (Inr \<lparr>res_signingRequestId = i,
      res_txHash = Some hash, res_status = ''broadcasted'', res_nonce = n,
      res_idempotencyKey = Some key, res_errorType = None, res_errorMessage = None\<rparr>, w')"
    "w' = after_audit w5 e" by blast
  have r1: "request_row i (w_db w1) = Some row"
    using assms(14) by (simp add: w1_def request_row_def)
  have db: "w_db w2 = ?up (no_fields\<lparr>f_tx_payload := Val tx\<rparr>) (w_db w1)"
    "w_db w4 = ?up (signed_fields ?signed (w_clock w (w_reads w2))) (w_db w2)"
    by (simp_all add: w2_def w3_def w4_def)
  have "request_row i (w_db w') =
      Some (sr_set (no_fields\<lparr>f_status := Val ''broadcasted'',
          f_broadcasted_at := Val (w_clock w4 (w_reads w4))\<rparr>) Undefined
        (sr_set (signed_fields ?signed (w_clock w (w_reads w2))) Undefined
          (sr_set (no_fields\<lparr>f_tx_payload := Val tx\<rparr>) Undefined row)))"
    using r1 by (simp only: w'(2) after_audit_select request_row_other db5 db request_row_update
        option.map)
  then have "request_row i (w_db w') =
      Some (broadcasted_row tx hash sig (w_clock w (w_reads w2)) (w_clock w4 (w_reads w4)) row)"
    by (simp add: broadcasted_row_def sr_set_def signed_fields_def no_fields_def opt_field_def)
  moreover have "w_sent w' = w_sent w @ [sign_rq, rpc_request p ''eth_sendRawTransaction'' [JStr raw]]"
    by (simp add: w'(2) s5 w4_def w3_def net2)
  moreover have "wallet_nonces (w_db w') = m"
    by (simp add: w'(2) db5 w4_def w3_def w2_def w1_def)
  ultimately show ?thesis using w'(1) by blast
qed

section \<open>Properties\<close>

text \<open>
  Replay.  A request whose key belongs to a row that has not failed returns that row's
  result: nothing is evaluated, signed, sent or written.
\<close>

theorem replay_is_silent:
  assumes "quiet w"
    and "find_row (\<lambda>r. sd_org_id r = orgId) (organization_seeds (w_db w)) = Some s"
    and "find_row (\<lambda>r. wl_id r = walletId) (wallets (w_db w)) = Some v" and "wl_org_id v = orgId"
    and "find_row (\<lambda>r. sr_idempotency_key r = Some (computeIdempotencyKey X walletId req))
      (signing_requests (w_db w)) = Some row"
    and "sr_status row \<noteq> ''failed''"
  shows "\<exists>w'. requestSign X orgId walletId req w = (Inr (buildSignResultFromRequest row), w') \<and>
    w_db w' = w_db w \<and> w_sent w' = w_sent w"
  using assms
  by (simp add: requestSign_def loadPrerequisites_def run_defs query_defs query_quiet Let_def)

text \<open>
  C25. The success path: the nonce is reserved, the signer is asked once, the raw transaction
  it returns is broadcast, and the row ends as broadcasted with the payload, the hash and
  the signature; the result carries the same hash and nonce.
\<close>

theorem sign_and_send_succeeds:
  fixes w :: world and s u k v req fees n
  defines "tx \<equiv> tx_fields_of req fees n"
  defines "sign_rq \<equiv> crypto_request u k ''/wallet/sign-transaction'' (sign_body s (wl_derivation_path v) tx)"
  assumes "quiet w" and "w_env w ''CRYPTO_SERVICE_URL'' = Some u" and "w_env w ''CRYPTO_AUTH_TOKEN'' = Some k"
    and "reserve_nonce (wallet_nonces (w_db w)) (wl_id v, req_chainId req) = Inr (n, m)"
    and "crypto_reply ''/wallet/sign-transaction'' (w_net w (length (w_sent w)) sign_rq) = Inr j"
    and "reply_prop ''txHash'' j = Some hash" and "reply_prop ''signature'' j = Some sig"
    and "reply_prop ''rawTx'' j = Some raw"
    and "map_of (chains (w_env w)) (req_chainId req) = Some ch" and "cc_rpcUrls ch = p # ps"
    and "rpc_reply ''eth_sendRawTransaction'' (w_net w (Suc (length (w_sent w)))
      (rpc_request p ''eth_sendRawTransaction'' [JStr raw])) = Inr res"
    and "request_row i (w_db w) = Some row"
  shows "\<exists>w' t t'. signAndSend orgId s v req fees key i w =
      (Inr \<lparr>res_signingRequestId = i, res_txHash = Some hash, res_status = ''broadcasted'',
         res_nonce = n, res_idempotencyKey = Some key, res_errorType = None,
         res_errorMessage = None\<rparr>, w') \<and>
    w_sent w' = w_sent w @ [sign_rq, rpc_request p ''eth_sendRawTransaction'' [JStr raw]] \<and>
    request_row i (w_db w') = Some (row\<lparr>sr_tx_payload := Some tx, sr_tx_hash := Some hash,
      sr_signature := Some sig, sr_status := ''broadcasted'', sr_signed_at := Some t,
      sr_broadcasted_at := Some t'\<rparr>) \<and>
    wallet_nonces (w_db w') = m"
  using signAndSend_success [OF assms(3-6) assms(7) [unfolded assms(1,2)] assms(8-14), of orgId key]
  by (simp add: broadcasted_row_def assms(1,2))

text \<open>
  C26. A signer failure costs no nonce: the exception says so with status 400 for a permanent
  error and 500 otherwise, nothing is broadcast, the row is marked failed with the reason,
  and the counter of the wallet and chain is what it was before (0 where there was none).
\<close>

theorem sign_failure_gives_nonce_back:
  fixes w :: world and s u k v req fees n
  defines "tx \<equiv> tx_fields_of req fees n"
  defines "sign_rq \<equiv> crypto_request u k ''/wallet/sign-transaction'' (sign_body s (wl_derivation_path v) tx)"
  assumes "quiet w" and "w_env w ''CRYPTO_SERVICE_URL'' = Some u" and "w_env w ''CRYPTO_AUTH_TOKEN'' = Some k"
    and "reserve_nonce (wallet_nonces (w_db w)) (wl_id v, req_chainId req) = Inr (n, m)"
    and "crypto_reply ''/wallet/sign-transaction'' (w_net w (length (w_sent w)) sign_rq) = Inl e"
    and "request_row i (w_db w) = Some row"
  shows "\<exists>w'. signAndSend orgId s v req fees key i w =
      (Inl (http_failure ''Transaction signing'' (classifyError e)), w') \<and>
    w_sent w' = w_sent w @ [sign_rq] \<and>
    request_row i (w_db w') = Some (row\<lparr>sr_tx_payload := Some tx, sr_status := ''failed'',
      sr_failure_reason := Some (error_message e),
      sr_error_type := Some (error_type_text (classifyError e))\<rparr>) \<and>
    wallet_nonces (w_db w') = (wallet_nonces (w_db w))((wl_id v, req_chainId req) \<mapsto>
      (case wallet_nonces (w_db w) (wl_id v, req_chainId req) of None \<Rightarrow> 0 | Some c \<Rightarrow> c))"
proof -
  let ?k = "(wl_id v, req_chainId req)"
  define w1 where "w1 = (tick w)\<lparr>w_db := (w_db w)\<lparr>wallet_nonces := m\<rparr>\<rparr>"
  define w2 where "w2 = (tick w1)\<lparr>w_db := signing_requests_update
    (map_row (\<lambda>r. sr_id r = i) (sr_set (no_fields\<lparr>f_tx_payload := Val tx\<rparr>) Undefined)) (w_db w1)\<rparr>"
  have q: "quiet w1" "quiet w2" using assms(3) by (simp_all add: w1_def w2_def)
  have 1: "reserveNonce (wl_id v) (req_chainId req) w = (Inr n, w1)"
    using reserve_quiet assms(3,6) by (simp add: w1_def)
  have 2: "sr_update i (no_fields\<lparr>f_tx_payload := Val tx\<rparr>) w1 = (Inr (), w2)"
    using sr_update_quiet [OF q(1)] by (simp add: w2_def no_fields_def)
  have net2: "w_net w2 = w_net w" "w_env w2 = w_env w" "w_sent w2 = w_sent w"
    by (simp_all add: w1_def w2_def)
  have "crypto_signTransaction s (wl_derivation_path v) tx w2 =
      (Inl e, w2\<lparr>w_sent := w_sent w @ [sign_rq]\<rparr>)"
    using sign_run(1) [of w2 u k s "wl_derivation_path v" tx e] assms(4,5,7)
    by (simp add: net2 sign_rq_def)
  note 3 = signOrFail_fails [OF q(2) this, of i]
  have r2: "request_row i (w_db w2) = Some (row\<lparr>sr_tx_payload := Some tx\<rparr>)"
  proof -
    have "request_row i (w_db w1) = Some row" using assms(8) by (simp add: w1_def request_row_def)
    then show ?thesis by (simp add: w2_def sr_set_def no_fields_def)
  qed
  have n2: "wallet_nonces (w_db w2) = m" by (simp add: w2_def w1_def)
  have tx: "tx_chainId tx = req_chainId req" "tx_nonce tx = n"
    by (simp_all add: assms(1) tx_fields_of_def)
  have m: "m = (wallet_nonces (w_db w))(?k \<mapsto> n + 1)"
    "n = (case wallet_nonces (w_db w) ?k of None \<Rightarrow> 0 | Some c \<Rightarrow> c)"
    using assms(6) by (auto simp: reserve_nonce_def Let_def split: if_splits option.splits)
  then have "snd (release_nonce m ?k n) = (wallet_nonces (w_db w))(?k \<mapsto> n)"
    by (simp add: release_nonce_def)
  with 1 2 3 r2 n2 tx show ?thesis
    by (simp add: signAndSend_def andThen_def tx_def [symmetric] request_row_def
        find_row_map_row_same m(2) [symmetric])
qed

text \<open>A network and a configuration for the examples.\<close>

definition sample_env :: "string \<Rightarrow> string option" where
  "sample_env = Map.empty(''CRYPTO_SERVICE_URL'' \<mapsto> ''sign'', ''CRYPTO_AUTH_TOKEN'' \<mapsto> ''token'',
     ''RPC_URL'' \<mapsto> ''node'')"

definition sample_reply :: json where
  "sample_reply = JObj [(''txHash'', JStr ''0xh''), (''signature'', JStr ''0xs''), (''rawTx'', JStr ''0xr'')]"

definition sample_net :: "nat \<Rightarrow> http_request \<Rightarrow> net_result" where
  "sample_net n rq = (if rq_url rq = ''node''
     then NetResponse 200 ''OK'' (BodyJson [] (JObj [(''result'', JStr ''0xh'')]))
     else NetResponse 200 ''OK'' (BodyJson [] sample_reply))"

definition sample_row :: "string \<Rightarrow> signing_request" where
  "sample_row st = \<lparr>sr_id = ''r'', sr_org_id = ''org'', sr_wallet_id = ''w'', sr_chain_id = 1,
     sr_tx_hash = None, sr_tx_payload = None, sr_signature = None, sr_status = st,
     sr_failure_reason = None, sr_error_type = None, sr_policy_result = None,
     sr_block_number = None, sr_gas_used = None, sr_effective_gas_price = None,
     sr_idempotency_key = Some (computeIdempotencyKey sample_ext ''w'' sample_request),
     sr_speed_up_attempts = 0, sr_original_tx_hash = None, sr_last_speed_up_at = None,
     sr_created_at = 0, sr_signed_at = None, sr_broadcasted_at = None, sr_confirmed_at = None\<rparr>"

definition sample_fees :: fee_estimate where
  "sample_fees = \<lparr>fe_gasLimit = 25200, fe_maxFeePerGas = ''9'', fe_maxPriorityFeePerGas = ''1''\<rparr>"

definition sample_world :: "string \<Rightarrow> (nat \<Rightarrow> http_request \<Rightarrow> net_result) \<Rightarrow> world" where
  "sample_world st net = calm_world (sample_db [] [sample_row st]) net sample_env 7"

lemma sample_world_simps [simp]:
  "quiet (sample_world st net)" "w_sent (sample_world st net) = []"
  "w_net (sample_world st net) = net" "w_env (sample_world st net) = sample_env"
  "wallet_nonces (w_db (sample_world st net)) = Map.empty"
  "organization_seeds (w_db (sample_world st net)) = [sample_seed]"
  "wallets (w_db (sample_world st net)) = [sample_wallet]"
  "signing_requests (w_db (sample_world st net)) = [sample_row st]"
  "request_row ''r'' (w_db (sample_world st net)) = Some (sample_row st)"
  by (simp_all add: sample_world_def calm_world_def sample_db_def empty_db_def request_row_def
      sample_row_def quiet_def)

lemma sample_env_simps [simp]:
  "sample_env ''CRYPTO_SERVICE_URL'' = Some ''sign''" "sample_env ''CRYPTO_AUTH_TOKEN'' = Some ''token''"
  by (simp_all add: sample_env_def)

lemma sample_chain: "\<exists>ch. map_of (chains sample_env) 1 = Some ch \<and> cc_rpcUrls ch = [''node'']"
proof -
  have "map_option cc_rpcUrls (map_of (chains sample_env) 1) = Some [''node'']" by code_simp
  then show ?thesis by (cases "map_of (chains sample_env) 1") auto
qed

theorem replay_is_silent_witness:
  "\<exists>w'. requestSign sample_ext ''org'' ''w'' sample_request (sample_world ''broadcasted'' sample_net) =
    (Inr (buildSignResultFromRequest (sample_row ''broadcasted'')), w') \<and> w_sent w' = []"
proof -
  have "find_row (\<lambda>r. sr_idempotency_key r = Some (computeIdempotencyKey sample_ext ''w'' sample_request))
      (signing_requests (w_db (sample_world ''broadcasted'' sample_net))) = Some (sample_row ''broadcasted'')"
    by (simp add: sample_row_def)
  from replay_is_silent [OF _ _ _ _ this, of "''org''" sample_seed sample_wallet]
  show ?thesis by (simp add: sample_seed_def sample_wallet_def sample_row_def) blast
qed

theorem sign_and_send_succeeds_witness:
  "\<exists>w' t t'. signAndSend ''org'' sample_seed sample_wallet sample_request sample_fees ''k'' ''r''
      (sample_world ''pending'' sample_net) =
    (Inr \<lparr>res_signingRequestId = ''r'', res_txHash = Some ''0xh'', res_status = ''broadcasted'',
       res_nonce = 0, res_idempotencyKey = Some ''k'', res_errorType = None, res_errorMessage = None\<rparr>, w') \<and>
    wallet_nonces (w_db w') (''w'', 1) = Some 1"
proof -
  obtain ch where ch: "map_of (chains sample_env) 1 = Some ch" "cc_rpcUrls ch = [''node'']"
    using sample_chain by blast
  have c: "req_chainId sample_request = 1" by (simp add: sample_request_def)
  have n: "reserve_nonce Map.empty (''w'', 1) = Inr (0, Map.empty((''w'', 1) \<mapsto> 1))"
    by (simp add: reserve_nonce_def int4_ok_def)
  have s: "crypto_reply ''/wallet/sign-transaction'' (sample_net m (crypto_request ''sign'' ''token''
      ''/wallet/sign-transaction'' b)) = Inr sample_reply" for m b
    by (simp add: crypto_reply_def sample_net_def crypto_request_def)
  have r: "rpc_reply meth (sample_net m (rpc_request ''node'' meth ps)) = Inr (Some (JStr ''0xh''))" for m meth ps
    by (simp add: rpc_reply_def sample_net_def rpc_request_def)
  have f: "reply_prop ''txHash'' sample_reply = Some ''0xh''" "reply_prop ''signature'' sample_reply = Some ''0xs''"
    "reply_prop ''rawTx'' sample_reply = Some ''0xr''"
    by (simp_all add: reply_prop_def sample_reply_def)
  have wl: "wl_id sample_wallet = ''w''" by (simp add: sample_wallet_def)
  from sign_and_send_succeeds [of "sample_world ''pending'' sample_net" "''sign''" "''token''" sample_wallet
      sample_request 0 "Map.empty((''w'', 1) \<mapsto> 1)" sample_seed sample_fees sample_reply "''0xh''" "''0xs''"
      "''0xr''" ch "''node''" "[]" "Some (JStr ''0xh'')" "''r''" "sample_row ''pending''" "''org''" "''k''"]
  show ?thesis by (simp add: ch c n s r f wl) (metis fun_upd_same)
qed

theorem sign_failure_gives_nonce_back_witness:
  "\<exists>w'. signAndSend ''org'' sample_seed sample_wallet sample_request sample_fees ''k'' ''r''
      (sample_world ''pending'' (\<lambda>_ _. NetError ''connect timeout'')) =
    (Inl (HttpException 500 ''Transaction signing failed (retryable)''), w') \<and>
    wallet_nonces (w_db w') (''w'', 1) = Some 0"
proof -
  have c: "req_chainId sample_request = 1" by (simp add: sample_request_def)
  have n: "reserve_nonce Map.empty (''w'', 1) = Inr (0, Map.empty((''w'', 1) \<mapsto> 1))"
    by (simp add: reserve_nonce_def int4_ok_def)
  have s: "crypto_reply p (NetError m) = Inl (JsError m)" for p m by (simp add: crypto_reply_def)
  have e: "http_failure ''Transaction signing'' (classifyError (JsError ''connect timeout'')) =
      HttpException 500 ''Transaction signing failed (retryable)''" by code_simp
  have wl: "wl_id sample_wallet = ''w''" by (simp add: sample_wallet_def)
  from sign_failure_gives_nonce_back [of "sample_world ''pending'' (\<lambda>_ _. NetError ''connect timeout'')"
      "''sign''" "''token''" sample_wallet sample_request 0 "Map.empty((''w'', 1) \<mapsto> 1)" sample_seed
      sample_fees "JsError ''connect timeout''" "''r''" "sample_row ''pending''" "''org''" "''k''"]
  show ?thesis by (simp add: c n s e wl) (metis fun_upd_same)
qed

text \<open>In a quiet world a call that only talks to a node leaves the database alone.\<close>

lemma quiet_keeps_db:
  assumes "\<And>J. preserves (stable J) m" and "quiet w" and "m w = (r, w')"
  shows "w_db w' = w_db w"
proof -
  have "stable (\<lambda>d. d = w_db w) w" using assms(2) by (simp add: stable_def quiet_def)
  from preserves_runD [OF assms(1,3) this] show ?thesis by (simp add: stable_def)
qed

text \<open>Synchronising never lowers a counter.\<close>

definition counters_at_least :: "(string \<times> int \<Rightarrow> int option) \<Rightarrow> db \<Rightarrow> bool" where
  "counters_at_least m d \<longleftrightarrow> (\<forall>k n. m k = Some n \<longrightarrow> (\<exists>n'. wallet_nonces d k = Some n' \<and> n \<le> n'))"

lemma sync_keeps_counters: "preserves (stable (counters_at_least m)) (syncNonce i c a)"
proof -
  have "counters_at_least m (d\<lparr>wallet_nonces := m'\<rparr>)"
    if "counters_at_least m d" and "sync_nonce (wallet_nonces d) (i, c) x = Inr m'" for d x m'
    unfolding counters_at_least_def
  proof (intro allI impI)
    fix k n
    assume "m k = Some n"
    with that(1) obtain n1 where n1: "wallet_nonces d k = Some n1" "n \<le> n1"
      unfolding counters_at_least_def by blast
    with that(2) show "\<exists>n'. wallet_nonces (d\<lparr>wallet_nonces := m'\<rparr>) k = Some n' \<and> n \<le> n'"
      by (auto simp: sync_nonce_def split: sum.splits option.splits if_splits)
  qed
  then have "preserves (stable (counters_at_least m)) (nonce_syncFromChain i c x)" for x
    unfolding nonce_syncFromChain_def by (intro stable_stmt) (auto split: sum.splits)
  then show ?thesis
    unfolding syncNonce_def Let_def by (intro preserves_intros)
qed

lemma sync_keeps_requests: "preserves (stable (\<lambda>d. signing_requests d = rs)) (syncNonce i c a)"
  unfolding syncNonce_def Let_def
  by (intro preserves_intros stable_nonces) simp

lemma broadcast_env [preserves_intros]:
  "preserves (stable J) (broadcastTransaction raw c)" "preserves quiet (broadcastTransaction raw c)"
  "preserves quiet (rpcCallWithRetry meth params c)"
proof -
  show "preserves (stable J) (broadcastTransaction raw c)"
    unfolding broadcastTransaction_def by (intro preserves_intros)
  have "preserves quiet (tryProviders meth params us)" for us and meth :: string and params
    by (induction us rule: tryProviders.induct [of _ meth params])
      (auto simp: rpcOnce_def intro!: preserves_intros)
  then have r: "preserves quiet (retryLoop n (rpcCall meth params c) e)" for n e meth params
    by (induction n arbitrary: e) (auto simp: rpcCall_def intro!: preserves_intros)
  show "preserves quiet (rpcCallWithRetry meth params c)"
    and "preserves quiet (broadcastTransaction raw c)"
    unfolding rpcCallWithRetry_def broadcastTransaction_def by (rule r)+
qed

text \<open>
  A broadcast that fails: the caller gets an exception with status 400 for a permanent
  error and 500 otherwise, the row is marked failed and keeps its hash, signature and payload,
  and no counter is lowered by the synchronisation that follows.
\<close>

theorem broadcast_failure_marks_row:
  assumes "quiet w" and "broadcastTransaction (st_rawTx signed) c w = (Inl e, w1)"
    and "request_row i (w_db w) = Some row"
    and "wallet_nonces (w_db w) (wl_id v, c) = Some n"
  shows "\<exists>w' n'. broadcastOrFail v c signed i w =
      (Inl (http_failure ''Transaction broadcast'' (classifyError e)), w') \<and>
    request_row i (w_db w') = Some (row\<lparr>sr_status := ''failed'',
      sr_failure_reason := Some (''broadcast failed: '' @ error_message e),
      sr_error_type := Some (error_type_text (classifyError e))\<rparr>) \<and>
    wallet_nonces (w_db w') (wl_id v, c) = Some n' \<and> n \<le> n'"
proof -
  let ?f = "failed_fields (''broadcast failed: '' @ error_message e) (error_type_text (classifyError e))"
  have q1: "quiet w1" and db1: "w_db w1 = w_db w"
    using preserves_runD [OF broadcast_env(2) assms(2,1)] quiet_keeps_db [OF broadcast_env(1) assms(1,2)] by simp_all
  define w2 where "w2 = (tick w1)\<lparr>w_db := signing_requests_update
    (map_row (\<lambda>r. sr_id r = i) (sr_set ?f Undefined)) (w_db w1)\<rparr>"
  have u: "sr_update i ?f w1 = (Inr (), w2)"
    using sr_update_quiet [OF q1] by (simp add: w2_def)
  have q2: "quiet w2" using q1 by (simp add: w2_def)
  obtain r3 w3 where s: "syncNonce (wl_id v) c (wl_address v) w2 = (r3, w3)" by fastforce
  have st: "stable J w2" if "J (w_db w2)" for J
    using that q2 by (simp add: stable_def quiet_def)
  have "signing_requests (w_db w3) = signing_requests (w_db w2)"
    using preserves_runD [OF sync_keeps_requests s st] by (simp add: stable_def)
  then have row: "request_row i (w_db w3) = Some (sr_set ?f Undefined row)"
    using assms(3) db1 by (simp add: request_row_def w2_def find_row_map_row_same)
  have n2: "wallet_nonces (w_db w2) (wl_id v, c) = Some n" using assms(4) db1 by (simp add: w2_def)
  have "counters_at_least (wallet_nonces (w_db w2)) (w_db w2)"
    by (simp add: counters_at_least_def)
  then have "stable (counters_at_least (wallet_nonces (w_db w2))) w2" by (rule st)
  from stableD [OF preserves_runD [OF sync_keeps_counters s this]]
  have "counters_at_least (wallet_nonces (w_db w2)) (w_db w3)" .
  with n2 obtain n' where "wallet_nonces (w_db w3) (wl_id v, c) = Some n'" "n \<le> n'"
    unfolding counters_at_least_def by blast
  moreover have "broadcastOrFail v c signed i w =
      (Inl (http_failure ''Transaction broadcast'' (classifyError e)), w3)"
    using assms(2) u s by (simp add: broadcastOrFail_def catch_def andThen_def attempt_def throw_run)
  ultimately show ?thesis using row by (simp add: sr_set_failed)
qed

text \<open>
  The claim of a failed row does not depend on what the others do between its query and
  its update.
\<close>

lemma claim_run:
  assumes "quiet w" and "is_unique_violation (w_driver w unique_violation)" and "sr_status row = ''failed''"
    and "find_row (\<lambda>r. sr_idempotency_key r = Some key) (signing_requests (w_db w)) = Some row"
    and "v = w\<lparr>w_sched := s\<rparr>" and "s (w_stmts w) = (\<lambda>d. d)" and "s (Suc (w_stmts w)) = (\<lambda>d. d)"
    and "s (Suc (Suc (w_stmts w))) = others"
  shows "\<exists>w'. claimRequest orgId walletId req key v = (Inr (Inr (sr_id row)), w') \<and>
    w_db w' = signing_requests_update
      (map_row (\<lambda>r. sr_id r = sr_id row) (\<lambda>r. r\<lparr>sr_status := ''pending''\<rparr>)) (others (w_db w)) \<and>
    w_stmts w' = w_stmts w + 3 \<and> w_sent w' = w_sent w"
proof -
  have in_db: "row \<in> set (signing_requests (w_db w))" "sr_idempotency_key row = Some key"
    using find_row_Some [OF assms(4)] by simp_all
  have dup: "insert_row signing_request_conflict r (signing_requests (w_db w)) =
      Inl unique_violation"
    if "sr_idempotency_key r = Some key" for r
    using in_db that by (auto simp: insert_row_Inl signing_request_conflict_def)
  obtain v1 where c: "sr_create orgId walletId (req_chainId req) ''pending'' key v =
      (Inl (w_driver w unique_violation), v1)"
    and v1: "w_stmts v1 = Suc (w_stmts w)" "w_db v1 = w_db w" "w_sched v1 = s" "w_fault v1 = w_fault w" "w_sent v1 = w_sent w"
    using assms(1,5,6) dup
    by (simp add: sr_create_def create_row_def randomUUID_def now_def run_defs stmt_def quiet_def)
  let ?f = "no_fields\<lparr>f_status := Val ''pending'', f_tx_payload := Undefined,
      f_tx_hash := Undefined, f_signature := Undefined, f_failure_reason := Undefined,
      f_error_type := Undefined\<rparr>"
  have set: "sr_set ?f Undefined = (\<lambda>r. r\<lparr>sr_status := ''pending''\<rparr>)"
    by (simp add: fun_eq_iff sr_set_def no_fields_def)
  have q: "sr_findByIdempotencyKey key v1 = (Inr (Some row), tick v1)"
    using v1 assms(1,4,7) by (simp add: sr_findByIdempotencyKey_def query_def stmt_def quiet_def tick_def)
  have u: "sr_update (sr_id row) ?f (tick v1) = (Inr (), (tick (tick v1))\<lparr>w_db :=
      signing_requests_update (map_row (\<lambda>r. sr_id r = sr_id row) (\<lambda>r. r\<lparr>sr_status := ''pending''\<rparr>)) (others (w_db w))\<rparr>)"
    unfolding set [symmetric] using v1 assms(1,8)
    by (simp add: sr_update_def stmt_def quiet_def tick_def no_fields_def)
  show ?thesis
    using c q u v1 assms(2,3) by (simp add: claimRequest_def catch_def andThen_def ret_run tick_def)
qed

lemma claim_ignores_others:
  assumes "quiet w" and "is_unique_violation (w_driver w unique_violation)" and "sr_status row = ''failed''"
    and "find_row (\<lambda>r. sr_idempotency_key r = Some key) (signing_requests (w_db w)) = Some row"
    and "v = w\<lparr>w_sched := s\<rparr>" and "s (w_stmts w) = (\<lambda>d. d)" and "s (Suc (w_stmts w)) = (\<lambda>d. d)"
    and "s (Suc (Suc (w_stmts w))) = others"
  shows "\<exists>w'. claimRequest orgId walletId req key v = (Inr (Inr (sr_id row)), w') \<and>
    w_db w' = signing_requests_update
      (map_row (\<lambda>r. sr_id r = sr_id row) (\<lambda>r. r\<lparr>sr_status := ''pending''\<rparr>)) (others (w_db w))"
  using claim_run [OF assms] by blast

lemma claim_quiet:
  assumes "quiet w" and "is_unique_violation (w_driver w unique_violation)" and "sr_status row = ''failed''"
    and "find_row (\<lambda>r. sr_idempotency_key r = Some key) (signing_requests (w_db w)) = Some row"
  shows "\<exists>w'. claimRequest orgId walletId req key w = (Inr (Inr (sr_id row)), w') \<and>
    w_db w' = signing_requests_update
      (map_row (\<lambda>r. sr_id r = sr_id row) (\<lambda>r. r\<lparr>sr_status := ''pending''\<rparr>)) (w_db w)"
  using assms(1) claim_ignores_others [OF assms, of w "w_sched w" "\<lambda>d. d"] by (simp add: quiet_def fun_eq_iff)

text \<open>
  Where the client of the database shows the code of the error, retrying a failed request
  reuses its row.  The row is set to pending and nothing else:
  the hash, signature, payload and failure reason of the failed attempt, which the source
  passes as undefined, all stay.
\<close>

theorem failed_row_keeps_its_columns:
  assumes "quiet w" and "is_unique_violation (w_driver w unique_violation)" and "sr_status row = ''failed''"
    and "find_row (\<lambda>r. sr_idempotency_key r = Some key) (signing_requests (w_db w)) = Some row"
  shows "\<exists>w'. claimRequest orgId walletId req key w = (Inr (Inr (sr_id row)), w') \<and>
    w_db w' = signing_requests_update
      (map_row (\<lambda>r. sr_id r = sr_id row) (\<lambda>r. r\<lparr>sr_status := ''pending''\<rparr>)) (w_db w)"
  using assms by (rule claim_quiet)

theorem broadcast_failure_marks_row_witness:
  "\<exists>w' row. broadcastOrFail sample_wallet 1 \<lparr>st_signature = None, st_txHash = None, st_rawTx = Some ''0x''\<rparr>
      ''r'' ((sample_world ''signed'' (\<lambda>_ _. NetError ''insufficient funds''))
        \<lparr>w_db := (sample_db [] [sample_row ''signed''])\<lparr>wallet_nonces := Map.empty((''w'', 1) \<mapsto> 4)\<rparr>\<rparr>) =
    (Inl (http_failure ''Transaction broadcast'' Permanent), w') \<and>
    request_row ''r'' (w_db w') = Some row \<and> sr_status row = ''failed''"
proof -
  let ?w = "(sample_world ''signed'' (\<lambda>_ _. NetError ''insufficient funds''))
        \<lparr>w_db := (sample_db [] [sample_row ''signed''])\<lparr>wallet_nonces := Map.empty((''w'', 1) \<mapsto> 4)\<rparr>\<rparr>"
  let ?e = "JsError ''insufficient funds''"
  let ?signed = "\<lparr>st_signature = None, st_txHash = None, st_rawTx = Some ''0x''\<rparr>"
  obtain ch where ch: "map_of (chains sample_env) 1 = Some ch" "cc_rpcUrls ch = [''node'']"
    using sample_chain by blast
  have e: "classifyError ?e = Permanent" by code_simp
  have "\<exists>w1. rpcCall meth params 1 ?w = (Inl ?e, w1)" for meth params
    using ch by (simp add: rpcCall_def andThen_def getRpcUrls_run rpcOnce_def fetch_def lift_res_run
        rpc_reply_def)
  then obtain w1 where "broadcastTransaction (st_rawTx ?signed) 1 ?w = (Inl ?e, w1)"
    using rpc.retry_stops [of _ _ 1 ?w "Inl ?e" _ 2 None] e
    by (simp add: broadcastTransaction_def rpcCallWithRetry_def numeral_3_eq_3 numeral_2_eq_2) blast
  note b = this
  have r: "request_row ''r'' (w_db ?w) = Some (sample_row ''signed'')"
    by (simp add: request_row_def sample_row_def sample_db_def)
  have n: "wallet_nonces (w_db ?w) (wl_id sample_wallet, 1) = Some 4" by (simp add: sample_wallet_def)
  from broadcast_failure_marks_row [OF _ b r n] e show ?thesis by fastforce
qed

theorem failed_row_keeps_its_columns_witness:
  "\<exists>w'. claimRequest ''org'' ''w'' sample_request (computeIdempotencyKey sample_ext ''w'' sample_request)
      ((sample_world ''failed'' sample_net)\<lparr>w_driver := (\<lambda>e. e)\<rparr>) = (Inr (Inr ''r''), w') \<and>
    signing_requests (w_db w') = [sample_row ''pending'']"
proof -
  have "find_row (\<lambda>r. sr_idempotency_key r = Some (computeIdempotencyKey sample_ext ''w'' sample_request))
      (signing_requests (w_db ((sample_world ''failed'' sample_net)\<lparr>w_driver := (\<lambda>e. e)\<rparr>))) = Some (sample_row ''failed'')"
    by (simp add: sample_row_def)
  from failed_row_keeps_its_columns [OF _ _ _ this, of "''org''" "''w''" sample_request]
  show ?thesis by (auto simp: sample_row_def)
qed

text \<open>A request to derive an address under the seed of an organization.\<close>

definition derive_request :: "string \<Rightarrow> http_request \<Rightarrow> bool" where
  "derive_request orgId rq \<longleftrightarrow> (\<exists>s i. sd_org_id s = orgId \<and>
     is_crypto ''/wallet/derive'' (derive_body s i) rq)"

lemma emits_deriveLoop:
  assumes "sd_org_id s = orgId"
  shows "emits (rationed (derive_request orgId) has_token n n) (deriveLoop n orgId userId label c s i)"
proof (induction n arbitrary: i)
  case 0
  show ?case by (auto intro!: emits_silent preserves_intros)
next
  case (Suc n)
  have one: "emits (rationed (derive_request orgId) has_token 1 1) (crypto_deriveWallet s i)"
    by (rule emits_mono [OF emits_crypto(2) [of s i]]) (use assms in \<open>auto simp: rationed_def list_all_iff derive_request_def\<close>)
  have silent: "emits (rationed (derive_request orgId) has_token 0 0) (insertDerived orgId userId label c d)" for d
    unfolding insertDerived_def not_null_def wallet_create_def
    by (intro emits_silent preserves_intros) simp
  have "emits (rationed (derive_request orgId) has_token n n) (andThen (wallet_countByOrgId orgId)
      (deriveLoop n orgId userId label c s))"
    by (intro rationed_after_silent Suc.IH) (simp add: wallet_countByOrgId_def preserves_intros)
  then have "emits (rationed (derive_request orgId) has_token n n) (catch (insertDerived orgId userId label c d)
      (\<lambda>err. if \<not> is_unique_violation err then throw err
        else if n = 0 then throw derive_conflict
        else andThen (wallet_countByOrgId orgId) (deriveLoop n orgId userId label c s)))" for d
    by (intro emits_rationed_catch [OF silent, where c = n and l = n])
      (auto intro: emits_silent preserves_intros)
  then show ?case
    unfolding deriveLoop.simps by (intro emits_rationed_andThen [OF one, where c = n and l = n]) simp_all
qed

text \<open>
  Derivation is bounded: one call asks the signer at most three times, each time for an
  address under the seed of the caller's organization, and nobody else is called.
\<close>

theorem derivation_is_bounded:
  "\<exists>rs. w_sent (snd (deriveWallet orgId userId label c w)) = w_sent w @ rs \<and> length rs \<le> 3 \<and>
     list_all (derive_request orgId) rs"
proof -
  have check: "preserves (silent rs) (checkUser orgId userId)" for rs
    unfolding checkUser_def user_findById_def by (intro preserves_intros)
  have "emits (rationed (derive_request orgId) has_token 3 3) (case found of
       None \<Rightarrow> throw (BadRequestException ''organization has not been onboarded'')
     | Some seedRow \<Rightarrow> andThen (checkUser orgId userId) (\<lambda>_.
         andThen (wallet_countByOrgId orgId) (\<lambda>i.
           deriveLoop 3 orgId userId label (case c of None \<Rightarrow> 1 | Some c \<Rightarrow> c) seedRow i)))"
    if "seed_findByOrgId orgId w0 = (Inr found, w1)" for found w0 w1
  proof (cases found)
    case None
    then show ?thesis by (auto intro!: emits_silent preserves_intros)
  next
    case (Some s)
    have "find_row (\<lambda>r. sd_org_id r = orgId)
        (organization_seeds (w_sched w0 (w_stmts w0) (w_db w0))) = Some s"
      using query_returns that Some unfolding seed_findByOrgId_def by fastforce
    then have "sd_org_id s = orgId" by (auto dest!: find_row_Some)
    note loop = emits_deriveLoop [OF this, where n = 3]
    show ?thesis
      unfolding Some option.case
      by (intro rationed_after_silent check loop) (simp add: wallet_countByOrgId_def preserves_intros)
  qed
  then have "emits (rationed (derive_request orgId) has_token 3 3) (deriveWallet orgId userId label c)"
    unfolding deriveWallet_def
    by (intro rationed_after_silent) (auto simp: seed_findByOrgId_def intro: preserves_intros)
  then obtain rs where "w_sent (snd (deriveWallet orgId userId label c w)) = w_sent w @ rs"
    "rationed (derive_request orgId) has_token 3 3 rs"
    unfolding emits_def by metis
  then show ?thesis by (intro exI [of _ rs]) (simp add: rationed_def)
qed

text \<open>
  A status query answers for the caller's own wallet only: what it returns is the view of
  the row with the identifier asked for, that row belongs to the wallet asked for, and the
  wallet belongs to the organization of the caller.
\<close>

theorem status_query_is_confined:
  assumes "getSigningRequestById orgId walletId requestId w = (Inr view, w')"
  shows "\<exists>v row. v \<in> set (wallets (w_sched w (w_stmts w) (w_db w))) \<and> wl_id v = walletId \<and>
    wl_org_id v = orgId \<and> row \<in> set (signing_requests (w_db w')) \<and> sr_id row = requestId \<and>
    sr_wallet_id row = walletId \<and> view = mapSigningRequest row"
proof -
  from assms obtain v w1 where own: "ownWallet walletId orgId w = (Inr v, w1)"
    and rest: "andThen (sr_findById requestId) (\<lambda>found. case found of
       None \<Rightarrow> throw (NotFoundException
                (''Signing request with id '' @ quoted requestId @ '' does not exist''))
     | Some r \<Rightarrow> if sr_wallet_id r \<noteq> walletId
         then throw (BadRequestException ''Signing request does not belong to this wallet'')
         else ret (mapSigningRequest r)) w1 = (Inr view, w')"
    unfolding getSigningRequestById_def by (erule andThen_returns)
  from own have v: "find_row (\<lambda>r. wl_id r = walletId) (wallets (w_sched w (w_stmts w) (w_db w))) = Some v"
    and org: "wl_org_id v = orgId"
    unfolding ownWallet_def wallet_findById_def
    by (auto simp: run_defs query_def stmt_def Let_def split: option.splits if_splits)
  from rest obtain row where "find_row (\<lambda>r. sr_id r = requestId) (signing_requests (w_db w')) = Some row"
    and "sr_wallet_id row = walletId" and "view = mapSigningRequest row"
    unfolding sr_findById_def
    by (auto simp: run_defs query_def stmt_def Let_def split: option.splits if_splits)
  with v org show ?thesis by (blast dest: find_row_Some)
qed

theorem status_query_is_confined_witness:
  "\<exists>w' row. getSigningRequestById ''org'' ''w'' ''r'' (sample_world ''pending'' sample_net) =
      (Inr (mapSigningRequest row), w') \<and> sr_wallet_id row = ''w''"
proof -
  have "\<exists>w'. getSigningRequestById ''org'' ''w'' ''r'' (sample_world ''pending'' sample_net) =
      (Inr (mapSigningRequest (sample_row ''pending'')), w')"
    by (simp add: getSigningRequestById_def ownWallet_def query_defs run_defs query_quiet)
      (simp add: sample_wallet_def sample_row_def)
  then obtain w' where run: "getSigningRequestById ''org'' ''w'' ''r'' (sample_world ''pending'' sample_net) =
      (Inr (mapSigningRequest (sample_row ''pending'')), w')" by blast
  from status_query_is_confined [OF run] obtain row
    where "mapSigningRequest (sample_row ''pending'') = mapSigningRequest row" "sr_wallet_id row = ''w''"
    by blast
  with run show ?thesis by auto
qed

end
