(* ===== verification/SampleChain.thy ===== *)
theory SampleChain
  imports SigningRuns
begin

text \<open>
  A node and a signer for complete runs: both are up, the node knows every transaction and
  never mines one, and the signer signs everything.
\<close>

definition stuck_answer :: "string \<Rightarrow> json" where
  "stuck_answer meth = (if meth = ''eth_getTransactionReceipt'' then JNull
     else if meth = ''eth_estimateGas'' then JStr ''0x5''
     else if meth = ''eth_feeHistory'' then JObj [(''baseFeePerGas'', JArr [JStr ''0x7'']),
       (''reward'', JArr [JArr [JStr ''0x1'']])]
     else JStr ''0xh'')"

definition stuck_net :: "nat \<Rightarrow> http_request \<Rightarrow> net_result" where
  "stuck_net n rq = NetResponse 200 ''OK'' (BodyJson [] (case get_prop ''method'' (rq_body rq) of
     Some (JStr m) \<Rightarrow> JObj [(''result'', stuck_answer m)] | _ \<Rightarrow> sample_reply))"

text \<open>A world that is connected to them.\<close>

definition connected :: "world \<Rightarrow> bool" where
  "connected w \<longleftrightarrow> w_net w = stuck_net \<and> w_env w = sample_env"

lemma connected_update [simp]:
  "connected (w\<lparr>w_sent := rs\<rparr>) = connected w" "connected (w\<lparr>w_reads := n\<rparr>) = connected w"
  "connected (w\<lparr>w_db := d\<rparr>) = connected w" "connected (tick w) = connected w"
  by (simp_all add: connected_def)

lemma connected_rpc:
  assumes "connected w"
  shows "rpcCallWithRetry meth ps 1 w =
    (Inr (Some (stuck_answer meth)), w\<lparr>w_sent := w_sent w @ [rpc_request ''node'' meth ps]\<rparr>)"
proof -
  obtain ch where "map_of (chains sample_env) 1 = Some ch" "cc_rpcUrls ch = [''node'']"
    using sample_chain by blast
  moreover have "rpc_reply meth (stuck_net n (rpc_request ''node'' meth ps)) = Inr (Some (stuck_answer meth))" for n
    by (simp add: rpc_reply_def stuck_net_def rpc_request_def)
  ultimately show ?thesis using assms rpc_first_provider [of w 1 ch "''node''" "[]" meth ps]
    by (simp add: connected_def)
qed

definition connected_fees :: fee_estimate where
  "connected_fees = \<lparr>fe_gasLimit = 6, fe_maxFeePerGas = ''15'', fe_maxPriorityFeePerGas = ''1''\<rparr>"

text \<open>An estimate asks the node twice and does nothing else.\<close>

lemma connected_estimate:
  assumes "connected w"
  shows "\<exists>rs. estimateFees a ''5'' ''0x'' 1 from w = (Inr connected_fees, w\<lparr>w_sent := w_sent w @ rs\<rparr>) \<and>
    filter has_token rs = []"
proof -
  have n: "bigint_of_string ''5'' = Inr 5" "js_BigInt (Some (stuck_answer ''eth_estimateGas'')) = Inr 5"
    "gas_with_buffer 5 = 6" "fees_of_history (Some (stuck_answer ''eth_feeHistory'')) = Inr (''15'', ''1'')"
    by code_simp+
  have t: "\<not> has_token (rpc_request u m ps)" for u m ps
    by (simp add: has_token_def rpc_request_def)
  from assms n show ?thesis
    by (simp add: estimateFees_def estimateGas_def fetchFeeData_def both_def andThen_def attempt_def lift_res_run
        connected_rpc ret_run connected_fees_def) (intro exI conjI, rule refl, simp add: t)
qed

lemma connected_signer:
  "crypto_reply ''/wallet/sign-transaction'' (stuck_net m (crypto_request u k
     ''/wallet/sign-transaction'' (sign_body s p x))) = Inr sample_reply"
  by (simp add: crypto_reply_def stuck_net_def crypto_request_def sign_body_def seed_fields_def)

lemma connected_broadcast:
  "rpc_reply ''eth_sendRawTransaction'' (stuck_net m (rpc_request ''node'' ''eth_sendRawTransaction'' ps)) =
     Inr (Some (JStr ''0xh''))"
  by (simp add: rpc_reply_def stuck_net_def rpc_request_def stuck_answer_def)

lemma sample_reply_props:
  "reply_prop ''txHash'' sample_reply = Some ''0xh''" "reply_prop ''rawTx'' sample_reply = Some ''0xr''"
  "reply_prop ''signature'' sample_reply = Some ''0xs''"
  by (simp_all add: reply_prop_def sample_reply_def)

end
