(* ===== verification/SigningRaces.thy ===== *)
theory SigningRaces
  imports SampleChain
begin

text \<open>
  Requests for the same transaction that run at the same time.  A request that lives, that
  is a row with its key that has not failed, keeps every other one from signing.  A row that
  failed does the same when the client of the database hides the code of the conflict, and
  where it shows the code, retries of the row are not protected from each other.
\<close>

text \<open>There is a request with the key, and none that failed.\<close>

definition alive :: "string \<Rightarrow> db \<Rightarrow> bool" where
  "alive key d \<longleftrightarrow> (\<exists>r \<in> set (signing_requests d). sr_idempotency_key r = Some key) \<and>
     (\<forall>r \<in> set (signing_requests d). sr_idempotency_key r = Some key \<longrightarrow> sr_status r \<noteq> ''failed'')"

lemma alive_find:
  assumes "alive key d"
  shows "\<exists>r. find_row (\<lambda>r. sr_idempotency_key r = Some key) (signing_requests d) = Some r \<and>
    sr_idempotency_key r = Some key \<and> sr_status r \<noteq> ''failed''"
proof (cases "find_row (\<lambda>r. sr_idempotency_key r = Some key) (signing_requests d)")
  case None
  with assms show ?thesis by (auto simp: alive_def find_row_None)
next
  case (Some r)
  from find_row_Some [OF Some] assms have "sr_idempotency_key r = Some key \<and> sr_status r \<noteq> ''failed''"
    by (simp add: alive_def)
  with Some show ?thesis by simp
qed

lemma alive_query:
  assumes "stable (alive key) w" and "sr_findByIdempotencyKey key w = (Inr x, w')"
  shows "\<exists>r. x = Some r \<and> r \<in> set (signing_requests (w_db w')) \<and> sr_idempotency_key r = Some key \<and> sr_status r \<noteq> ''failed''"
proof -
  note q = query_outcome [OF assms(2) [unfolded sr_findByIdempotencyKey_def]]
  have "alive key (w_db w')" using assms(1) q by (simp add: stable_def)
  from alive_find [OF this] q obtain r where "x = Some r" "sr_status r \<noteq> ''failed''" by auto
  moreover from this sr_findByIdempotencyKey_returns assms(2) have "r \<in> set (signing_requests (w_db w'))"
    "sr_idempotency_key r = Some key" by blast+
  ultimately show ?thesis by blast
qed

lemma alive_create:
  assumes "stable (alive key) w" and "sr_create orgId walletId c st key w = (r, w')"
  shows "\<exists>e. r = Inl e"
proof -
  let ?d = "w_sched w (w_stmts w) (w_db w)"
  have "alive key ?d" using assms(1) by (simp add: stable_def)
  then obtain row where row: "row \<in> set (signing_requests ?d)" "sr_idempotency_key row = Some key"
    unfolding alive_def by blast
  then have dup: "insert_row signing_request_conflict x (signing_requests ?d) =
      Inl unique_violation"
    if "sr_idempotency_key x = Some key" for x
    using that by (auto simp: insert_row_Inl signing_request_conflict_def)
  show ?thesis using assms(2) dup
    by (auto simp: sr_create_def create_row_def randomUUID_def now_def andThen_def stmt_def Let_def
        split: option.splits)
qed

text \<open>Once it has found the key to be taken, the claim hands out the row it finds.\<close>

lemma alive_claim:
  assumes "stable (alive key) w" and "claimRequest orgId walletId req key w = (r, w')"
  shows "case r of Inl e \<Rightarrow> True | Inr (Inl res) \<Rightarrow> replays key (w_db w') (Inr res) | Inr (Inr i) \<Rightarrow> False"
proof -
  obtain x w1 where c: "sr_create orgId walletId (req_chainId req) ''pending'' key w = (x, w1)" by fastforce
  from alive_create [OF assms(1) c] obtain e where x: "x = Inl e" by blast
  have st: "stable (alive key) w1"
  proof -
    have "w_db w1 = w_sched w (w_stmts w) (w_db w)" "w_sched w1 = w_sched w" "w_stmts w1 = Suc (w_stmts w)"
      using c x by (auto simp: sr_create_def create_row_def randomUUID_def now_def andThen_def stmt_def Let_def
        split: option.splits sum.splits)
    with assms(1) show ?thesis by (simp add: stable_def)
  qed
  show ?thesis
  proof (cases "is_unique_violation e")
    case False
    with c x assms(2) show ?thesis by (auto simp: claimRequest_def catch_def andThen_def throw_run)
  next
    case True
    obtain q w2 where q: "sr_findByIdempotencyKey key w1 = (q, w2)" by fastforce
    show ?thesis
    proof (cases q)
      case (Inl e')
      with True c x q assms(2) show ?thesis by (auto simp: claimRequest_def catch_def andThen_def)
    next
      case (Inr y)
      with alive_query [OF st] q obtain row where row: "y = Some row" "row \<in> set (signing_requests (w_db w2))" "sr_idempotency_key row = Some key"
        "sr_status row \<noteq> ''failed''" by blast
      with True c x q Inr assms(2) have "r = Inr (Inl (buildSignResultFromRequest row))" "w' = w2"
        by (simp_all add: claimRequest_def catch_def andThen_def ret_run)
      with row show ?thesis by (auto simp: replays_def)
    qed
  qed
qed

lemma alive_requestSign:
  assumes "stable (alive (computeIdempotencyKey X walletId req)) w"
    and "requestSign X orgId walletId req w = (r, w')"
  shows "w_sent w' = w_sent w \<and> replays (computeIdempotencyKey X walletId req) (w_db w') r"
proof -
  let ?key = "computeIdempotencyKey X walletId req"
  obtain l w1 where l: "loadPrerequisites orgId walletId w = (l, w1)" by fastforce
  have w1: "w_sent w1 = w_sent w" "stable (alive ?key) w1"
    using preserves_runD [OF loadPrerequisites_env(1) l, of "w_sent w"]
      preserves_runD [OF loadPrerequisites_env(4) l assms(1)] by (simp_all add: silent_def)
  show ?thesis
  proof (cases l)
    case (Inl e)
    with l w1 assms(2) show ?thesis by (auto simp: requestSign_def andThen_def replays_def)
  next
    case (Inr sv)
    obtain q w2 where q: "sr_findByIdempotencyKey ?key w1 = (q, w2)" by fastforce
    have w2: "w_sent w2 = w_sent w" using preserves_runD [OF sr_query_env(1) q, of "w_sent w1"] w1 by (simp add: silent_def)
    show ?thesis
    proof (cases q)
      case (Inl e)
      with l Inr q w2 assms(2) show ?thesis
        by (auto simp: requestSign_def andThen_def replays_def Let_def split: prod.splits)
    next
      case q': (Inr x)
      with alive_query [OF w1(2)] q obtain row where row: "x = Some row" "row \<in> set (signing_requests (w_db w2))" "sr_idempotency_key row = Some ?key"
        "sr_status row \<noteq> ''failed''" by blast
      with l Inr q q' assms(2) have "r = Inr (buildSignResultFromRequest row)" "w' = w2"
        by (auto simp: requestSign_def andThen_def Let_def ret_run split: prod.splits)
      with row w2 show ?thesis by (auto simp: replays_def)
    qed
  qed
qed

text \<open>
  C15. One request, one signature.  While there is a request with the key and none that failed,
  whatever else runs beside it, a request for the same transaction sends nothing to anybody
  and returns the result of such a row of the database, or it throws; and one that had already looked
  before the row was there does not get past its claim.
\<close>

theorem live_request_is_not_signed_again:
  assumes "stable (alive (computeIdempotencyKey X walletId req)) w"
    and "requestSign X orgId walletId req w = (r, w')"
  shows "w_sent w' = w_sent w \<and>
    (case r of Inl e \<Rightarrow> True | Inr res \<Rightarrow> \<exists>row \<in> set (signing_requests (w_db w')).
       sr_idempotency_key row = Some (computeIdempotencyKey X walletId req) \<and> sr_status row \<noteq> ''failed'' \<and> res = buildSignResultFromRequest row) \<and>
    fst (claimRequest orgId walletId req (computeIdempotencyKey X walletId req) w) \<noteq> Inr (Inr i)"
proof -
  let ?key = "computeIdempotencyKey X walletId req"
  have "fst (claimRequest orgId walletId req ?key w) \<noteq> Inr (Inr i)"
    using alive_claim [OF assms(1)] by (cases "claimRequest orgId walletId req ?key w") fastforce
  with alive_requestSign [OF assms] show ?thesis by (simp add: replays_def)
qed

theorem live_request_is_not_signed_again_witness:
  "w_sent (snd (requestSign sample_ext ''org'' ''w'' sample_request (sample_world ''pending'' sample_net))) = [] \<and>
   fst (claimRequest ''org'' ''w'' sample_request (computeIdempotencyKey sample_ext ''w'' sample_request)
     (sample_world ''pending'' sample_net)) \<noteq> Inr (Inr ''r'')"
proof -
  let ?w = "sample_world ''pending'' sample_net"
  obtain r w' where run: "requestSign sample_ext ''org'' ''w'' sample_request ?w = (r, w')" by fastforce
  have "alive (computeIdempotencyKey sample_ext ''w'' sample_request) (w_db ?w)"
    by (simp add: alive_def sample_row_def)
  then have "stable (alive (computeIdempotencyKey sample_ext ''w'' sample_request)) ?w"
    by (intro quiet_stable) simp_all
  from live_request_is_not_signed_again [OF this run] run show ?thesis by simp
qed

section \<open>Conflicts whose code is hidden\<close>

text \<open>There is a request with the key, whatever became of it.\<close>

definition taken :: "string \<Rightarrow> db \<Rightarrow> bool" where
  "taken key d \<longleftrightarrow> (\<exists>r \<in> set (signing_requests d). sr_idempotency_key r = Some key)"

lemma taken_audit [simp]: "taken key (audit_log_update g d) = taken key d"
  by (simp add: taken_def)

text \<open>
  No error that the call sees has the code of a conflict where the source looks for it: the
  client of the database wraps the error of the server, and no other error carries the code.
\<close>

definition hides_codes :: "world \<Rightarrow> bool" where
  "hides_codes w \<longleftrightarrow> \<not> is_unique_violation (w_driver w unique_violation) \<and>
     (\<forall>n \<ge> w_stmts w. \<forall>e. w_fault w n = Some e \<longrightarrow> \<not> is_unique_violation e)"

lemma hides_later: "hides_codes w \<Longrightarrow> same_env w w' \<Longrightarrow> hides_codes w'"
  by (simp add: hides_codes_def same_env_def) (meson order_trans)

lemma taken_create:
  assumes "stable (taken key) w" and "hides_codes w" and "sr_create orgId walletId c st key w = (r, w')"
  shows "\<exists>e. r = Inl e \<and> \<not> is_unique_violation e"
proof -
  let ?d = "w_sched w (w_stmts w) (w_db w)"
  have "taken key ?d" using assms(1) by (simp add: stable_def)
  then have dup: "insert_row signing_request_conflict x (signing_requests ?d) = Inl unique_violation"
    if "sr_idempotency_key x = Some key" for x
    using that by (auto simp: taken_def insert_row_Inl signing_request_conflict_def)
  show ?thesis using assms(2,3) dup
    by (auto simp: sr_create_def create_row_def randomUUID_def now_def andThen_def stmt_def Let_def hides_codes_def
        split: option.splits)
qed

lemma taken_claim:
  assumes "stable (taken key) w" and "hides_codes w" and "claimRequest orgId walletId req key w = (r, w')"
  shows "\<exists>e. r = Inl e"
proof -
  obtain x w1 where c: "sr_create orgId walletId (req_chainId req) ''pending'' key w = (x, w1)" by fastforce
  from taken_create [OF assms(1,2) c] c assms(3) show ?thesis
    by (auto simp: claimRequest_def catch_def andThen_def throw_run)
qed

text \<open>Past the policies only the nodes are asked, for the fees.\<close>

lemma taken_authorizeAndSign:
  assumes "stable (taken key) w" and "hides_codes w" and "authorizeAndSign X orgId s v req key w = (r, w')"
  shows "\<exists>e rs. r = Inl e \<and> w_sent w' = w_sent w @ rs \<and> length rs \<le> 30 \<and> list_all is_node_call rs"
proof -
  obtain a w1 where e: "evaluate X orgId (wl_id v) (policy_payload X req) w = (a, w1)" by fastforce
  have w1: "w_sent w1 = w_sent w" "stable (taken key) w1" "hides_codes w1"
    using preserves_runD [OF evaluate_env(1) e, of "w_sent w"] preserves_runD [OF stable_evaluate e assms(1)]
      hides_later [OF assms(2) preserves_runD [OF evaluate_env(3) e same_env_refl]] by (simp_all add: silent_def)
  show ?thesis
  proof (cases "a = Inr Allow")
    case False
    then have "w' = w1 \<and> (\<exists>e. r = Inl e)" using assms(3) e unfolding authorizeAndSign_def
      by (cases a) (auto simp: andThen_def throw_run split: verdict.splits)
    with w1(1) show ?thesis by auto
  next
    case True
    let ?fees = "estimateFees (req_to req) (req_value req) (req_data req) (req_chainId req) (Some (wl_address v))"
    obtain f w2 where f: "?fees w1 = (f, w2)" by fastforce
    have "emits (rationed is_node_call (\<lambda>_. False) 30 0) ?fees"
      using traffic_estimateFees unfolding traffic_def .
    from emits_run [OF this f] obtain rs where rs: "w_sent w2 = w_sent w1 @ rs" "length rs \<le> 30" "list_all is_node_call rs"
      by (auto simp: rationed_def)
    have w2: "stable (taken key) w2" "hides_codes w2"
      using preserves_runD [OF stable_estimateFees f w1(2)]
        hides_later [OF w1(3) preserves_runD [OF estimateFees_same_env f same_env_refl]] by simp_all
    show ?thesis
    proof (cases f)
      case (Inl x)
      with e f True assms(3) rs w1(1) show ?thesis by (auto simp: authorizeAndSign_def andThen_def)
    next
      case (Inr fees)
      obtain c w3 where c: "claimRequest orgId (wl_id v) req key w2 = (c, w3)" by fastforce
      from taken_claim [OF w2 c] obtain x where "c = Inl x" by blast
      moreover have "w_sent w3 = w_sent w2"
        using preserves_runD [OF claimRequest_env(1) c, of "w_sent w2"] by (simp add: silent_def)
      ultimately show ?thesis using e f True Inr c assms(3) rs w1(1) by (auto simp: authorizeAndSign_def andThen_def)
    qed
  qed
qed

lemma taken_requestSign:
  assumes "hides_codes w" and "stable (taken (computeIdempotencyKey X walletId req)) w"
    and "requestSign X orgId walletId req w = (r, w')"
  shows "\<exists>rs. w_sent w' = w_sent w @ rs \<and> length rs \<le> 30 \<and> list_all is_node_call rs \<and>
    replays (computeIdempotencyKey X walletId req) (w_db w') r \<and> ((\<exists>res. r = Inr res) \<longrightarrow> (\<forall>J. stable J w \<longrightarrow> stable J w'))"
proof -
  let ?key = "computeIdempotencyKey X walletId req"
  obtain l w1 where l: "loadPrerequisites orgId walletId w = (l, w1)" by fastforce
  have w1: "w_sent w1 = w_sent w" "stable (taken ?key) w1" "hides_codes w1"
    using preserves_runD [OF loadPrerequisites_env(1) l, of "w_sent w"] preserves_runD [OF loadPrerequisites_env(4) l assms(2)]
      hides_later [OF assms(1) preserves_runD [OF loadPrerequisites_env(3) l same_env_refl]] by (simp_all add: silent_def)
  show ?thesis
  proof (cases l)
    case (Inl e)
    with l w1(1) assms(3) show ?thesis by (auto simp: requestSign_def andThen_def replays_def)
  next
    case (Inr sv)
    obtain s v where sv: "sv = (s, v)" by fastforce
    obtain q w2 where q: "sr_findByIdempotencyKey ?key w1 = (q, w2)" by fastforce
    have w2: "w_sent w2 = w_sent w" "stable (taken ?key) w2" "hides_codes w2"
      using preserves_runD [OF sr_query_env(1) q, of "w_sent w1"] preserves_runD [OF sr_query_env(4) q w1(2)] w1(1)
        hides_later [OF w1(3) preserves_runD [OF sr_query_env(3) q same_env_refl]] by (simp_all add: silent_def)
    have st: "stable J w2" if "stable J w" for J
      by (rule preserves_runD [OF sr_query_env(4) q preserves_runD [OF loadPrerequisites_env(4) l that]])
    have run: "requestSign X orgId walletId req w = (case q of Inl e \<Rightarrow> (Inl e, w2)
        | Inr None \<Rightarrow> authorizeAndSign X orgId s v req ?key w2
        | Inr (Some row) \<Rightarrow> if sr_status row \<noteq> ''failed''
            then (Inr (buildSignResultFromRequest row), w2)
            else authorizeAndSign X orgId s v req ?key w2)"
      using l Inr sv q
      by (simp add: requestSign_def andThen_def Let_def ret_run split: sum.splits option.splits)
    have sign: ?thesis if "authorizeAndSign X orgId s v req ?key w2 = (r, w')"
      using taken_authorizeAndSign [OF w2(2,3) that] w2(1) by (auto simp: replays_def)
    show ?thesis
    proof (cases "(\<exists>e. q = Inl e) \<or> (\<exists>row. q = Inr (Some row) \<and> sr_status row \<noteq> ''failed'')")
      case True
      then show ?thesis
      proof (elim disjE exE conjE)
        fix row
        assume row: "q = Inr (Some row)" "sr_status row \<noteq> ''failed''"
        with q sr_findByIdempotencyKey_returns have "row \<in> set (signing_requests (w_db w2))" "sr_idempotency_key row = Some ?key"
          by blast+
        with row run assms(3) w2(1) st show ?thesis by (auto simp: replays_def)
      qed (use run assms(3) w2(1) in \<open>auto simp: replays_def\<close>)
    next
      case False
      then have "authorizeAndSign X orgId s v req ?key w2 = (r, w')"
        using run assms(3) by (auto split: sum.splits option.splits if_splits)
      then show ?thesis by (rule sign)
    qed
  qed
qed

text \<open>
  C23. A conflict ends the request.  The source looks for the code of a conflict on the error itself.  When
  the client of the database hides it, as a client does that wraps the errors of the server, then
  while there is a row with the key, also a failed one, and whatever runs beside it: a request for the
  same transaction asks the nodes for fees at most and never the signer; it throws, or
  replays a row that has not failed.  So a transaction that failed once is never retried.
\<close>

theorem hidden_conflicts_end_retries:
  assumes "hides_codes w" and "stable (taken (computeIdempotencyKey X walletId req)) w"
    and "requestSign X orgId walletId req w = (r, w')"
  shows "\<exists>rs. w_sent w' = w_sent w @ rs \<and> length rs \<le> 30 \<and> list_all (\<lambda>rq. is_node_call rq \<and> \<not> has_token rq) rs \<and>
    (case r of Inl e \<Rightarrow> True | Inr res \<Rightarrow> \<exists>row \<in> set (signing_requests (w_db w')).
       sr_idempotency_key row = Some (computeIdempotencyKey X walletId req) \<and> sr_status row \<noteq> ''failed'' \<and>
       res = buildSignResultFromRequest row)"
proof -
  from taken_requestSign [OF assms] obtain rs where "w_sent w' = w_sent w @ rs" "length rs \<le> 30" "list_all is_node_call rs"
    "replays (computeIdempotencyKey X walletId req) (w_db w') r" by blast
  then show ?thesis
    by (intro exI [of _ rs] conjI) (auto simp: list_all_iff replays_def dest: node_call_no_token)
qed

text \<open>A failed row, a policy that allows the transaction, a node and a signer that are up: the retry is refused.\<close>

definition retry_world :: world where
  "retry_world = calm_world (sample_db [sample_limit] [sample_row ''failed'']) stuck_net sample_env 7"

theorem hidden_conflicts_end_retries_witness:
  "fst (requestSign sample_ext ''org'' ''w'' sample_request retry_world) = Inl (JsError ''Failed query'') \<and>
   filter has_token (w_sent (snd (requestSign sample_ext ''org'' ''w'' sample_request retry_world))) = []"
proof
  let ?run = "requestSign sample_ext ''org'' ''w'' sample_request retry_world"
  show "fst ?run = Inl (JsError ''Failed query'')" by code_simp
  have w: "quiet retry_world" "w_sent retry_world = []" "w_driver retry_world = query_error"
    "signing_requests (w_db retry_world) = [sample_row ''failed'']"
    by (simp_all add: retry_world_def) (simp_all add: calm_world_def sample_db_def)
  have "hides_codes retry_world" using w(1,3) by (simp add: hides_codes_def quiet_def)
  moreover have "stable (taken (computeIdempotencyKey sample_ext ''w'' sample_request)) retry_world"
    using w(1) by (rule quiet_stable) (simp add: taken_def w(4) sample_row_def)
  ultimately obtain rs where "w_sent (snd ?run) = w_sent retry_world @ rs" "list_all (\<lambda>rq. is_node_call rq \<and> \<not> has_token rq) rs"
    using hidden_conflicts_end_retries [OF _ _ prod.collapse [symmetric]] by blast
  with w(2) show "filter has_token (w_sent (snd ?run)) = []" by (simp add: list_all_iff filter_empty_conv)
qed

text \<open>The same world without the failed row: the signer is asked.\<close>

theorem signer_sees_only_what_was_asked_witness:
  "\<exists>rq s v. filter has_token (w_sent (snd (requestSign sample_ext ''org'' ''w'' sample_request (retry_world\<lparr>w_db := sample_db [sample_limit] []\<rparr>)))) = [rq] \<and>
     own_rows (retry_world\<lparr>w_db := sample_db [sample_limit] []\<rparr>) ''org'' ''w'' s v \<and> asked_of_signer s v sample_request rq"
proof -
  let ?w = "retry_world\<lparr>w_db := sample_db [sample_limit] []\<rparr>"
  let ?run = "requestSign sample_ext ''org'' ''w'' sample_request ?w"
  have "length (filter has_token (w_sent (snd ?run))) = 1" by code_simp
  then obtain rq where one: "filter has_token (w_sent (snd ?run)) = [rq]" by (auto simp: length_Suc_conv)
  then have rq: "rq \<in> set (w_sent (snd ?run))" "has_token rq" by (auto simp: filter_eq_Cons_iff)
  have "w_sent ?w = []" by (simp add: retry_world_def calm_world_def)
  with signer_sees_only_what_was_asked [of sample_ext "''org''" "''w''" sample_request ?w] rq
  obtain s v where "own_rows ?w ''org'' ''w'' s v" "asked_of_signer s v sample_request rq"
    by (auto simp: list_all_iff)
  with one show ?thesis by blast
qed

section \<open>Retries\<close>

text \<open>
  Retries are not exclusive where the client of the database shows the code of a conflict.  A retry that has read its failed row sets it to pending and
  goes on to sign without looking again, whatever the others did to the database between
  its last look and the update: also when another retry of the same row has gone on
  in the meantime, or has signed and sent the transaction.
\<close>

theorem retries_are_not_exclusive:
  assumes "quiet w" and "is_unique_violation (w_driver w unique_violation)" and "sr_status row = ''failed''"
    and "find_row (\<lambda>r. sr_idempotency_key r = Some key) (signing_requests (w_db w)) = Some row"
  shows "\<exists>w'. claimRequest orgId walletId req key
      (w\<lparr>w_sched := (\<lambda>n d. if n = w_stmts w + 2 then others d else d)\<rparr>) = (Inr (Inr (sr_id row)), w') \<and>
    w_db w' = signing_requests_update
      (map_row (\<lambda>r. sr_id r = sr_id row) (\<lambda>r. r\<lparr>sr_status := ''pending''\<rparr>)) (others (w_db w))"
  by (rule claim_ignores_others [OF assms refl]) simp_all

text \<open>Two retries of one row: one runs while the other is about to write, and both go on.\<close>

theorem retries_are_not_exclusive_witness:
  "let key = computeIdempotencyKey sample_ext ''w'' sample_request;
       w = (sample_world ''failed'' sample_net)\<lparr>w_driver := (\<lambda>e. e)\<rparr>;
       other = (\<lambda>d. claimRequest ''org'' ''w'' sample_request key (w\<lparr>w_db := d\<rparr>))
   in fst (other (w_db w)) = Inr (Inr ''r'') \<and>
      fst (claimRequest ''org'' ''w'' sample_request key
        (w\<lparr>w_sched := (\<lambda>n d. if n = w_stmts w + 2 then w_db (snd (other d)) else d)\<rparr>)) = Inr (Inr ''r'')"
proof -
  let ?key = "computeIdempotencyKey sample_ext ''w'' sample_request"
  let ?w = "(sample_world ''failed'' sample_net)\<lparr>w_driver := (\<lambda>e. e)\<rparr>"
  have row: "find_row (\<lambda>r. sr_idempotency_key r = Some ?key) (signing_requests (w_db ?w)) = Some (sample_row ''failed'')"
    by (simp add: sample_row_def)
  have f: "quiet ?w" "is_unique_violation (w_driver ?w unique_violation)" "sr_status (sample_row ''failed'') = ''failed''" "sr_id (sample_row ''failed'') = ''r''"
    by (simp_all add: sample_row_def)
  from claim_quiet [OF f(1,2,3) row, of "''org''" "''w''" sample_request]
  have "fst (claimRequest ''org'' ''w'' sample_request ?key ?w) = Inr (Inr ''r'')"
    unfolding f(4) by (elim exE conjE) simp
  moreover from retries_are_not_exclusive [OF f(1,2,3) row, of "''org''" "''w''" sample_request
      "\<lambda>d. w_db (snd (claimRequest ''org'' ''w'' sample_request ?key (?w\<lparr>w_db := d\<rparr>)))"]
  have "fst (claimRequest ''org'' ''w'' sample_request ?key (?w\<lparr>w_sched := (\<lambda>n d. if n = w_stmts ?w + 2
      then w_db (snd (claimRequest ''org'' ''w'' sample_request ?key (?w\<lparr>w_db := d\<rparr>))) else d)\<rparr>)) = Inr (Inr ''r'')"
    unfolding f(4) by (elim exE conjE) simp
  ultimately show ?thesis by (simp add: Let_def)
qed

end
