(* ===== verification/Auth.thy ===== *)
theory Auth
  imports Repositories External
begin

text \<open>
  Authentication and authorization (\<open>libs/auth/src\<close>): \<open>AuthService\<close> manages API keys
  and bootstrap tokens, \<open>StampVerifierGuard\<close> checks the stamp of a request and attaches
  the caller, \<open>ScopesGuard\<close> checks the scopes of the caller, and the rate limiter counts
  by the caller.

  Hashes and signatures are the functions of the record \<open>ext\<close>.  A guard that lets a
  request pass returns it, with the caller attached where the source attaches it.
\<close>

section \<open>Requests and routes\<close>

record auth_user =
  au_orgId :: string
  au_apiKeyId :: string
  au_keyId :: string
  au_scopes :: "string list"

record request =
  hr_headers :: "string \<Rightarrow> string option"
  hr_rawBody :: "string option"
  hr_ip :: "string option"
  hr_user :: "auth_user option"

text \<open>The metadata the decorators leave on a handler or its class.\<close>

record route =
  rt_public :: bool
  rt_optionalStamp :: bool
  rt_scopes :: "string list option"

section \<open>StampVerifierGuard\<close>

definition valid_timestamp :: "string \<Rightarrow> bool" where
  "valid_timestamp s = (1 \<le> length s \<and> length s \<le> 16 \<and> list_all is_digit s)"

definition in_window :: "int \<Rightarrow> int \<Rightarrow> bool" where
  "in_window t timestamp = (\<not> (timestamp < t - 5 * 60 * 1000 \<or> t + 30 * 1000 < timestamp))"

definition signedPayload :: "ext \<Rightarrow> int \<Rightarrow> request \<Rightarrow> string" where
  "signedPayload X timestamp rq = show_int timestamp @ ''.''
     @ sha256b64 X (case hr_rawBody rq of None \<Rightarrow> [] | Some b \<Rightarrow> b)"

definition checkExpiry :: "api_key \<Rightarrow> unit io" where
  "checkExpiry apiKey = (case k_expires_at apiKey of None \<Rightarrow> ret ()
     | Some e \<Rightarrow> andThen now (\<lambda>t. if e < t
         then throw (UnauthorizedException ''API key has expired'') else ret ()))"

definition auth_user_of :: "api_key \<Rightarrow> auth_user" where
  "auth_user_of k = \<lparr>au_orgId = k_org_id k, au_apiKeyId = k_id k, au_keyId = k_key_id k,
     au_scopes = k_scopes k\<rparr>"

text \<open>The check of the signature and what follows it (lines 98 to 151).\<close>

definition checkSignature :: "ext \<Rightarrow> request \<Rightarrow> api_key \<Rightarrow> int \<Rightarrow> string \<Rightarrow> request io" where
  "checkSignature X rq apiKey timestamp signatureB64 =
     (let sig = fromBase64 X signatureB64 in
      if length sig < 68 \<or> 75 < length sig
      then throw (UnauthorizedException ''Invalid signature length'')
      else case verifyP256 X (k_public_key apiKey) (signedPayload X timestamp rq) sig of
        None \<Rightarrow> throw (UnauthorizedException ''Invalid signature'')
      | Some False \<Rightarrow> throw (UnauthorizedException ''Invalid signature'')
      | Some True \<Rightarrow>
          andThen now (\<lambda>t.
          andThen (attempt (apiKey_update (k_id apiKey) (\<lambda>k. k\<lparr>k_last_used_at := Some t\<rparr>))) (\<lambda>_.
          ret (rq\<lparr>hr_user := Some (auth_user_of apiKey)\<rparr>))))"

definition verifyStamp :: "ext \<Rightarrow> request \<Rightarrow> string \<Rightarrow> request io" where
  "verifyStamp X rq stamp = (case js_split CHR ''.'' stamp of
     [signatureB64, timestampMs, keyId] \<Rightarrow>
       if \<not> valid_timestamp timestampMs
       then throw (UnauthorizedException ''Invalid timestamp in stamp'')
       else (let timestamp = int (dec_value timestampMs) in
         andThen now (\<lambda>t.
         if \<not> in_window t timestamp
         then throw (UnauthorizedException ''Stamp timestamp is out of valid range'')
         else andThen (apiKey_findByKeyId keyId) (\<lambda>found. case found of
             None \<Rightarrow> throw (UnauthorizedException ''API key not found'')
           | Some apiKey \<Rightarrow>
               if k_status apiKey \<noteq> ''active''
               then throw (UnauthorizedException ''API key is not active'')
               else andThen (checkExpiry apiKey) (\<lambda>_.
                    checkSignature X rq apiKey timestamp signatureB64))))
   | _ \<Rightarrow> throw (UnauthorizedException ''Invalid stamp format''))"

text \<open>\<open>headers['x-stamp']\<close>, where an empty header counts as missing.\<close>

definition stamp_header :: "request \<Rightarrow> string option" where
  "stamp_header rq = (case hr_headers rq ''x-stamp'' of None \<Rightarrow> None
     | Some s \<Rightarrow> if s = [] then None else Some s)"

definition stampVerifier :: "ext \<Rightarrow> route \<Rightarrow> request \<Rightarrow> request io" where
  "stampVerifier X rt rq =
     (if rt_public rt then ret rq
      else case stamp_header rq of
        None \<Rightarrow> if rt_optionalStamp rt then ret rq
                else throw (UnauthorizedException ''Missing X-Stamp header'')
      | Some stamp \<Rightarrow> verifyStamp X rq stamp)"

definition optionalStampVerifier :: "ext \<Rightarrow> route \<Rightarrow> request \<Rightarrow> request io" where
  "optionalStampVerifier X rt rq =
     (if rt_public rt then ret rq
      else case stamp_header rq of None \<Rightarrow> ret rq | Some _ \<Rightarrow> stampVerifier X rt rq)"

section \<open>ScopesGuard and the rate limiter\<close>

definition scopesGuard :: "route \<Rightarrow> request \<Rightarrow> request io" where
  "scopesGuard rt rq =
     (let required = (case rt_scopes rt of None \<Rightarrow> [] | Some s \<Rightarrow> s);
          scopes = (case hr_user rq of None \<Rightarrow> [] | Some u \<Rightarrow> au_scopes u)
      in if required = [] then ret rq
         else if ''*'' \<in> set scopes \<or> list_ex (\<lambda>s. s \<in> set scopes) required then ret rq
         else throw (ForbiddenException ''insufficient_scope''))"

definition getTracker :: "request \<Rightarrow> string" where
  "getTracker rq =
     (let byIp = ''ip:'' @ (case hr_ip rq of None \<Rightarrow> ''unknown'' | Some a \<Rightarrow> a)
      in case hr_user rq of None \<Rightarrow> byIp
         | Some u \<Rightarrow> if au_apiKeyId u = [] then byIp else ''key:'' @ au_apiKeyId u)"

section \<open>AuthService\<close>

definition bootstrap_default_scopes :: "string list" where
  "bootstrap_default_scopes = [''key:read'', ''key:write'', ''wallet:read'', ''wallet:create'',
     ''policy:read'', ''policy:write'', ''user:read'', ''user:write'']"

definition valid_scopes :: "string set" where
  "valid_scopes = set (bootstrap_default_scopes @ [''wallet:sign''])"

record register_api_key =
  rk_name :: string
  rk_publicKey :: string
  rk_scopes :: "string list option"

record api_key_view =
  kv_id :: string
  kv_keyId :: string
  kv_name :: string
  kv_publicKey :: string
  kv_scopes :: "string list"
  kv_createdAt :: int

text \<open>The digest of the token and the stored digest are compared as bytes.\<close>

definition validateBootstrapToken :: "ext \<Rightarrow> string \<Rightarrow> string \<Rightarrow> bool io" where
  "validateBootstrapToken X orgId token =
     andThen (org_findById orgId) (\<lambda>found.
     case (case found of None \<Rightarrow> None | Some org \<Rightarrow> o_bootstrap_token_hash org) of
       None \<Rightarrow> throw (BadRequestException ''No bootstrap token available for this organization'')
     | Some stored \<Rightarrow>
         if stored = []
         then throw (BadRequestException ''No bootstrap token available for this organization'')
         else if fromHex X (sha256hex X token) \<noteq> fromHex X stored
         then throw (BadRequestException ''Invalid bootstrap token'')
         else ret True)"

definition assertP256PublicKey :: "ext \<Rightarrow> string \<Rightarrow> js_error + unit" where
  "assertP256PublicKey X pem = (case keyType X pem of
     None \<Rightarrow> Inl (BadRequestException ''publicKey must be a valid P-256 (secp256r1) SPKI PEM public key'')
   | Some (ty, crv) \<Rightarrow> if ty \<noteq> ''ec'' \<or> crv \<noteq> Some ''P-256''
       then Inl (BadRequestException ''publicKey must be an EC P-256 (secp256r1) SPKI PEM public key'')
       else Inr ())"

text \<open>An optional string argument that is absent or empty is falsy.\<close>

definition given :: "string option \<Rightarrow> string option" where
  "given x = (case x of None \<Rightarrow> None | Some s \<Rightarrow> if s = [] then None else Some s)"

definition authorizeRegistration :: "ext \<Rightarrow> string \<Rightarrow> string option \<Rightarrow> string option \<Rightarrow> unit io" where
  "authorizeRegistration X orgId bootstrapToken requestingKeyId =
     (case given bootstrapToken of
        Some token \<Rightarrow> andThen (validateBootstrapToken X orgId token) (\<lambda>_. ret ())
      | None \<Rightarrow> (case given requestingKeyId of
          Some keyId \<Rightarrow> andThen (apiKey_hasScope keyId ''key:write'') (\<lambda>ok.
            if ok then ret ()
            else throw (BadRequestException ''API key does not have key:write scope''))
        | None \<Rightarrow> throw (BadRequestException ''Either bootstrap token or valid API key required'')))"

definition chooseScopes :: "string list option \<Rightarrow> bool \<Rightarrow> js_error + string list" where
  "chooseScopes asked bootstrap =
     (let requested = (case asked of None \<Rightarrow> None | Some s \<Rightarrow> if s = [] then None else Some s)
      in case requested of
        None \<Rightarrow> if bootstrap then Inr bootstrap_default_scopes
          else Inl (BadRequestException ''Scopes are required for stamp-authenticated API key registration'')
      | Some scopes \<Rightarrow>
          if ''*'' \<in> set scopes
          then Inl (BadRequestException (''Wildcard scope '' @ quoted ''*''
                 @ '' is not allowed; specify explicit scopes''))
          else if \<not> set scopes \<subseteq> valid_scopes
          then Inl (BadRequestException (''Unknown scope(s): ''
                 @ js_join '', '' (filter (\<lambda>s. s \<notin> valid_scopes) scopes)))
          else Inr scopes)"

definition insertApiKey :: "string \<Rightarrow> register_api_key \<Rightarrow> string \<Rightarrow> string list \<Rightarrow> api_key io" where
  "insertApiKey orgId data keyId scopes =
     catch (apiKey_create orgId (rk_name data) (rk_publicKey data) keyId scopes ''active'')
       (\<lambda>err. if is_unique_violation err
         then throw (BadRequestException ''An API key with the same public key already exists'')
         else throw err)"

definition api_key_json :: "api_key \<Rightarrow> (string \<times> json) list" where
  "api_key_json k = [(''apiKeyId'', JStr (k_id k)), (''keyId'', JStr (k_key_id k)),
     (''name'', JStr (k_name k))]"

text \<open>Lines 55 to 106: the checks, which end with the identifier and the scopes of the key.\<close>

definition prepareRegistration :: "ext \<Rightarrow> string \<Rightarrow> register_api_key \<Rightarrow> string option \<Rightarrow> string option \<Rightarrow>
    (string \<times> string list) io" where
  "prepareRegistration X orgId data bootstrapToken requestingKeyId =
     andThen (org_findById orgId) (\<lambda>org.
     if org = None then throw (NotFoundException (''Organization '' @ orgId @ '' not found''))
     else andThen (authorizeRegistration X orgId bootstrapToken requestingKeyId) (\<lambda>_.
     andThen (lift_res (assertP256PublicKey X (rk_publicKey data))) (\<lambda>_.
     andThen randomUUID (\<lambda>keyId.
     andThen (lift_res (chooseScopes (rk_scopes data) (given bootstrapToken \<noteq> None))) (\<lambda>scopes.
     ret (keyId, scopes))))))"

text \<open>Lines 133 to 159: the bootstrap token is used up, the registration logged.\<close>

definition finishRegistration :: "string \<Rightarrow> bool \<Rightarrow> api_key \<Rightarrow> api_key_view io" where
  "finishRegistration orgId bootstrap k =
     andThen (if bootstrap
        then org_update orgId (\<lambda>o'. o'\<lparr>o_bootstrap_token_hash := None\<rparr>) else ret None) (\<lambda>_.
     andThen (audit_create orgId None None ''api_key_created'' ''success''
        (Some (JObj (api_key_json k @ [(''scopes'', JArr (map JStr (k_scopes k)))])))) (\<lambda>_.
     ret \<lparr>kv_id = k_id k, kv_keyId = k_key_id k, kv_name = k_name k, kv_publicKey = k_public_key k,
          kv_scopes = k_scopes k, kv_createdAt = k_created_at k\<rparr>))"

definition registerApiKey :: "ext \<Rightarrow> string \<Rightarrow> register_api_key \<Rightarrow> string option \<Rightarrow> string option \<Rightarrow>
    api_key_view io" where
  "registerApiKey X orgId data bootstrapToken requestingKeyId =
     andThen (prepareRegistration X orgId data bootstrapToken requestingKeyId) (\<lambda>(keyId, scopes).
     andThen (insertApiKey orgId data keyId scopes) (finishRegistration orgId (given bootstrapToken \<noteq> None)))"

record api_key_listed =
  kl_id :: string
  kl_keyId :: string
  kl_name :: string
  kl_scopes :: "string list"
  kl_lastUsedAt :: "int option"
  kl_expiresAt :: "int option"
  kl_createdAt :: int

definition listApiKeys :: "string \<Rightarrow> api_key_listed list io" where
  "listApiKeys orgId = andThen (apiKey_findByOrgId orgId (Some ''active'')) (\<lambda>ks.
     ret (map (\<lambda>k. \<lparr>kl_id = k_id k, kl_keyId = k_key_id k, kl_name = k_name k, kl_scopes = k_scopes k,
       kl_lastUsedAt = k_last_used_at k, kl_expiresAt = k_expires_at k, kl_createdAt = k_created_at k\<rparr>) ks))"

definition revokeApiKey :: "string \<Rightarrow> string \<Rightarrow> unit io" where
  "revokeApiKey orgId keyId =
     andThen (apiKey_findByKeyId keyId) (\<lambda>found. case found of
       None \<Rightarrow> throw (NotFoundException (''API key '' @ keyId @ '' not found''))
     | Some k \<Rightarrow>
         if k_org_id k \<noteq> orgId
         then throw (BadRequestException ''API key does not belong to this organization'')
         else andThen now (\<lambda>t.
              andThen (apiKey_update (k_id k) (\<lambda>r. r\<lparr>k_status := ''revoked'', k_revoked_at := Some t\<rparr>)) (\<lambda>_.
              andThen (audit_create orgId None None ''api_key_revoked'' ''success''
                 (Some (JObj (api_key_json k)))) (\<lambda>_. ret ()))))"

definition resolveOrgIdFromBootstrapToken :: "ext \<Rightarrow> string \<Rightarrow> string option io" where
  "resolveOrgIdFromBootstrapToken X token =
     andThen (org_findByBootstrapTokenHash (sha256hex X token)) (\<lambda>org. ret (map_option o_id org))"

definition generateBootstrapToken :: "ext \<Rightarrow> string \<Rightarrow> string io" where
  "generateBootstrapToken X orgId =
     andThen randomUUID (\<lambda>token.
     andThen (org_update orgId (\<lambda>o'. o'\<lparr>o_bootstrap_token_hash := Some (sha256hex X token)\<rparr>)) (\<lambda>_.
     ret token))"

section \<open>Properties\<close>

lemma checkExpiry_returns:
  assumes "checkExpiry k w = (Inr u, w')"
  shows "case k_expires_at k of None \<Rightarrow> True | Some e \<Rightarrow> \<exists>m. w_clock w m \<le> e"
  using assms by (auto simp: checkExpiry_def now_def run_defs not_less split: option.splits if_splits)

lemma checkSignature_returns:
  assumes "checkSignature X rq k ts sig w = (Inr rq', w')"
  shows "verifyP256 X (k_public_key k) (signedPayload X ts rq) (fromBase64 X sig) = Some True \<and>
    rq' = rq\<lparr>hr_user := Some (auth_user_of k)\<rparr>"
  using assms
  by (auto simp: checkSignature_def Let_def now_def run_defs
      split: if_splits option.splits bool.splits prod.splits)

lemma verifyStamp_returns:
  assumes "verifyStamp X rq stamp w = (Inr rq', w')"
  shows "\<exists>sig ts apiKey. js_split CHR ''.'' stamp = [sig, ts, k_key_id apiKey] \<and>
    apiKey \<in> set (api_keys (w_sched w (w_stmts w) (w_db w))) \<and> k_status apiKey = ''active'' \<and>
    (case k_expires_at apiKey of None \<Rightarrow> True | Some e \<Rightarrow> \<exists>m. w_clock w m \<le> e) \<and>
    in_window (w_clock w (w_reads w)) (int (dec_value ts)) \<and>
    verifyP256 X (k_public_key apiKey) (signedPayload X (int (dec_value ts)) rq) (fromBase64 X sig) = Some True \<and>
    rq' = rq\<lparr>hr_user := Some (auth_user_of apiKey)\<rparr>"
proof -
  from assms obtain sig ts kid where parts: "js_split CHR ''.'' stamp = [sig, ts, kid]"
    by (auto simp: verifyStamp_def throw_run split: list.splits)
  let ?w1 = "w\<lparr>w_reads := Suc (w_reads w)\<rparr>"
  from assms parts have win: "in_window (w_clock w (w_reads w)) (int (dec_value ts))"
    and rest: "andThen (apiKey_findByKeyId kid) (\<lambda>found. case found of
        None \<Rightarrow> throw (UnauthorizedException ''API key not found'')
      | Some apiKey \<Rightarrow> if k_status apiKey \<noteq> ''active''
          then throw (UnauthorizedException ''API key is not active'')
          else andThen (checkExpiry apiKey) (\<lambda>_. checkSignature X rq apiKey (int (dec_value ts)) sig)) ?w1
      = (Inr rq', w')"
    by (auto simp: verifyStamp_def andThen_Inr [OF now_run] throw_run Let_def split: if_splits)
  from rest obtain found w2 where q: "apiKey_findByKeyId kid ?w1 = (Inr found, w2)"
    and r: "(case found of None \<Rightarrow> throw (UnauthorizedException ''API key not found'')
      | Some apiKey \<Rightarrow> if k_status apiKey \<noteq> ''active''
          then throw (UnauthorizedException ''API key is not active'')
          else andThen (checkExpiry apiKey) (\<lambda>_. checkSignature X rq apiKey (int (dec_value ts)) sig)) w2
      = (Inr rq', w')"
    by (rule andThen_returns)
  note row = query_outcome [OF q [unfolded apiKey_findByKeyId_def]]
  from r obtain k where k: "found = Some k" "k_status k = ''active''"
    and e: "andThen (checkExpiry k) (\<lambda>_. checkSignature X rq k (int (dec_value ts)) sig) w2 = (Inr rq', w')"
    by (auto simp: throw_run split: option.splits if_splits)
  from e obtain u w3 where c: "checkExpiry k w2 = (Inr u, w3)"
    and s: "checkSignature X rq k (int (dec_value ts)) sig w3 = (Inr rq', w')" by (rule andThen_returns)
  have exp: "case k_expires_at k of None \<Rightarrow> True | Some e \<Rightarrow> \<exists>m. w_clock w m \<le> e"
    using checkExpiry_returns [OF c] row by (simp split: option.splits)
  have "find_row (\<lambda>r. k_key_id r = kid) (api_keys (w_sched w (w_stmts w) (w_db w))) = Some k"
    using row k(1) by simp
  from find_row_Some [OF this] have "k \<in> set (api_keys (w_sched w (w_stmts w) (w_db w)))" "k_key_id k = kid"
    by simp_all
  with parts win exp k(2) checkSignature_returns [OF s] show ?thesis by blast
qed

text \<open>
  C4. Authenticity.  A request that passes \<open>StampVerifierGuard\<close> is either let through
  unchanged, on a public route or, without a stamp, on one that declares the stamp
  optional; or it carries a stamp whose key is active and not expired, whose time lies at
  most five minutes back and thirty seconds ahead, and whose signature verifies under that
  key over the time and the hash of the raw body, and then the caller attached to it is
  the owner of that key with the scopes of that key.  This holds whatever runs beside it.
\<close>

theorem stamped_requests_are_authentic:
  assumes "stampVerifier X rt rq w = (Inr rq', w')"
  shows "(rq' = rq \<and> (rt_public rt \<or> (stamp_header rq = None \<and> rt_optionalStamp rt))) \<or>
    (\<exists>stamp sig ts apiKey. stamp_header rq = Some stamp \<and>
      js_split CHR ''.'' stamp = [sig, ts, k_key_id apiKey] \<and>
      apiKey \<in> set (api_keys (w_sched w (w_stmts w) (w_db w))) \<and> k_status apiKey = ''active'' \<and>
      (case k_expires_at apiKey of None \<Rightarrow> True | Some e \<Rightarrow> \<exists>m. w_clock w m \<le> e) \<and>
      w_clock w (w_reads w) - 300000 \<le> int (dec_value ts) \<and>
      int (dec_value ts) \<le> w_clock w (w_reads w) + 30000 \<and>
      verifyP256 X (k_public_key apiKey) (signedPayload X (int (dec_value ts)) rq) (fromBase64 X sig) = Some True \<and>
      rq' = rq\<lparr>hr_user := Some (auth_user_of apiKey)\<rparr>)"
proof (cases "rt_public rt \<or> stamp_header rq = None")
  case True
  with assms show ?thesis by (auto simp: stampVerifier_def run_defs split: if_splits)
next
  case False
  then obtain stamp where stamp: "stamp_header rq = Some stamp" by auto
  with False assms have "verifyStamp X rq stamp w = (Inr rq', w')" by (simp add: stampVerifier_def)
  from verifyStamp_returns [OF this] stamp show ?thesis
    by (auto simp: in_window_def not_less)
qed

text \<open>A key, a stamp of its owner and a database for the examples.\<close>

definition sample_key :: api_key where
  "sample_key = \<lparr>k_id = ''k'', k_org_id = ''org'', k_name = ''main'', k_public_key = ''pem'',
     k_key_id = ''kid'', k_scopes = [''wallet:read''], k_status = ''active'', k_last_used_at = None,
     k_expires_at = None, k_created_at = 0, k_revoked_at = None\<rparr>"

definition sample_org :: organization where
  "sample_org = \<lparr>o_id = ''org'', o_name = ''Org'', o_slug = ''org'', o_status = ''active'',
     o_plan = ''starter'', o_bootstrap_token_hash = Some ''token'', o_created_at = 0, o_updated_at = 0\<rparr>"

definition auth_world :: world where
  "auth_world = calm_world (empty_db\<lparr>organizations := [sample_org], api_keys := [sample_key]\<rparr>)
     (\<lambda>_ _. NetError ''down'') Map.empty 1000"

definition sample_body :: string where
  "sample_body = replicate 70 CHR ''b''"

definition sample_sig :: string where
  "sample_sig = ''1000'' @ sample_body"

definition sample_stamp :: string where
  "sample_stamp = sample_sig @ ''.1000.kid''"

definition stamped_request :: request where
  "stamped_request = \<lparr>hr_headers = Map.empty(''x-stamp'' \<mapsto> sample_stamp),
     hr_rawBody = Some sample_body, hr_ip = None, hr_user = None\<rparr>"

text \<open>A verifier for the examples: a signature starts with the first four characters of the payload.\<close>

definition lenient_ext :: ext where
  "lenient_ext = sample_ext\<lparr>verifyP256 := (\<lambda>k m s. Some (take 4 s = take 4 m))\<rparr>"

definition protected_route :: route where
  "protected_route = \<lparr>rt_public = False, rt_optionalStamp = False, rt_scopes = Some [''wallet:read'']\<rparr>"

lemma stamped_request_passes:
  "fst (stampVerifier lenient_ext protected_route stamped_request auth_world) =
     Inr (stamped_request\<lparr>hr_user := Some (auth_user_of sample_key)\<rparr>)"
proof -
  have h: "stamp_header stamped_request = Some sample_stamp" by code_simp
  have s: "js_split CHR ''.'' sample_stamp = [sample_sig, ''1000'', ''kid'']"
    by code_simp
  have t: "valid_timestamp ''1000''" "int (dec_value ''1000'') = 1000" "in_window 1000 1000" by code_simp+
  have sig: "length (fromBase64 lenient_ext sample_sig) = 74"
    "verifyP256 lenient_ext (k_public_key sample_key) (signedPayload lenient_ext 1000 stamped_request)
       (fromBase64 lenient_ext sample_sig) = Some True"
    by code_simp+
  have w: "w_clock auth_world = (\<lambda>_. 1000)" "quiet auth_world" "api_keys (w_db auth_world) = [sample_key]"
    by (simp_all add: auth_world_def calm_world_def empty_db_def quiet_def)
  have k: "k_status sample_key = ''active''" "k_expires_at sample_key = None" "k_key_id sample_key = ''kid''"
    by (simp_all add: sample_key_def)
  show ?thesis
    by (simp add: stampVerifier_def protected_route_def h verifyStamp_def s t Let_def now_run andThen_def
        w k apiKey_findByKeyId_def query_quiet checkExpiry_def checkSignature_def sig ret_run attempt_def
        split: prod.splits)
qed

theorem stamped_requests_are_authentic_witness:
  "\<exists>rq' w'. stampVerifier lenient_ext protected_route stamped_request auth_world = (Inr rq', w') \<and>
     hr_user rq' = Some (auth_user_of sample_key) \<and>
     (\<exists>apiKey. apiKey \<in> set (api_keys (w_db auth_world)) \<and> k_status apiKey = ''active'')"
proof -
  obtain rq' w' where run: "stampVerifier lenient_ext protected_route stamped_request auth_world = (Inr rq', w')"
    and u: "rq' = stamped_request\<lparr>hr_user := Some (auth_user_of sample_key)\<rparr>"
    using stamped_request_passes
    by (cases "stampVerifier lenient_ext protected_route stamped_request auth_world") auto
  have "w_sched auth_world = (\<lambda>_ d. d)" by (simp add: auth_world_def calm_world_def)
  with stamped_requests_are_authentic [OF run] run u show ?thesis
    by (auto simp: protected_route_def)
qed

lemma checkSignature_accepts:
  assumes "68 \<le> length (fromBase64 X sig)" and "length (fromBase64 X sig) \<le> 75"
    and "verifyP256 X (k_public_key k) (signedPayload X ts rq) (fromBase64 X sig) = Some True"
  shows "fst (checkSignature X rq k ts sig w) = Inr (rq\<lparr>hr_user := Some (auth_user_of k)\<rparr>)"
  using assms by (simp add: checkSignature_def Let_def now_run andThen_def ret_run attempt_def split: prod.splits)

lemma checkSignature_accepted:
  assumes "checkSignature X rq k ts sig w = (Inr rq', w')"
  shows "68 \<le> length (fromBase64 X sig) \<and> length (fromBase64 X sig) \<le> 75"
  using assms by (auto simp: checkSignature_def Let_def throw_run not_less split: if_splits)

lemma verifyStamp_run:
  assumes "js_split CHR ''.'' stamp = [sig, ts, kid]" and "valid_timestamp ts"
    and "in_window (w_clock w (w_reads w)) (int (dec_value ts))" and "quiet w"
    and "find_row (\<lambda>r. k_key_id r = kid) (api_keys (w_db w)) = Some k" and "k_status k = ''active''"
    and "k_expires_at k = None"
  shows "verifyStamp X rq stamp w =
    checkSignature X rq k (int (dec_value ts)) sig (tick (w\<lparr>w_reads := Suc (w_reads w)\<rparr>))"
  using assms
  by (simp add: verifyStamp_def Let_def now_run andThen_def apiKey_findByKeyId_def query_quiet
      checkExpiry_def ret_run)

text \<open>
  A stamp is bound to the body and the time, not to the route and not to one use: in a quiet
  world a stamp that was accepted is accepted again on every other protected route for the
  same body, as long as the clock stays within the window and the key has not expired.
\<close>

theorem stamp_is_not_bound_to_the_route:
  assumes "quiet w" and "stampVerifier X rt rq w = (Inr rq', w')" and "\<not> rt_public rt"
    and "stamp_header rq = Some stamp" and "js_split CHR ''.'' stamp = [sig, ts, kid]"
    and "find_row (\<lambda>r. k_key_id r = kid) (api_keys (w_db w)) = Some k" and "k_expires_at k = None"
    and "\<not> rt_public rt2" and "quiet w2" and "api_keys (w_db w2) = api_keys (w_db w)"
    and "in_window (w_clock w2 (w_reads w2)) (int (dec_value ts))"
  shows "fst (stampVerifier X rt2 rq w2) = Inr rq'"
proof -
  have v: "verifyStamp X rq stamp w = (Inr rq', w')" using assms(2-4) by (simp add: stampVerifier_def)
  have ts: "valid_timestamp ts"
    using v assms(5) by (auto simp: verifyStamp_def throw_run split: if_splits)
  from verifyStamp_returns [OF v] assms(5) obtain k' where
    win: "in_window (w_clock w (w_reads w)) (int (dec_value ts))" by auto
  have act: "k_status k = ''active''"
    using v assms(1,5,6) win ts
    by (auto simp: verifyStamp_def Let_def now_run andThen_def apiKey_findByKeyId_def query_quiet throw_run
        split: if_splits)
  have run: "verifyStamp X rq stamp w =
      checkSignature X rq k (int (dec_value ts)) sig (tick (w\<lparr>w_reads := Suc (w_reads w)\<rparr>))"
    by (rule verifyStamp_run) (use assms ts win act in simp_all)
  have run2: "verifyStamp X rq stamp w2 =
      checkSignature X rq k (int (dec_value ts)) sig (tick (w2\<lparr>w_reads := Suc (w_reads w2)\<rparr>))"
    by (rule verifyStamp_run) (use assms ts act in simp_all)
  from run v have c: "checkSignature X rq k (int (dec_value ts)) sig (tick (w\<lparr>w_reads := Suc (w_reads w)\<rparr>))
      = (Inr rq', w')" by simp
  have "fst (verifyStamp X rq stamp w2) = Inr rq'"
    unfolding run2 using checkSignature_accepts checkSignature_accepted [OF c] checkSignature_returns [OF c]
    by metis
  then show ?thesis using assms(4,8) by (simp add: stampVerifier_def)
qed

theorem stamp_is_not_bound_to_the_route_witness:
  "fst (stampVerifier lenient_ext (protected_route\<lparr>rt_scopes := Some [''wallet:sign'']\<rparr>) stamped_request
      (auth_world\<lparr>w_reads := 9\<rparr>)) = Inr (stamped_request\<lparr>hr_user := Some (auth_user_of sample_key)\<rparr>)"
proof -
  obtain rq' w' where run: "stampVerifier lenient_ext protected_route stamped_request auth_world = (Inr rq', w')"
    and u: "rq' = stamped_request\<lparr>hr_user := Some (auth_user_of sample_key)\<rparr>"
    using stamped_request_passes
    by (cases "stampVerifier lenient_ext protected_route stamped_request auth_world") auto
  have h: "stamp_header stamped_request = Some sample_stamp" by code_simp
  have s: "js_split CHR ''.'' sample_stamp = [sample_sig, ''1000'', ''kid'']" by code_simp
  have w: "w_clock auth_world = (\<lambda>_. 1000)" "quiet auth_world" "api_keys (w_db auth_world) = [sample_key]"
    by (simp_all add: auth_world_def calm_world_def empty_db_def quiet_def)
  have t: "in_window 1000 (int (dec_value ''1000''))" by code_simp
  have k: "k_expires_at sample_key = None" "k_key_id sample_key = ''kid''" by (simp_all add: sample_key_def)
  show ?thesis
    using stamp_is_not_bound_to_the_route [OF _ run _ h s, of sample_key
        "protected_route\<lparr>rt_scopes := Some [''wallet:sign'']\<rparr>" "auth_world\<lparr>w_reads := 9\<rparr>"] w k t u
    by (simp add: protected_route_def)
qed

text \<open>
  A revoked key is refused: after \<open>revokeApiKey\<close> has returned, no stamp with the
  identifier of that key passes, whatever it signs.
\<close>

lemma revokeApiKey_effect:
  assumes "quiet w" and "revokeApiKey orgId kid w = (Inr (), w')"
  shows "\<exists>k. find_row (\<lambda>r. k_key_id r = kid) (api_keys (w_db w')) = Some k \<and> k_status k = ''revoked'' \<and>
    k_org_id k = orgId"
proof -
  from assms obtain k where k: "find_row (\<lambda>r. k_key_id r = kid) (api_keys (w_db w)) = Some k" "k_org_id k = orgId"
    by (auto simp: revokeApiKey_def andThen_def apiKey_findByKeyId_def query_quiet throw_run
        split: option.splits if_splits)
  define w1 where "w1 = (tick w)\<lparr>w_reads := Suc (w_reads w)\<rparr>"
  define w2 where "w2 = (tick w1)\<lparr>w_db := api_keys_update (map_row (\<lambda>r. k_id r = k_id k)
    (\<lambda>r. r\<lparr>k_status := ''revoked'', k_revoked_at := Some (w_clock w (w_reads w))\<rparr>)) (w_db w)\<rparr>"
  have q: "quiet w1" "quiet w2" using assms(1) by (simp_all add: w1_def w2_def)
  have "apiKey_update (k_id k) (\<lambda>r. r\<lparr>k_status := ''revoked'', k_revoked_at := Some (w_clock w (w_reads w))\<rparr>) w1
      = (Inr (map_option (\<lambda>r. r\<lparr>k_status := ''revoked'', k_revoked_at := Some (w_clock w (w_reads w))\<rparr>)
          (find_row (\<lambda>r. k_id r = k_id k) (api_keys (w_db w)))), w2)"
    using q(1) by (simp add: apiKey_update_def update_row_def stmt_quiet Let_def w2_def w1_def)
  then have "\<exists>e. w' = after_audit w2 e"
    using assms k q
    by (auto simp: revokeApiKey_def andThen_def apiKey_findByKeyId_def query_quiet now_run
        w1_def [symmetric] audit_create_quiet ret_run)
  then have "api_keys (w_db w') = api_keys (w_db w2)" by auto
  with k show ?thesis by (simp add: w2_def find_row_map_row_inv)
qed

theorem revoked_key_is_refused:
  assumes "quiet w" and "revokeApiKey orgId kid w = (Inr (), w')"
    and "js_split CHR ''.'' stamp = [sig, ts, kid]"
  shows "\<exists>m. fst (verifyStamp X rq stamp w') = Inl (UnauthorizedException m)"
proof -
  have q: "quiet w'"
  proof -
    have "preserves quiet (revokeApiKey orgId kid)"
      unfolding revokeApiKey_def apiKey_findByKeyId_def apiKey_update_def by (intro preserves_intros)
    from preserves_runD [OF this assms(2,1)] show ?thesis .
  qed
  obtain k where "find_row (\<lambda>r. k_key_id r = kid) (api_keys (w_db w')) = Some k" "k_status k = ''revoked''"
    using revokeApiKey_effect [OF assms(1,2)] by blast
  with q assms(3) show ?thesis
    by (auto simp: verifyStamp_def Let_def now_run andThen_def apiKey_findByKeyId_def query_quiet throw_run)
qed

theorem revoked_key_is_refused_witness:
  "\<exists>m. fst (verifyStamp lenient_ext stamped_request sample_stamp
     (snd (revokeApiKey ''org'' ''kid'' auth_world))) = Inl (UnauthorizedException m)"
proof -
  have s: "js_split CHR ''.'' sample_stamp = [sample_sig, ''1000'', ''kid'']" by code_simp
  have "fst (revokeApiKey ''org'' ''kid'' auth_world) = Inr ()" by code_simp
  then obtain w' where run: "revokeApiKey ''org'' ''kid'' auth_world = (Inr (), w')"
    by (cases "revokeApiKey ''org'' ''kid'' auth_world") auto
  have "quiet auth_world" by (simp add: auth_world_def)
  from revoked_key_is_refused [OF this run s] run show ?thesis by simp
qed

text \<open>What the parts of a registration guarantee when they return.\<close>

lemma chooseScopes_valid:
  assumes "chooseScopes asked bootstrap = Inr scopes"
  shows "set scopes \<subseteq> valid_scopes \<and> ''*'' \<notin> set scopes \<and>
    (asked = None \<or> asked = Some [] \<longrightarrow> bootstrap \<and> ''wallet:sign'' \<notin> set scopes)"
  using assms
  by (auto simp: chooseScopes_def Let_def valid_scopes_def bootstrap_default_scopes_def
      split: option.splits if_splits)

lemma insertApiKey_returns:
  assumes "insertApiKey orgId data keyId scopes w = (Inr k, w')"
  shows "k_org_id k = orgId \<and> k_scopes k = scopes \<and> k_status k = ''active''"
  using assms
  by (auto simp: insertApiKey_def apiKey_create_def create_row_def run_defs randomUUID_def now_def stmt_def
      Let_def split: prod.splits sum.splits if_splits option.splits)

lemma validateBootstrapToken_returns:
  assumes "validateBootstrapToken X orgId token w = (Inr b, w')"
  shows "\<exists>org h. org \<in> set (organizations (w_sched w (w_stmts w) (w_db w))) \<and> o_id org = orgId \<and>
    o_bootstrap_token_hash org = Some h \<and> fromHex X (sha256hex X token) = fromHex X h"
proof -
  from assms obtain found w1 where q: "org_findById orgId w = (Inr found, w1)"
    and r: "(case (case found of None \<Rightarrow> None | Some org \<Rightarrow> o_bootstrap_token_hash org) of
       None \<Rightarrow> throw (BadRequestException ''No bootstrap token available for this organization'')
     | Some stored \<Rightarrow>
         if stored = []
         then throw (BadRequestException ''No bootstrap token available for this organization'')
         else if fromHex X (sha256hex X token) \<noteq> fromHex X stored
         then throw (BadRequestException ''Invalid bootstrap token'')
         else ret True) w1 = (Inr b, w')"
    unfolding validateBootstrapToken_def by (rule andThen_returns)
  from r obtain org h where org: "found = Some org" "o_bootstrap_token_hash org = Some h"
    "fromHex X (sha256hex X token) = fromHex X h"
    by (auto simp: throw_run split: option.splits if_splits)
  have "find_row (\<lambda>r. o_id r = orgId) (organizations (w_sched w (w_stmts w) (w_db w))) = Some org"
    using query_outcome [OF q [unfolded org_findById_def]] org(1) by simp
  from find_row_Some [OF this] org show ?thesis by blast
qed

lemma hasScope_returns:
  assumes "apiKey_hasScope keyId scope w = (Inr True, w')"
  shows "\<exists>k. k \<in> set (api_keys (w_sched w (w_stmts w) (w_db w))) \<and> k_key_id k = keyId \<and> scope \<in> set (k_scopes k)"
proof -
  from assms obtain found w1 k where q: "apiKey_findByKeyId keyId w = (Inr found, w1)"
    and k: "found = Some k" "scope \<in> set (k_scopes k)"
    by (auto simp: apiKey_hasScope_def andThen_def ret_run split: prod.splits sum.splits option.splits)
  have "find_row (\<lambda>r. k_key_id r = keyId) (api_keys (w_sched w (w_stmts w) (w_db w))) = Some k"
    using query_outcome [OF q [unfolded apiKey_findByKeyId_def]] k(1) by simp
  from find_row_Some [OF this] k show ?thesis by blast
qed

text \<open>Who authorized a registration, in a given state of the database.\<close>

definition authorized :: "ext \<Rightarrow> string \<Rightarrow> string option \<Rightarrow> string option \<Rightarrow> db \<Rightarrow> bool" where
  "authorized X orgId bootstrapToken requestingKeyId d \<longleftrightarrow>
     (\<exists>token org h. given bootstrapToken = Some token \<and> org \<in> set (organizations d) \<and> o_id org = orgId \<and>
        o_bootstrap_token_hash org = Some h \<and> fromHex X (sha256hex X token) = fromHex X h) \<or>
     (\<exists>keyId k. given bootstrapToken = None \<and> given requestingKeyId = Some keyId \<and>
        k \<in> set (api_keys d) \<and> k_key_id k = keyId \<and> ''key:write'' \<in> set (k_scopes k))"

lemma authorizeRegistration_returns:
  assumes "authorizeRegistration X orgId t r w = (Inr u, w')"
  shows "authorized X orgId t r (w_sched w (w_stmts w) (w_db w))"
proof (cases "given t")
  case (Some token)
  with assms obtain b w1 where "validateBootstrapToken X orgId token w = (Inr b, w1)"
    unfolding authorizeRegistration_def by (auto elim: andThen_returns)
  from validateBootstrapToken_returns [OF this] Some show ?thesis by (auto simp: authorized_def)
next
  case None
  with assms obtain keyId where k: "given r = Some keyId"
    by (auto simp: authorizeRegistration_def throw_run split: option.splits)
  with None assms obtain ok w1 where "apiKey_hasScope keyId ''key:write'' w = (Inr ok, w1)"
    "(if ok then ret () else throw (BadRequestException ''API key does not have key:write scope'')) w1 = (Inr u, w')"
    unfolding authorizeRegistration_def by (auto elim: andThen_returns)
  then have "apiKey_hasScope keyId ''key:write'' w = (Inr True, w1)" by (cases ok) (auto simp: throw_run)
  from hasScope_returns [OF this] None k show ?thesis by (auto simp: authorized_def)
qed

text \<open>What a registration that returns went through.\<close>

lemma registerApiKey_returns:
  assumes "registerApiKey X orgId data t r w = (Inr v, w')"
  shows "authorized X orgId t r (w_sched w (Suc (w_stmts w)) (w_sched w (w_stmts w) (w_db w))) \<and>
    set (kv_scopes v) \<subseteq> valid_scopes \<and> ''*'' \<notin> set (kv_scopes v) \<and>
    (rk_scopes data = None \<or> rk_scopes data = Some [] \<longrightarrow>
       given t \<noteq> None \<and> ''wallet:sign'' \<notin> set (kv_scopes v))"
proof -
  from assms obtain keyId scopes w1 k w2 where
    p: "prepareRegistration X orgId data t r w = (Inr (keyId, scopes), w1)"
    and i: "insertApiKey orgId data keyId scopes w1 = (Inr k, w2)"
    and f: "finishRegistration orgId (given t \<noteq> None) k w2 = (Inr v, w')"
    unfolding registerApiKey_def by (auto elim!: andThen_returns split: prod.splits)
  from p obtain org w3 u w4 where q: "org_findById orgId w = (Inr org, w3)"
    and auth: "authorizeRegistration X orgId t r w3 = (Inr u, w4)"
    and s: "chooseScopes (rk_scopes data) (given t \<noteq> None) = Inr scopes"
    unfolding prepareRegistration_def
    by (auto elim!: andThen_returns simp: throw_run lift_res_run ret_run split: if_splits)
  have v: "kv_scopes v = k_scopes k"
    using f unfolding finishRegistration_def by (auto elim!: andThen_returns simp: ret_run)
  note st = query_outcome [OF q [unfolded org_findById_def]]
  from authorizeRegistration_returns [OF auth] st
  have "authorized X orgId t r (w_sched w (Suc (w_stmts w)) (w_sched w (w_stmts w) (w_db w)))" by simp
  with chooseScopes_valid [OF s] insertApiKey_returns [OF i] v show ?thesis by auto
qed

text \<open>
  C18. Registration.  A key is only registered on the authority of the organization's bootstrap
  token or of a key with the scope \<open>key:write\<close>, as the database stood when that was
  checked; it gets known scopes and never the wildcard; and without explicit scopes, which
  only the bootstrap token may leave out, it cannot sign.
\<close>

theorem registration_is_authorized:
  assumes "registerApiKey X orgId data t r w = (Inr v, w')"
  shows "authorized X orgId t r (w_sched w (Suc (w_stmts w)) (w_sched w (w_stmts w) (w_db w))) \<and>
    set (kv_scopes v) \<subseteq> valid_scopes \<and> ''*'' \<notin> set (kv_scopes v) \<and>
    (rk_scopes data = None \<or> rk_scopes data = Some [] \<longrightarrow>
       given t \<noteq> None \<and> ''wallet:sign'' \<notin> set (kv_scopes v))"
  using assms by (rule registerApiKey_returns)

definition sample_registration :: register_api_key where
  "sample_registration = \<lparr>rk_name = ''ops'', rk_publicKey = ''pem2'', rk_scopes = None\<rparr>"

lemma sample_registration_succeeds:
  "\<exists>v w'. registerApiKey sample_ext ''org'' sample_registration (Some ''token'') None auth_world = (Inr v, w')"
proof -
  have "isl (fst (registerApiKey sample_ext ''org'' sample_registration (Some ''token'') None auth_world)) = False"
    by code_simp
  then show ?thesis
    by (cases "registerApiKey sample_ext ''org'' sample_registration (Some ''token'') None auth_world";
        cases "fst (registerApiKey sample_ext ''org'' sample_registration (Some ''token'') None auth_world)") auto
qed

theorem registration_is_authorized_witness:
  "\<exists>v w'. registerApiKey sample_ext ''org'' sample_registration (Some ''token'') None auth_world = (Inr v, w') \<and>
     ''wallet:sign'' \<notin> set (kv_scopes v)"
proof -
  obtain v w' where run: "registerApiKey sample_ext ''org'' sample_registration (Some ''token'') None auth_world
      = (Inr v, w')" using sample_registration_succeeds by blast
  from registration_is_authorized [OF run] run show ?thesis by (auto simp: sample_registration_def)
qed

definition token_gone :: "string \<Rightarrow> db \<Rightarrow> bool" where
  "token_gone orgId d \<longleftrightarrow> (\<forall>r \<in> set (organizations d). o_id r = orgId \<longrightarrow> o_bootstrap_token_hash r = None)"

lemma cleared_rows:
  "\<forall>r \<in> set (map_row (\<lambda>r. o_id r = i) (\<lambda>r. r\<lparr>o_bootstrap_token_hash := None, o_updated_at := t\<rparr>) rs).
     o_id r = i \<longrightarrow> o_bootstrap_token_hash r = None"
  by (induction rs) simp_all

lemma finish_clears_token:
  assumes "quiet w" and "finishRegistration orgId True k w = (Inr v, w')"
  shows "token_gone orgId (w_db w') \<and> quiet w'"
proof -
  define w1 where "w1 = (tick (w\<lparr>w_reads := Suc (w_reads w)\<rparr>))\<lparr>w_db := organizations_update
    (map_row (\<lambda>r. o_id r = orgId) (\<lambda>r. r\<lparr>o_bootstrap_token_hash := None, o_updated_at := w_clock w (w_reads w)\<rparr>))
    (w_db w)\<rparr>"
  have q: "quiet w1" using assms(1) by (simp add: w1_def)
  have "\<exists>x. org_update orgId (\<lambda>o'. o'\<lparr>o_bootstrap_token_hash := None\<rparr>) w = (Inr x, w1)"
    using assms(1) by (simp add: org_update_def update_row_def now_run andThen_def stmt_quiet Let_def w1_def)
  then obtain x where u: "org_update orgId (\<lambda>o'. o'\<lparr>o_bootstrap_token_hash := None\<rparr>) w = (Inr x, w1)" ..
  have "\<exists>e. w' = after_audit w1 e"
    using u assms(2)
    by (simp add: finishRegistration_def andThen_def audit_create_quiet [OF q] ret_run) blast
  then have "organizations (w_db w') = organizations (w_db w1)" "quiet w'" using q by auto
  moreover have "organizations (w_db w1) = map_row (\<lambda>r. o_id r = orgId)
      (\<lambda>r. r\<lparr>o_bootstrap_token_hash := None, o_updated_at := w_clock w (w_reads w)\<rparr>) (organizations (w_db w))"
    by (simp add: w1_def)
  ultimately show ?thesis using cleared_rows unfolding token_gone_def by metis
qed

lemma registration_quiet:
  "preserves quiet (prepareRegistration X orgId data t r)" "preserves quiet (insertApiKey orgId data keyId scopes)"
  unfolding prepareRegistration_def authorizeRegistration_def validateBootstrapToken_def apiKey_hasScope_def
    apiKey_findByKeyId_def org_findById_def insertApiKey_def apiKey_create_def
  by (intro preserves_intros)+

lemma no_token_no_registration:
  assumes "quiet w" and "token_gone orgId (w_db w)" and "given t \<noteq> None"
  shows "fst (registerApiKey X orgId data t r w) \<in>
    {Inl (NotFoundException (''Organization '' @ orgId @ '' not found'')),
     Inl (BadRequestException ''No bootstrap token available for this organization'')}"
proof (cases "find_row (\<lambda>r. o_id r = orgId) (organizations (w_db w))")
  case None
  with assms(1) show ?thesis
    by (simp add: registerApiKey_def prepareRegistration_def andThen_def org_findById_def query_quiet throw_run)
next
  case (Some o')
  with assms(2) find_row_Some [OF Some] have "o_bootstrap_token_hash o' = None" by (auto simp: token_gone_def)
  with Some assms(1,3) show ?thesis
    by (auto simp: registerApiKey_def prepareRegistration_def andThen_def org_findById_def query_quiet
        throw_run authorizeRegistration_def validateBootstrapToken_def)
qed

text \<open>
  C29. The bootstrap token works once: after a registration with it has returned, any further
  registration of the organization that presents a token is refused.
\<close>

theorem bootstrap_token_works_once:
  assumes "quiet w" and "registerApiKey X orgId data t r w = (Inr v, w')"
    and "given t \<noteq> None" and "given t2 \<noteq> None"
  shows "fst (registerApiKey X orgId data2 t2 r2 w') \<in>
    {Inl (NotFoundException (''Organization '' @ orgId @ '' not found'')),
     Inl (BadRequestException ''No bootstrap token available for this organization'')}"
proof -
  from assms(2) obtain keyId scopes w1 k w2 where
    p: "prepareRegistration X orgId data t r w = (Inr (keyId, scopes), w1)"
    and i: "insertApiKey orgId data keyId scopes w1 = (Inr k, w2)"
    and f: "finishRegistration orgId (given t \<noteq> None) k w2 = (Inr v, w')"
    unfolding registerApiKey_def by (auto elim!: andThen_returns split: prod.splits)
  have "quiet w2"
    using preserves_runD [OF registration_quiet(2) i preserves_runD [OF registration_quiet(1) p assms(1)]] .
  moreover have "finishRegistration orgId True k w2 = (Inr v, w')" using f assms(3) by simp
  ultimately have "token_gone orgId (w_db w') \<and> quiet w'" by (rule finish_clears_token)
  then show ?thesis using no_token_no_registration assms(4) by blast
qed

theorem bootstrap_token_works_once_witness:
  "\<exists>m. fst (registerApiKey sample_ext ''org'' sample_registration (Some ''token'') None
     (snd (registerApiKey sample_ext ''org'' sample_registration (Some ''token'') None auth_world))) = Inl m"
proof -
  obtain v w' where run: "registerApiKey sample_ext ''org'' sample_registration (Some ''token'') None auth_world
      = (Inr v, w')" using sample_registration_succeeds by blast
  have "quiet auth_world" and "given (Some ''token'') \<noteq> None" by (simp_all add: auth_world_def given_def)
  from bootstrap_token_works_once [OF this(1) run this(2,2), of sample_registration None] run
  show ?thesis by auto
qed

end
