(* ===== verification/Users.thy ===== *)
theory Users
  imports Repositories
begin

text \<open>
  \<open>UserService\<close> (\<open>libs/users/src/user.service.ts\<close>): the end users of an organization.
  Deleting a user keeps the row and sets its status.
\<close>

record create_user =
  cu_externalId :: string
  cu_email :: "string option"
  cu_role :: "string option"

record user_view =
  uv_id :: string
  uv_externalId :: string
  uv_email :: "string option"
  uv_role :: string
  uv_status :: string
  uv_createdAt :: int

definition user_view_of :: "user \<Rightarrow> user_view" where
  "user_view_of u = \<lparr>uv_id = u_id u, uv_externalId = u_external_id u, uv_email = u_email u,
     uv_role = u_role u, uv_status = u_status u, uv_createdAt = u_created_at u\<rparr>"

text \<open>\<open>data.email || null\<close> and \<open>data.role || 'member'\<close>.\<close>

definition email_or_null :: "string option \<Rightarrow> string option" where
  "email_or_null x = (case x of None \<Rightarrow> None | Some s \<Rightarrow> if s = [] then None else Some s)"

definition role_or_member :: "string option \<Rightarrow> string" where
  "role_or_member x = (case x of None \<Rightarrow> ''member'' | Some s \<Rightarrow> if s = [] then ''member'' else s)"

definition user_exists :: "string \<Rightarrow> js_error" where
  "user_exists externalId = BadRequestException
     (''User with external_id '' @ externalId @ '' already exists in this organization'')"

definition createUser :: "string \<Rightarrow> create_user \<Rightarrow> user_view io" where
  "createUser orgId data =
     andThen (user_findByOrgAndExternalId orgId (cu_externalId data)) (\<lambda>existing.
     if existing \<noteq> None then throw (user_exists (cu_externalId data))
     else andThen (user_create orgId (cu_externalId data) (email_or_null (cu_email data))
            (role_or_member (cu_role data)) ''active'') (\<lambda>u.
     andThen (audit_create orgId (Some (u_id u)) None ''user_created'' ''success''
        (Some (JObj [(''userId'', JStr (u_id u)), (''externalId'', JStr (u_external_id u)),
           (''email'', case u_email u of None \<Rightarrow> JNull | Some e \<Rightarrow> JStr e),
           (''role'', JStr (u_role u))]))) (\<lambda>_.
     ret (user_view_of u))))"

definition listUsers :: "string \<Rightarrow> user_view list io" where
  "listUsers orgId = andThen (user_findByOrgId orgId) (\<lambda>us. ret (map user_view_of us))"

text \<open>The check that the operations on one user share.\<close>

definition ownUser :: "string \<Rightarrow> string \<Rightarrow> user io" where
  "ownUser orgId userId = andThen (user_findById userId) (\<lambda>found. case found of
     None \<Rightarrow> throw (NotFoundException (''User '' @ userId @ '' not found''))
   | Some u \<Rightarrow> if u_org_id u \<noteq> orgId
       then throw (BadRequestException ''User does not belong to this organization'') else ret u)"

definition getUser :: "string \<Rightarrow> string \<Rightarrow> (string \<times> user_view) io" where
  "getUser orgId userId =
     andThen (ownUser orgId userId) (\<lambda>u. ret (u_org_id u, user_view_of u))"

definition deleteUser :: "string \<Rightarrow> string \<Rightarrow> unit io" where
  "deleteUser orgId userId =
     andThen (ownUser orgId userId) (\<lambda>u.
     andThen (user_update userId (\<lambda>r. r\<lparr>u_status := ''deleted''\<rparr>)) (\<lambda>_.
     andThen (audit_create orgId (Some userId) None ''user_deleted'' ''success''
        (Some (JObj [(''userId'', JStr userId), (''externalId'', JStr (u_external_id u))]))) (\<lambda>_.
     ret ())))"

section \<open>Undisturbed runs\<close>

lemma ownUser_quiet:
  "quiet w \<Longrightarrow> ownUser orgId i w = (case find_row (\<lambda>r. u_id r = i) (users (w_db w)) of
     None \<Rightarrow> (Inl (NotFoundException (''User '' @ i @ '' not found'')), tick w)
   | Some u \<Rightarrow> if u_org_id u \<noteq> orgId
       then (Inl (BadRequestException ''User does not belong to this organization''), tick w)
       else (Inr u, tick w))"
  by (simp add: ownUser_def andThen_def user_findById_def query_quiet throw_run ret_run
      split: option.splits)

text \<open>What a deletion leaves in the table of users.\<close>

definition delete_mark :: "int \<Rightarrow> user \<Rightarrow> user" where
  "delete_mark t r = r\<lparr>u_status := ''deleted'', u_updated_at := t\<rparr>"

lemma delete_mark_select [simp]:
  "u_id (delete_mark t r) = u_id r" "u_org_id (delete_mark t r) = u_org_id r"
  "u_external_id (delete_mark t r) = u_external_id r" "u_status (delete_mark t r) = ''deleted''"
  by (simp_all add: delete_mark_def)

lemma user_update_quiet:
  assumes "quiet w"
  shows "\<exists>x w'. user_update i (\<lambda>r. r\<lparr>u_status := ''deleted''\<rparr>) w = (Inr x, w') \<and> quiet w' \<and>
    users (w_db w') = map_row (\<lambda>r. u_id r = i) (delete_mark (w_clock w (w_reads w))) (users (w_db w))"
  using assms
  by (simp add: user_update_def update_row_def now_def andThen_def stmt_quiet Let_def delete_mark_def [abs_def])

lemma deleteUser_quiet:
  assumes "quiet w" and "deleteUser orgId i w = (Inr x, w')"
  shows "\<exists>u t. find_row (\<lambda>r. u_id r = i) (users (w_db w)) = Some u \<and> u_org_id u = orgId \<and>
    users (w_db w') = map_row (\<lambda>r. u_id r = i) (delete_mark t) (users (w_db w)) \<and> quiet w'"
proof -
  from assms(2) obtain u w1 where own: "ownUser orgId i w = (Inr u, w1)"
    and rest: "andThen (user_update i (\<lambda>r. r\<lparr>u_status := ''deleted''\<rparr>)) (\<lambda>_.
      andThen (audit_create orgId (Some i) None ''user_deleted'' ''success''
        (Some (JObj [(''userId'', JStr i), (''externalId'', JStr (u_external_id u))]))) (\<lambda>_. ret ())) w1
      = (Inr x, w')" unfolding deleteUser_def by (rule andThen_returns)
  from own assms(1) have w1: "w1 = tick w" and u: "find_row (\<lambda>r. u_id r = i) (users (w_db w)) = Some u"
    "u_org_id u = orgId" by (auto simp: ownUser_quiet split: option.splits if_splits)
  from w1 assms(1) obtain y w2 where upd: "user_update i (\<lambda>r. r\<lparr>u_status := ''deleted''\<rparr>) w1 = (Inr y, w2)"
    and q: "quiet w2" and us: "users (w_db w2) =
      map_row (\<lambda>r. u_id r = i) (delete_mark (w_clock w1 (w_reads w1))) (users (w_db w1))"
    using user_update_quiet [of w1 i] by auto
  have "users (w_db w') = users (w_db w2) \<and> quiet w'"
    using rest q by (auto simp: andThen_def upd audit_create_quiet ret_run)
  with u us w1 show ?thesis by auto
qed

lemma find_external_after_delete:
  assumes "find_row (\<lambda>r. u_id r = i) us = Some u" and "u_org_id u = orgId"
  shows "find_row (\<lambda>r. u_org_id r = orgId \<and> u_external_id r = u_external_id u)
    (map_row (\<lambda>r. u_id r = i) (delete_mark t) us) \<noteq> None"
proof -
  from find_row_Some [OF assms(1)] have "u \<in> set us" "u_id u = i" by auto
  then have "delete_mark t u \<in> set (map_row (\<lambda>r. u_id r = i) (delete_mark t) us)"
    by (auto simp: set_map_row intro!: rev_image_eqI)
  then show ?thesis using assms(2) unfolding find_row_None by (auto intro!: bexI [of _ "delete_mark t u"])
qed

lemma others_after_delete:
  assumes "distinct (map u_id us)" and "find_row (\<lambda>r. u_id r = i) us = Some u"
  shows "filter (\<lambda>r. u_org_id r \<noteq> u_org_id u) (map_row (\<lambda>r. u_id r = i) (delete_mark t) us) =
    filter (\<lambda>r. u_org_id r \<noteq> u_org_id u) us"
proof -
  have same: "u_org_id r = u_org_id u" if "r \<in> set us" "u_id r = i" for r
    using distinct_find_row [OF assms(1) that(1)] that(2) assms(2) by simp
  have "filter (\<lambda>r. u_org_id r \<noteq> o') (map_row (\<lambda>r. u_id r = i) (delete_mark t) us) =
      map_row (\<lambda>r. u_id r = i) (delete_mark t) (filter (\<lambda>r. u_org_id r \<noteq> o') us)" for o'
    by (rule filter_map_row) simp
  also have "\<And>o'. o' = u_org_id u \<Longrightarrow> map_row (\<lambda>r. u_id r = i) (delete_mark t) (filter (\<lambda>r. u_org_id r \<noteq> o') us) =
      filter (\<lambda>r. u_org_id r \<noteq> o') us" by (rule map_row_id) (auto dest: same)
  finally show ?thesis by simp
qed

lemma createUser_taken:
  assumes "quiet w" and "find_row (\<lambda>r. u_org_id r = orgId \<and> u_external_id r = cu_externalId data)
    (users (w_db w)) \<noteq> None"
  shows "createUser orgId data w = (Inl (user_exists (cu_externalId data)), tick w)"
  using assms by (auto simp: createUser_def andThen_def user_findByOrgAndExternalId_def query_quiet throw_run)

text \<open>
  Deletion of a user.  Undisturbed, a deletion that returns was of a user of the
  caller's organization and changes no user of another one.  The row stays: the user is
  still found, with status \<open>deleted\<close>, and its external identifier is not free again.
\<close>

theorem deleted_users_stay:
  assumes "quiet w" and "distinct (map u_id (users (w_db w)))"
    and "deleteUser orgId i w = (Inr x, w')"
  shows "\<exists>u. find_row (\<lambda>r. u_id r = i) (users (w_db w)) = Some u \<and> u_org_id u = orgId \<and>
    fst (getUser orgId i w') = Inr (orgId, (user_view_of u)\<lparr>uv_status := ''deleted''\<rparr>) \<and>
    fst (createUser orgId (data\<lparr>cu_externalId := u_external_id u\<rparr>) w') = Inl (user_exists (u_external_id u)) \<and>
    filter (\<lambda>r. u_org_id r \<noteq> orgId) (users (w_db w')) = filter (\<lambda>r. u_org_id r \<noteq> orgId) (users (w_db w))"
proof -
  from deleteUser_quiet [OF assms(1,3)] obtain u t where
    u: "find_row (\<lambda>r. u_id r = i) (users (w_db w)) = Some u" "u_org_id u = orgId"
    and us: "users (w_db w') = map_row (\<lambda>r. u_id r = i) (delete_mark t) (users (w_db w))"
    and q: "quiet w'" by blast
  have f: "find_row (\<lambda>r. u_id r = i) (users (w_db w')) = Some (delete_mark t u)"
    using u(1) by (simp add: us find_row_map_row_same)
  have "getUser orgId i w' = (Inr (orgId, (user_view_of u)\<lparr>uv_status := ''deleted''\<rparr>), tick w')"
    using f u(2) by (simp add: getUser_def andThen_def ownUser_quiet [OF q] ret_run)
      (simp add: user_view_of_def delete_mark_def)
  moreover have "createUser orgId (data\<lparr>cu_externalId := u_external_id u\<rparr>) w' =
      (Inl (user_exists (u_external_id u)), tick w')"
    using createUser_taken [OF q, of orgId "data\<lparr>cu_externalId := u_external_id u\<rparr>"]
      find_external_after_delete [OF u] by (simp add: us)
  ultimately show ?thesis using u us others_after_delete [OF assms(2) u(1), of t] by auto
qed

definition sample_user :: user where
  "sample_user = \<lparr>u_id = ''u'', u_org_id = ''org'', u_external_id = ''ext'', u_email = None,
     u_role = ''member'', u_status = ''active'', u_created_at = 0, u_updated_at = 0\<rparr>"

definition users_world :: world where
  "users_world = calm_world (empty_db\<lparr>users := [sample_user]\<rparr>) (\<lambda>_ _. NetError ''down'') Map.empty 1"

definition sample_newcomer :: create_user where
  "sample_newcomer = \<lparr>cu_externalId = ''new'', cu_email = None, cu_role = None\<rparr>"

theorem deleted_users_stay_witness:
  "fst (createUser ''org'' (sample_newcomer\<lparr>cu_externalId := ''ext''\<rparr>) (snd (deleteUser ''org'' ''u'' users_world)))
     = Inl (user_exists ''ext'')"
proof -
  have "isl (fst (deleteUser ''org'' ''u'' users_world)) = False" by code_simp
  then obtain x w' where run: "deleteUser ''org'' ''u'' users_world = (Inr x, w')"
    by (cases "deleteUser ''org'' ''u'' users_world"; cases "fst (deleteUser ''org'' ''u'' users_world)") auto
  have "quiet users_world" and us: "users (w_db users_world) = [sample_user]"
    by (simp_all add: users_world_def calm_world_def quiet_def)
  from deleted_users_stay [OF this(1) _ run, of sample_newcomer] us
  have "fst (createUser ''org'' (sample_newcomer\<lparr>cu_externalId := u_external_id sample_user\<rparr>) w') =
      Inl (user_exists (u_external_id sample_user))" by (auto simp: sample_user_def)
  with run show ?thesis by (simp add: sample_user_def)
qed

end
