(* ===== verification/Signing.thy ===== *)
theory Signing
  imports WalletSigning
begin

text \<open>
  \<open>SigningService\<close> (\<open>libs/wallet/src/signing.service.ts\<close>): signatures over typed data
  (EIP-712) and personal messages.  The hash is computed here and the signing service
  signs it without knowing what it stands for, so everything that keeps such a signature
  from being a permit to spend lies in the allowlists of the configuration, which
  \<open>assertEip712Allowed\<close> reads.

  The chain identifier of a domain is compared as an exact integer, as the identifiers
  of the allowlist are safe integers.
\<close>

record eip712_request =
  er_domain :: "json option"
  er_types :: json
  er_primaryType :: string
  er_message :: json

section \<open>The configuration\<close>

definition csv :: "string option \<Rightarrow> string list" where
  "csv raw = filter (\<lambda>v. v \<noteq> []) (map js_trim (js_split CHR '','' (case raw of None \<Rightarrow> [] | Some s \<Rightarrow> s)))"

definition getCsv :: "string \<Rightarrow> string list io" where
  "getCsv key = andThen (config_get key) (\<lambda>raw. ret (csv raw))"

definition boolean_setting :: "string option \<Rightarrow> bool \<Rightarrow> bool" where
  "boolean_setting raw fallback = (case raw of None \<Rightarrow> fallback
     | Some s \<Rightarrow> if s = [] then fallback else toLowerCase s \<in> {''1'', ''true'', ''yes'', ''on''})"

definition getBoolean :: "string \<Rightarrow> bool \<Rightarrow> bool io" where
  "getBoolean key fallback = andThen (config_get key) (\<lambda>raw. ret (boolean_setting raw fallback))"

section \<open>assertEip712Allowed\<close>

text \<open>\<open>req.domain ?? {}\<close>.\<close>

definition domain_of :: "eip712_request \<Rightarrow> json" where
  "domain_of req = (case er_domain req of None \<Rightarrow> JObj [] | Some JNull \<Rightarrow> JObj [] | Some d \<Rightarrow> d)"

definition or_none :: "string \<Rightarrow> string" where
  "or_none s = (if s = [] then ''(none)'' else s)"

definition not_allowlisted :: "string \<Rightarrow> string \<Rightarrow> js_error" where
  "not_allowlisted what value = ForbiddenException
     (''EIP-712 '' @ what @ '' '' @ quoted value @ '' is not allowlisted'')"

text \<open>A property of the domain that must be a string: anything else counts as the empty one.\<close>

definition string_or_empty :: "string \<Rightarrow> json \<Rightarrow> string" where
  "string_or_empty k d = (case get_prop k d of Some (JStr s) \<Rightarrow> s | _ \<Rightarrow> [])"

definition checkDomainName :: "json \<Rightarrow> unit io" where
  "checkDomainName d = andThen (getCsv ''EIP712_DOMAIN_ALLOWLIST'') (\<lambda>domains.
     let name = string_or_empty ''name'' d in
     if domains = [] \<or> name = [] \<or> name \<notin> set domains
     then throw (not_allowlisted ''domain'' (or_none name)) else ret ())"

definition chain_ids :: "string list \<Rightarrow> int list" where
  "chain_ids vs = filter (\<lambda>n. 0 < n) (List.map_filter safe_integer_of vs)"

text \<open>A number is taken as it is, a string only when it consists of decimal digits.\<close>

definition domain_chainId :: "json \<Rightarrow> js_num option" where
  "domain_chainId d = (case get_prop ''chainId'' d of
       Some (JNum n) \<Rightarrow> Some (NInt n)
     | Some (JFloat t) \<Rightarrow> Some (js_Number (Some (JFloat t)))
     | Some (JStr s) \<Rightarrow> if is_digits s then Some (number_of_string s) else None
     | _ \<Rightarrow> None)"

fun show_num :: "js_num \<Rightarrow> string" where
  "show_num NaN = ''NaN''"
| "show_num (NInt n) = show_int n"
| "show_num (NDec t) = t"

definition checkChainId :: "json \<Rightarrow> unit io" where
  "checkChainId d = andThen (getCsv ''EIP712_ALLOWED_CHAIN_IDS'') (\<lambda>vs.
     let chainIds = chain_ids vs; chainId = domain_chainId d in
     if chainIds = [] \<or> chainId = None \<or> chainId \<notin> (Some \<circ> NInt) ` set chainIds
     then throw (not_allowlisted ''chainId''
            (case chainId of None \<Rightarrow> ''(none)'' | Some n \<Rightarrow> show_num n))
     else ret ())"

definition checkContract :: "ext \<Rightarrow> json \<Rightarrow> unit io" where
  "checkContract X d = andThen (getCsv ''EIP712_ALLOWED_CONTRACTS'') (\<lambda>vs.
     let contracts = map toLowerCase vs;
         contract = toLowerCase (string_or_empty ''verifyingContract'' d) in
     if contracts = [] \<or> contract = [] \<or> \<not> isAddress X contract \<or> contract \<notin> set contracts
     then throw (not_allowlisted ''verifyingContract'' (or_none contract)) else ret ())"

definition checkPrimaryType :: "string \<Rightarrow> unit io" where
  "checkPrimaryType primaryType = andThen (getCsv ''EIP712_ALLOWED_PRIMARY_TYPES'') (\<lambda>primaryTypes.
     if primaryTypes = [] \<or> primaryType = [] \<or> primaryType \<notin> set primaryTypes
     then throw (not_allowlisted ''primaryType'' (or_none primaryType)) else ret ())"

definition assertEip712Allowed :: "ext \<Rightarrow> eip712_request \<Rightarrow> unit io" where
  "assertEip712Allowed X req =
     andThen (checkDomainName (domain_of req)) (\<lambda>_.
     andThen (checkChainId (domain_of req)) (\<lambda>_.
     andThen (checkContract X (domain_of req)) (\<lambda>_.
     checkPrimaryType (er_primaryType req))))"

section \<open>Signing\<close>

definition loadWallet :: "string \<Rightarrow> string \<Rightarrow> (organization_seed \<times> wallet) io" where
  "loadWallet orgId walletId =
     andThen (both (seed_findByOrgId orgId) (wallet_findById walletId)) (\<lambda>(seedRow, wallet).
     case seedRow of None \<Rightarrow> throw (BadRequestException ''Organization has not been onboarded'')
     | Some s \<Rightarrow> (case wallet of
         None \<Rightarrow> throw (NotFoundException (''Wallet '' @ quoted walletId @ '' not found''))
       | Some w \<Rightarrow> if wl_org_id w \<noteq> orgId
           then throw (BadRequestException ''Wallet does not belong to this org'')
           else ret (s, w)))"

record typed_sign_result =
  ts_signature :: "string option"
  ts_hash :: string

text \<open>What both operations share: a hash is signed, the signature logged and returned.\<close>

definition signAndLog :: "string \<Rightarrow> string \<Rightarrow> organization_seed \<Rightarrow> wallet \<Rightarrow> string \<Rightarrow> string \<Rightarrow>
    (string \<times> json) list \<Rightarrow> typed_sign_result io" where
  "signAndLog orgId walletId seedRow wallet hash event metadata =
     andThen (crypto_signHash seedRow (wl_derivation_path wallet) hash) (\<lambda>signature.
     andThen (audit_create orgId None (Some walletId) event ''success''
        (Some (JObj (metadata @ [(''hash'', JStr hash)] @ json_opt ''signature'' JStr signature)))) (\<lambda>_.
     ret \<lparr>ts_signature = signature, ts_hash = hash\<rparr>))"

definition signEip712 :: "ext \<Rightarrow> string \<Rightarrow> string \<Rightarrow> eip712_request \<Rightarrow> typed_sign_result io" where
  "signEip712 X orgId walletId req =
     andThen (assertEip712Allowed X req) (\<lambda>_.
     andThen (loadWallet orgId walletId) (\<lambda>(seedRow, wallet).
     andThen (lift_res (hashTypedData X (domain_of req) (er_types req) (er_primaryType req)
        (er_message req))) (\<lambda>hash.
     signAndLog orgId walletId seedRow wallet hash ''typed_data_signed''
       [(''primaryType'', JStr (er_primaryType req))])))"

definition signPersonalMessage :: "ext \<Rightarrow> string \<Rightarrow> string \<Rightarrow> string \<Rightarrow> typed_sign_result io" where
  "signPersonalMessage X orgId walletId message =
     andThen (getBoolean ''PERSONAL_MESSAGE_SIGNING_ENABLED'' False) (\<lambda>enabled.
     if \<not> enabled then throw (ForbiddenException
        ''Personal message signing is disabled (PERSONAL_MESSAGE_SIGNING_ENABLED=false)'')
     else andThen (loadWallet orgId walletId) (\<lambda>(seedRow, wallet).
       signAndLog orgId walletId seedRow wallet (hashMessage X message) ''message_signed'' []))"

section \<open>What is allowlisted\<close>

text \<open>The specification of \<open>assertEip712Allowed\<close> on the environment.\<close>

definition allowlisted :: "ext \<Rightarrow> (string \<Rightarrow> string option) \<Rightarrow> eip712_request \<Rightarrow> bool" where
  "allowlisted X env req \<longleftrightarrow>
     string_or_empty ''name'' (domain_of req) \<in> set (csv (env ''EIP712_DOMAIN_ALLOWLIST'')) \<and>
     (\<exists>n \<in> set (chain_ids (csv (env ''EIP712_ALLOWED_CHAIN_IDS''))).
        domain_chainId (domain_of req) = Some (NInt n)) \<and>
     isAddress X (toLowerCase (string_or_empty ''verifyingContract'' (domain_of req))) \<and>
     toLowerCase (string_or_empty ''verifyingContract'' (domain_of req))
       \<in> toLowerCase ` set (csv (env ''EIP712_ALLOWED_CONTRACTS'')) \<and>
     er_primaryType req \<in> set (csv (env ''EIP712_ALLOWED_PRIMARY_TYPES''))"

lemma csv_nonempty: "v \<in> set (csv raw) \<Longrightarrow> v \<noteq> []"
  by (simp add: csv_def)

lemma getCsv_run: "getCsv key w = (Inr (csv (w_env w key)), w)"
  by (simp add: getCsv_def config_get_def andThen_def ret_run)

lemma toLowerCase_Nil [simp]: "toLowerCase s = [] \<longleftrightarrow> s = []" "[] = toLowerCase s \<longleftrightarrow> s = []"
  "toLowerCase [] = []"
  by (metis length_0_conv length_toLowerCase)+

lemma checks_run:
  "checkDomainName d w = (if string_or_empty ''name'' d \<in> set (csv (w_env w ''EIP712_DOMAIN_ALLOWLIST''))
     then (Inr (), w) else (Inl (not_allowlisted ''domain'' (or_none (string_or_empty ''name'' d))), w))"
  "checkPrimaryType p w = (if p \<in> set (csv (w_env w ''EIP712_ALLOWED_PRIMARY_TYPES''))
     then (Inr (), w) else (Inl (not_allowlisted ''primaryType'' (or_none p)), w))"
  "checkContract X d w = (let c = toLowerCase (string_or_empty ''verifyingContract'' d) in
     if isAddress X c \<and> c \<in> toLowerCase ` set (csv (w_env w ''EIP712_ALLOWED_CONTRACTS''))
     then (Inr (), w) else (Inl (not_allowlisted ''verifyingContract'' (or_none c)), w))"
  "checkChainId d w = (if \<exists>n \<in> set (chain_ids (csv (w_env w ''EIP712_ALLOWED_CHAIN_IDS''))). domain_chainId d = Some (NInt n)
     then (Inr (), w) else (Inl (not_allowlisted ''chainId''
       (case domain_chainId d of None \<Rightarrow> ''(none)'' | Some n \<Rightarrow> show_num n)), w))"
  by (auto simp: checkDomainName_def checkPrimaryType_def checkContract_def checkChainId_def andThen_def
      getCsv_run throw_run ret_run Let_def dest: csv_nonempty)

lemma assertEip712Allowed_run:
  "if allowlisted X (w_env w) req then assertEip712Allowed X req w = (Inr (), w)
   else \<exists>m. assertEip712Allowed X req w = (Inl (ForbiddenException m), w)"
  by (auto simp: assertEip712Allowed_def allowlisted_def andThen_def checks_run not_allowlisted_def Let_def)

section \<open>What is signed\<close>

text \<open>The seed and the wallet are rows of the caller's organization.\<close>

lemma loadWallet_env [preserves_intros]:
  "preserves (silent rs) (loadWallet orgId walletId)" "preserves quiet (loadWallet orgId walletId)"
  unfolding loadWallet_def seed_findByOrgId_def wallet_findById_def by (intro preserves_intros)+

lemma loadWallet_returns:
  assumes "loadWallet orgId walletId w = (Inr (s, v), w')"
  shows "own_rows w orgId walletId s v"
proof -
  from assms obtain w1 where "both (seed_findByOrgId orgId) (wallet_findById walletId) w = (Inr (Some s, Some v), w1)"
    "wl_org_id v = orgId"
    unfolding loadWallet_def by (elim andThen_returns) (auto simp: run_defs split: option.splits if_splits)
  then show ?thesis by (rule both_rows)
qed

text \<open>One request to sign the hash, or none when the configuration of the client is incomplete.\<close>

definition asks_hash :: "organization_seed \<Rightarrow> wallet \<Rightarrow> string \<Rightarrow> world \<Rightarrow> world \<Rightarrow> bool" where
  "asks_hash s v h w w' \<longleftrightarrow> (\<exists>rq. w_sent w' = w_sent w @ [rq] \<and>
     is_crypto ''/wallet/sign-hash'' (hash_body s (wl_derivation_path v) h) rq)"

lemma signAndLog_sends:
  fixes v :: wallet
  assumes "signAndLog orgId walletId s v h ev m w = (r, w')"
  shows "w_sent w' = w_sent w \<or> asks_hash s v h w w'"
proof -
  have "emits (rationed (is_crypto ''/wallet/sign-hash'' (hash_body s (wl_derivation_path v) h)) (\<lambda>_. False) 1 1)
      (signAndLog orgId walletId s v h ev m)"
    unfolding signAndLog_def
    by (intro emits_rationed_andThen [OF emits_crypto(4), where c = 0 and l = 0] emits_silent preserves_intros) auto
  from emits_run [OF this assms] obtain rs where rs: "w_sent w' = w_sent w @ rs"
    "rationed (is_crypto ''/wallet/sign-hash'' (hash_body s (wl_derivation_path v) h)) (\<lambda>_. False) 1 1 rs" .
  then show ?thesis by (cases rs) (auto simp: rationed_def asks_hash_def)
qed

text \<open>Loading the wallet and then signing a hash that may fail to be computed.\<close>

lemma load_and_sign_sends:
  assumes "andThen (loadWallet orgId walletId) (\<lambda>(s, v). andThen (lift_res hr) (\<lambda>h.
      signAndLog orgId walletId s v h ev m)) w = (r, w')"
  shows "w_sent w' = w_sent w \<or>
    (\<exists>s v h. own_rows w orgId walletId s v \<and> hr = Inr h \<and> asks_hash s v h w w')"
proof -
  obtain r1 w1 where l: "loadWallet orgId walletId w = (r1, w1)" by fastforce
  have w1: "w_sent w1 = w_sent w"
    using preserves_runD [OF loadWallet_env(1) l, of "w_sent w"] by (simp add: silent_def)
  show ?thesis
  proof (cases r1)
    case (Inl e)
    with l assms w1 show ?thesis by (simp add: andThen_def)
  next
    case (Inr sv)
    obtain s v where sv: "sv = (s, v)" by fastforce
    with Inr l have own: "own_rows w orgId walletId s v" using loadWallet_returns by blast
    show ?thesis
    proof (cases hr)
      case (Inl e)
      with Inr sv l assms w1 show ?thesis by (simp add: andThen_def lift_res_run)
    next
      case h: (Inr h)
      with Inr sv l assms have "signAndLog orgId walletId s v h ev m w1 = (r, w')"
        by (simp add: andThen_def lift_res_run)
      from signAndLog_sends [OF this] own h w1 show ?thesis by (auto simp: asks_hash_def)
    qed
  qed
qed

text \<open>
  C9. Typed data.  A call of \<open>signEip712\<close> that sends anything has checked all four
  allowlists of the configuration: the name of the domain, the chain, the verifying
  contract and the primary type.  It sends one request, to sign the hash of exactly the
  data it was given, with the seed and the path of a wallet of the caller's organization.
  This holds whatever runs beside it and whatever fails.
\<close>

theorem typed_data_is_allowlisted:
  assumes "signEip712 X orgId walletId req w = (r, w')" and "w_sent w' \<noteq> w_sent w"
  shows "allowlisted X (w_env w) req \<and> (\<exists>s v h. own_rows w orgId walletId s v \<and>
    hashTypedData X (domain_of req) (er_types req) (er_primaryType req) (er_message req) = Inr h \<and>
    asks_hash s v h w w')"
proof (cases "allowlisted X (w_env w) req")
  case True
  with assms(1) assertEip712Allowed_run [of X w req]
  have "andThen (loadWallet orgId walletId) (\<lambda>(s, v). andThen (lift_res (hashTypedData X (domain_of req)
      (er_types req) (er_primaryType req) (er_message req))) (\<lambda>h. signAndLog orgId walletId s v h
      ''typed_data_signed'' [(''primaryType'', JStr (er_primaryType req))])) w = (r, w')"
    by (simp add: signEip712_def andThen_Inr)
  from load_and_sign_sends [OF this] assms(2) True show ?thesis by blast
next
  case False
  with assms(1) assertEip712Allowed_run [of X w req] have "w' = w"
    by (auto simp: signEip712_def andThen_def)
  with assms(2) show ?thesis by simp
qed

definition mail_domain :: json where
  "mail_domain = JObj [(''name'', JStr ''Mail''), (''chainId'', JNum 1),
     (''verifyingContract'', JStr ''0xCcCCccccCCCCcCCCCCCcCcCccCcCCCcCcccccccC'')]"

definition mail_request :: eip712_request where
  "mail_request = \<lparr>er_domain = Some mail_domain, er_types = JObj [], er_primaryType = ''Mail'',
     er_message = JObj []\<rparr>"

definition mail_env :: "string \<Rightarrow> string option" where
  "mail_env = [''EIP712_DOMAIN_ALLOWLIST'' \<mapsto> ''Permit, Mail'', ''EIP712_ALLOWED_CHAIN_IDS'' \<mapsto> ''x,1e0'',
     ''EIP712_ALLOWED_CONTRACTS'' \<mapsto> '' 0xcccccccccccccccccccccccccccccccccccccccC'',
     ''EIP712_ALLOWED_PRIMARY_TYPES'' \<mapsto> ''Mail'', ''CRYPTO_SERVICE_URL'' \<mapsto> ''http://crypto'',
     ''CRYPTO_AUTH_TOKEN'' \<mapsto> ''t'', ''PERSONAL_MESSAGE_SIGNING_ENABLED'' \<mapsto> ''TRUE'']"

definition mail_world :: world where
  "mail_world = calm_world (sample_db [] []) (\<lambda>_ _. NetError ''down'') mail_env 0"

theorem typed_data_is_allowlisted_witness:
  "allowlisted sample_ext mail_env mail_request \<and>
   w_sent (snd (signEip712 sample_ext ''org'' ''w'' mail_request mail_world)) \<noteq> []"
proof -
  let ?run = "signEip712 sample_ext ''org'' ''w'' mail_request mail_world"
  have sent: "length (w_sent (snd ?run)) = 1" by code_simp
  have w: "w_sent mail_world = []" "w_env mail_world = mail_env"
    by (simp_all add: mail_world_def calm_world_def)
  from sent w have "w_sent (snd ?run) \<noteq> w_sent mail_world" by auto
  from typed_data_is_allowlisted [OF prod.collapse [symmetric] this] w sent show ?thesis by auto
qed

text \<open>
  Denial by default.  A request that misses one of the four allowlists, in
  particular any request when one of the lists is empty or not configured, is refused as
  forbidden before anything is read or sent.
\<close>

theorem typed_data_denied_by_default:
  assumes "\<not> allowlisted X (w_env w) req \<or> csv (w_env w ''EIP712_DOMAIN_ALLOWLIST'') = [] \<or>
    chain_ids (csv (w_env w ''EIP712_ALLOWED_CHAIN_IDS'')) = [] \<or>
    csv (w_env w ''EIP712_ALLOWED_CONTRACTS'') = [] \<or> csv (w_env w ''EIP712_ALLOWED_PRIMARY_TYPES'') = []"
  shows "\<exists>m. signEip712 X orgId walletId req w = (Inl (ForbiddenException m), w)"
proof -
  have "\<not> allowlisted X (w_env w) req" using assms by (auto simp: allowlisted_def)
  with assertEip712Allowed_run [of X w req] show ?thesis by (auto simp: signEip712_def andThen_def)
qed

theorem typed_data_denied_by_default_witness:
  "\<exists>m. signEip712 sample_ext ''org'' ''w'' mail_request (mail_world\<lparr>w_env := Map.empty\<rparr>) =
     (Inl (ForbiddenException m), mail_world\<lparr>w_env := Map.empty\<rparr>)"
proof -
  have "csv (w_env (mail_world\<lparr>w_env := Map.empty\<rparr>) ''EIP712_DOMAIN_ALLOWLIST'') = []" by code_simp
  then show ?thesis using typed_data_denied_by_default [of sample_ext "mail_world\<lparr>w_env := Map.empty\<rparr>"] by blast
qed

text \<open>
  C34. Personal messages.  Unless the operator enabled them, a personal message is refused
  as forbidden and nothing is read or sent; when they are enabled, at most one request is
  sent, to sign the EIP-191 hash of the message with a wallet of the caller's organization.
\<close>

theorem personal_messages_are_opt_in:
  assumes "signPersonalMessage X orgId walletId message w = (r, w')"
  shows "if boolean_setting (w_env w ''PERSONAL_MESSAGE_SIGNING_ENABLED'') False
    then w_sent w' = w_sent w \<or>
      (\<exists>s v. own_rows w orgId walletId s v \<and> asks_hash s v (hashMessage X message) w w')
    else w' = w \<and> (\<exists>m. r = Inl (ForbiddenException m))"
proof (cases "boolean_setting (w_env w ''PERSONAL_MESSAGE_SIGNING_ENABLED'') False")
  case True
  with assms have "andThen (loadWallet orgId walletId) (\<lambda>(s, v). andThen (lift_res (Inr (hashMessage X message)))
      (\<lambda>h. signAndLog orgId walletId s v h ''message_signed'' [])) w = (r, w')"
    by (simp add: signPersonalMessage_def getBoolean_def config_get_def andThen_def ret_run lift_res_run
        split: prod.splits)
  from load_and_sign_sends [OF this] True show ?thesis by auto
next
  case False
  with assms show ?thesis
    by (auto simp: signPersonalMessage_def getBoolean_def config_get_def andThen_def ret_run throw_run)
qed

theorem personal_messages_are_opt_in_witness:
  "w_sent (snd (signPersonalMessage sample_ext ''org'' ''w'' ''hello'' (mail_world\<lparr>w_env := Map.empty\<rparr>))) = []"
proof -
  have off: "boolean_setting (w_env (mail_world\<lparr>w_env := Map.empty\<rparr>) ''PERSONAL_MESSAGE_SIGNING_ENABLED'') False = False"
    by (simp add: boolean_setting_def)
  from personal_messages_are_opt_in [OF prod.collapse [symmetric], where X = sample_ext and orgId = "''org''"
      and walletId = "''w''" and message = "''hello''" and w = "mail_world\<lparr>w_env := Map.empty\<rparr>"] off
  show ?thesis by (simp add: mail_world_def calm_world_def)
qed

end
