(* ===== verification/Dto.thy ===== *)
theory Dto
  imports Auth Users Signing
begin

text \<open>
  The validated bodies of the API (\<open>apps/api/src/organizations/dto\<close>,
  \<open>apps/api/src/wallets/dto\<close>) under the pipe of \<open>main.ts\<close>: a property without a
  decorator is refused, every decorator must hold, and what passes is handed to the
  controller.  One function per class, from the parsed body to the values the controller
  reads, where an optional property that is \<open>null\<close> counts as absent.

  The pipe is that of a package.  What the decorators check is written out; the three
  that need a format of their own are the functions of the record \<open>checks\<close>.  The text
  of a refusal, which lists the violations, is not modelled.
\<close>

record checks =
  isUUID :: "string \<Rightarrow> bool"
  isEmail :: "string \<Rightarrow> bool"
  isEthereumAddress :: "string \<Rightarrow> bool"

definition invalid_body :: js_error where
  "invalid_body = BadRequestException ''Bad Request Exception''"

section \<open>Decorators\<close>

text \<open>\<open>forbidNonWhitelisted\<close>: an object with no properties but these.\<close>

definition only_props :: "string list \<Rightarrow> json \<Rightarrow> bool" where
  "only_props ks j = (case j of JObj kvs \<Rightarrow> list_all (\<lambda>(k, _). k \<in> set ks) kvs | _ \<Rightarrow> False)"

definition required_prop :: "string \<Rightarrow> (json \<Rightarrow> bool) \<Rightarrow> json \<Rightarrow> bool" where
  "required_prop k p j = (case get_prop k j of None \<Rightarrow> False | Some v \<Rightarrow> p v)"

text \<open>\<open>@IsOptional()\<close>: the other decorators apply unless the value is missing or null.\<close>

definition optional_prop :: "string \<Rightarrow> (json \<Rightarrow> bool) \<Rightarrow> json \<Rightarrow> bool" where
  "optional_prop k p j = (case get_prop k j of None \<Rightarrow> True | Some v \<Rightarrow> v = JNull \<or> p v)"

text \<open>
  \<open>@ValidateNested()\<close>: a value that is missing or null passes, the elements of an array
  are validated one by one.
\<close>

definition nested_prop :: "string \<Rightarrow> (json \<Rightarrow> bool) \<Rightarrow> json \<Rightarrow> bool" where
  "nested_prop k p j = (case get_prop k j of None \<Rightarrow> True
     | Some (JArr xs) \<Rightarrow> list_all p xs | Some v \<Rightarrow> v = JNull \<or> p v)"

definition string_that :: "(string \<Rightarrow> bool) \<Rightarrow> json \<Rightarrow> bool" where
  "string_that p j = (case j of JStr s \<Rightarrow> p s | _ \<Rightarrow> False)"

definition length_between :: "nat \<Rightarrow> nat \<Rightarrow> string \<Rightarrow> bool" where
  "length_between a b s = (a \<le> length s \<and> length s \<le> b)"

definition int_between :: "int \<Rightarrow> int \<Rightarrow> json \<Rightarrow> bool" where
  "int_between a b j = (case j of JNum n \<Rightarrow> a \<le> n \<and> n \<le> b | _ \<Rightarrow> False)"

definition plain_object :: "json \<Rightarrow> bool" where
  "plain_object j = (case j of JObj _ \<Rightarrow> True | _ \<Rightarrow> False)"

definition string_array :: "json \<Rightarrow> bool" where
  "string_array j = (case j of JArr xs \<Rightarrow> list_all (string_that (\<lambda>_. True)) xs | _ \<Rightarrow> False)"

text \<open>Reading a validated property.\<close>

definition string_of :: "string \<Rightarrow> json \<Rightarrow> string" where
  "string_of k j = (case get_prop k j of Some (JStr s) \<Rightarrow> s | _ \<Rightarrow> [])"

definition string_opt :: "string \<Rightarrow> json \<Rightarrow> string option" where
  "string_opt k j = (case get_prop k j of Some (JStr s) \<Rightarrow> Some s | _ \<Rightarrow> None)"

definition int_of :: "string \<Rightarrow> json \<Rightarrow> int" where
  "int_of k j = (case get_prop k j of Some (JNum n) \<Rightarrow> n | _ \<Rightarrow> 0)"

definition int_opt :: "string \<Rightarrow> json \<Rightarrow> int option" where
  "int_opt k j = (case get_prop k j of Some (JNum n) \<Rightarrow> Some n | _ \<Rightarrow> None)"

definition value_of :: "string \<Rightarrow> json \<Rightarrow> json" where
  "value_of k j = (case get_prop k j of None \<Rightarrow> JNull | Some v \<Rightarrow> v)"

definition strings_opt :: "string \<Rightarrow> json \<Rightarrow> string list option" where
  "strings_opt k j = (case get_prop k j of Some (JArr xs) \<Rightarrow> Some (map js_String xs) | _ \<Rightarrow> None)"

section \<open>Organizations, keys, users, policies\<close>

definition decode_CreateOrganization :: "json \<Rightarrow> js_error + (string \<times> string)" where
  "decode_CreateOrganization j =
     (if only_props [''name'', ''slug''] j \<and>
         required_prop ''name'' (string_that (\<lambda>s. 1 \<le> length s)) j \<and>
         required_prop ''slug'' (string_that (\<lambda>s. 1 \<le> length s)) j
      then Inr (string_of ''name'' j, string_of ''slug'' j) else Inl invalid_body)"

definition decode_CreateApiKey :: "json \<Rightarrow> js_error + register_api_key" where
  "decode_CreateApiKey j =
     (if only_props [''name'', ''publicKey'', ''scopes''] j \<and>
         required_prop ''name'' (string_that (length_between 1 100)) j \<and>
         required_prop ''publicKey'' (string_that (\<lambda>s. 1 \<le> length s)) j \<and>
         optional_prop ''scopes'' string_array j
      then Inr \<lparr>rk_name = string_of ''name'' j, rk_publicKey = string_of ''publicKey'' j,
             rk_scopes = strings_opt ''scopes'' j\<rparr>
      else Inl invalid_body)"

definition decode_CreateUser :: "checks \<Rightarrow> json \<Rightarrow> js_error + create_user" where
  "decode_CreateUser C j =
     (if only_props [''externalId'', ''email'', ''role''] j \<and>
         required_prop ''externalId'' (string_that (length_between 1 255)) j \<and>
         optional_prop ''email'' (string_that (\<lambda>s. isEmail C s \<and> length s \<le> 320)) j \<and>
         optional_prop ''role'' (string_that (length_between 1 100)) j
      then Inr \<lparr>cu_externalId = string_of ''externalId'' j, cu_email = string_opt ''email'' j,
             cu_role = string_opt ''role'' j\<rparr>
      else Inl invalid_body)"

record create_policy =
  cp_name :: string
  cp_description :: "string option"
  cp_ruleType :: string
  cp_ruleConfig :: json
  cp_appliesTo :: "string option"
  cp_targetId :: "string option"
  cp_priority :: "int option"

definition rule_type_names :: "string list" where
  "rule_type_names = [''address_allowlist'', ''address_blocklist'', ''spend_limit'', ''time_lock'',
     ''calldata_allowlist'']"

definition valid_CreatePolicy :: "checks \<Rightarrow> json \<Rightarrow> bool" where
  "valid_CreatePolicy C j = (only_props [''name'', ''description'', ''ruleType'', ''ruleConfig'',
        ''appliesTo'', ''targetId'', ''priority''] j \<and>
     required_prop ''name'' (string_that (length_between 1 100)) j \<and>
     optional_prop ''description'' (string_that (\<lambda>_. True)) j \<and>
     required_prop ''ruleType'' (string_that (\<lambda>s. length_between 1 50 s \<and> s \<in> set rule_type_names)) j \<and>
     required_prop ''ruleConfig'' plain_object j \<and>
     optional_prop ''appliesTo'' (string_that (length_between 1 20)) j \<and>
     optional_prop ''targetId'' (string_that (isUUID C)) j \<and>
     optional_prop ''priority'' (int_between (-1000000000) 1000000000) j)"

definition decode_CreatePolicy :: "checks \<Rightarrow> json \<Rightarrow> js_error + create_policy" where
  "decode_CreatePolicy C j = (if valid_CreatePolicy C j
     then Inr \<lparr>cp_name = string_of ''name'' j, cp_description = string_opt ''description'' j,
       cp_ruleType = string_of ''ruleType'' j, cp_ruleConfig = value_of ''ruleConfig'' j,
       cp_appliesTo = string_opt ''appliesTo'' j, cp_targetId = string_opt ''targetId'' j,
       cp_priority = int_opt ''priority'' j\<rparr>
     else Inl invalid_body)"

section \<open>Wallets\<close>

record derive_wallet =
  dv_userId :: "string option"
  dv_label :: string
  dv_chainId :: "int option"

definition decode_DeriveWallet :: "checks \<Rightarrow> json \<Rightarrow> js_error + derive_wallet" where
  "decode_DeriveWallet C j =
     (if only_props [''userId'', ''label'', ''chainId''] j \<and>
         optional_prop ''userId'' (string_that (isUUID C)) j \<and>
         required_prop ''label'' (string_that (\<lambda>s. 1 \<le> length s)) j \<and>
         optional_prop ''chainId'' (int_between 1 99999999) j
      then Inr \<lparr>dv_userId = string_opt ''userId'' j, dv_label = string_of ''label'' j,
             dv_chainId = int_opt ''chainId'' j\<rparr>
      else Inl invalid_body)"

definition value_max_digits :: nat where
  "value_max_digits = 78"

definition data_max_hex_length :: int where
  "data_max_hex_length = 2 + 32 * 1024 * 2"

text \<open>\<open>/^0x(?:[0-9a-fA-F]{2})*$/\<close>.\<close>

definition hex_bytes :: "string \<Rightarrow> bool" where
  "hex_bytes s = (take 2 s = ''0x'' \<and> even (length s) \<and> list_all is_hex_digit (drop 2 s))"

definition valid_TxFields :: "checks \<Rightarrow> json \<Rightarrow> bool" where
  "valid_TxFields C j = (only_props [''chainId'', ''to'', ''value'', ''data''] j \<and>
     required_prop ''chainId'' (int_between 1 99999999) j \<and>
     required_prop ''to'' (string_that (isEthereumAddress C)) j \<and>
     required_prop ''value'' (string_that (\<lambda>s. is_canonical_dec s \<and> length s \<le> value_max_digits)) j \<and>
     required_prop ''data'' (string_that (\<lambda>s. hex_bytes s \<and> int (length s) \<le> data_max_hex_length)) j)"

text \<open>
  \<open>None\<close> stands for a body without an object in \<open>txFields\<close>: the nested validation lets
  it pass, and reading the fields of the transaction fails later.
\<close>

definition decode_SignTransaction :: "checks \<Rightarrow> json \<Rightarrow> js_error + sign_request option" where
  "decode_SignTransaction C j =
     (if only_props [''txFields''] j \<and> nested_prop ''txFields'' (valid_TxFields C) j
      then Inr (case get_prop ''txFields'' j of
          Some (JObj kvs) \<Rightarrow> (let t = JObj kvs in Some \<lparr>req_chainId = int_of ''chainId'' t,
            req_to = string_of ''to'' t, req_value = string_of ''value'' t, req_data = string_of ''data'' t\<rparr>)
        | _ \<Rightarrow> None)
      else Inl invalid_body)"

definition is_number :: "json \<Rightarrow> bool" where
  "is_number j = (case j of JNum _ \<Rightarrow> True | JFloat t \<Rightarrow> t \<noteq> ''NaN'' \<and> list_all is_decimal_char t | _ \<Rightarrow> False)"

definition valid_Domain :: "json \<Rightarrow> bool" where
  "valid_Domain j = (only_props [''name'', ''version'', ''chainId'', ''verifyingContract'', ''salt''] j \<and>
     optional_prop ''name'' (string_that (\<lambda>_. True)) j \<and>
     optional_prop ''version'' (string_that (\<lambda>_. True)) j \<and>
     optional_prop ''chainId'' is_number j \<and>
     optional_prop ''verifyingContract'' (string_that (\<lambda>_. True)) j \<and>
     optional_prop ''salt'' (string_that (\<lambda>_. True)) j)"

definition decode_SignTypedData :: "json \<Rightarrow> js_error + eip712_request" where
  "decode_SignTypedData j =
     (if only_props [''domain'', ''types'', ''primaryType'', ''message''] j \<and>
         nested_prop ''domain'' valid_Domain j \<and> required_prop ''types'' plain_object j \<and>
         required_prop ''primaryType'' (string_that (\<lambda>_. True)) j \<and>
         required_prop ''message'' plain_object j
      then Inr \<lparr>er_domain = get_prop ''domain'' j, er_types = value_of ''types'' j,
             er_primaryType = string_of ''primaryType'' j, er_message = value_of ''message'' j\<rparr>
      else Inl invalid_body)"

definition decode_SignMessage :: "json \<Rightarrow> js_error + string" where
  "decode_SignMessage j =
     (if only_props [''message''] j \<and> required_prop ''message'' (string_that (\<lambda>s. int (length s) \<le> 4096)) j
      then Inr (string_of ''message'' j) else Inl invalid_body)"

end
