(* ===== verification/Organizations.thy ===== *)
theory Organizations
  imports WalletService Auth
begin

text \<open>
  \<open>OrganizationsService\<close> (\<open>apps/api/src/organizations/organizations.service.ts\<close>): an
  organization is created, onboarded and given its bootstrap token in three calls that no
  transaction encloses.
\<close>

record public_organization =
  po_id :: string
  po_name :: string
  po_slug :: string
  po_status :: string
  po_plan :: string
  po_created_at :: int
  po_updated_at :: int

text \<open>The hash of the bootstrap token stays behind.\<close>

definition toPublicOrg :: "organization \<Rightarrow> public_organization" where
  "toPublicOrg r = \<lparr>po_id = o_id r, po_name = o_name r, po_slug = o_slug r, po_status = o_status r,
     po_plan = o_plan r, po_created_at = o_created_at r, po_updated_at = o_updated_at r\<rparr>"

record created_organization = public_organization +
  co_bootstrapToken :: string
  co_walletAddress :: string

definition slug_taken :: "string \<Rightarrow> js_error" where
  "slug_taken slug = ConflictException (''organization with slug '' @ quoted slug @ '' already exists'')"

definition createOrganization :: "ext \<Rightarrow> string \<Rightarrow> string \<Rightarrow> created_organization io" where
  "createOrganization X name slug =
     andThen (org_findBySlug slug) (\<lambda>existing.
     if existing \<noteq> None then throw (slug_taken slug)
     else andThen (org_create name slug) (\<lambda>org.
     andThen (onBoardOrganization (o_id org)) (\<lambda>(_, firstAddress).
     andThen (generateBootstrapToken X (o_id org)) (\<lambda>bootstrapToken.
     ret (public_organization.extend (toPublicOrg org)
            (created_organization.fields bootstrapToken firstAddress))))))"

definition findOneOrganization :: "string \<Rightarrow> public_organization option io" where
  "findOneOrganization orgId = andThen (org_findById orgId) (\<lambda>org. ret (map_option toPublicOrg org))"

definition findOrganizationBySlug :: "string \<Rightarrow> public_organization option io" where
  "findOrganizationBySlug slug = andThen (org_findBySlug slug) (\<lambda>org. ret (map_option toPublicOrg org))"

definition orgs_listWalletsByOrgId :: "string \<Rightarrow> wallet_view list io" where
  "orgs_listWalletsByOrgId orgId = listWalletsByOrgId orgId"

definition orgs_listSigningRequestsByOrgId :: "string \<Rightarrow> signing_request_view list io" where
  "orgs_listSigningRequestsByOrgId orgId = listSigningRequestsByOrgId orgId"

section \<open>A failed creation\<close>

definition slug_used :: "string \<Rightarrow> db \<Rightarrow> bool" where
  "slug_used slug d \<longleftrightarrow> slug \<in> set (map o_slug (organizations d))"

lemma slug_used_other [simp]:
  "slug_used slug (organization_seeds_update f d) = slug_used slug d"
  "slug_used slug (wallets_update g d) = slug_used slug d"
  "slug_used slug (audit_log_update h d) = slug_used slug d"
  by (simp_all add: slug_used_def)

lemma slug_used_update:
  assumes "\<And>r. o_slug (f r) = o_slug r"
  shows "slug_used slug (organizations_update (map_row p f) d) = slug_used slug d"
  unfolding slug_used_def using assms by (simp add: map_map_row del: set_map list.set_map)

lemma slug_used_find: "slug_used slug d \<longleftrightarrow> find_row (\<lambda>r. o_slug r = slug) (organizations d) \<noteq> None"
  by (auto simp: slug_used_def find_row_None)

lemma not_null_env [preserves_intros]: "preserves I (not_null x)"
  unfolding not_null_def by (intro preserves_intros)

lemma stable_onBoardOrganization: "preserves (stable (slug_used slug)) (onBoardOrganization orgId)"
  unfolding onBoardOrganization_def seed_findByOrgId_def seed_create_def wallet_create_def
  by (intro preserves_intros stable_create_row stable_audit_create) simp_all

lemma stable_generateBootstrapToken: "preserves (stable (slug_used slug)) (generateBootstrapToken X orgId)"
  unfolding generateBootstrapToken_def org_update_def
  by (intro preserves_intros stable_update_row) (simp add: slug_used_update)

lemma quiet_creation:
  "preserves quiet (onBoardOrganization orgId)" "preserves quiet (generateBootstrapToken X orgId)"
  unfolding onBoardOrganization_def seed_findByOrgId_def seed_create_def wallet_create_def
    generateBootstrapToken_def org_update_def by (intro preserves_intros)+

lemma createOrganization_conflict:
  assumes "quiet w" and "slug_used slug (w_db w)"
  shows "createOrganization X name slug w = (Inl (slug_taken slug), tick w)"
  using assms by (auto simp: createOrganization_def andThen_def org_findBySlug_def query_quiet throw_run
      slug_used_find)

lemma org_create_quiet:
  assumes "quiet w" and "w_uuid w (w_draws w) \<notin> o_id ` set (organizations (w_db w))"
    and "\<not> slug_used slug (w_db w)"
  shows "\<exists>r w'. org_create name slug w = (Inr r, w') \<and> quiet w' \<and> slug_used slug (w_db w')"
proof -
  let ?w = "w\<lparr>w_draws := Suc (w_draws w), w_reads := Suc (w_reads w)\<rparr>"
  let ?r = "\<lparr>o_id = w_uuid w (w_draws w), o_name = name, o_slug = slug, o_status = ''active'',
    o_plan = ''starter'', o_bootstrap_token_hash = None, o_created_at = w_clock w (w_reads w),
    o_updated_at = w_clock w (w_reads w)\<rparr>"
  have "\<not> list_ex (\<lambda>r'. organization_conflict r' ?r) (organizations (w_db w))"
    using assms(2,3) by (simp add: list_ex_iff organization_conflict_def slug_used_def image_iff) metis
  then have "insert_row organization_conflict ?r (organizations (w_db w)) = Inr (organizations (w_db w) @ [?r])"
    by (simp add: insert_row_def)
  then have "org_create name slug w = (Inr ?r, (tick ?w)\<lparr>w_db := organizations_update (\<lambda>_. organizations (w_db w) @ [?r]) (w_db w)\<rparr>)"
    using assms(1) by (simp add: org_create_def create_row_def randomUUID_def now_def andThen_def stmt_quiet)
  then show ?thesis using assms(1) by (simp add: slug_used_def)
qed

text \<open>
  C37. Creation is not atomic.  Undisturbed, whatever the outcome of a creation whose
  slug was free, also when the signing service fails and the caller gets an error, the slug is taken
  afterwards: the next creation with it is refused as a conflict and changes nothing.
\<close>

theorem failed_creation_keeps_the_slug:
  assumes "quiet w" and "w_uuid w (w_draws w) \<notin> o_id ` set (organizations (w_db w))"
    and "createOrganization X name slug w = (r, w')"
  shows "createOrganization X name2 slug w' = (Inl (slug_taken slug), tick w')"
proof -
  have "quiet w' \<and> slug_used slug (w_db w')"
  proof (cases "slug_used slug (w_db w)")
    case True
    with assms show ?thesis using createOrganization_conflict [of w slug X name] by auto
  next
    case False
    let ?rest = "\<lambda>org. andThen (onBoardOrganization (o_id org)) (\<lambda>(_, firstAddress).
      andThen (generateBootstrapToken X (o_id org)) (\<lambda>bootstrapToken.
      ret (public_organization.extend (toPublicOrg org) (created_organization.fields bootstrapToken firstAddress))))"
    from org_create_quiet [of "tick w" slug name] assms(1,2) False obtain org w1 where
      c: "org_create name slug (tick w) = (Inr org, w1)" "quiet w1" "slug_used slug (w_db w1)"
      by (auto simp: tick_def)
    have "?rest org w1 = (r, w')"
      using assms(1,3) c(1) False
      by (simp add: createOrganization_def andThen_def org_findBySlug_def query_quiet slug_used_find)
    moreover have "preserves quiet (?rest org)" by (intro preserves_intros quiet_creation)
    moreover have "preserves (stable (slug_used slug)) (?rest org)"
      by (intro preserves_intros stable_onBoardOrganization stable_generateBootstrapToken)
    moreover have "stable (slug_used slug) w1" using c(2,3) by (rule quiet_stable)
    ultimately have "quiet w'" and "stable (slug_used slug) w'" using c(2) by (blast intro: preserves_runD)+
    then show ?thesis by (simp add: stableD)
  qed
  then show ?thesis by (simp add: createOrganization_conflict)
qed

theorem failed_creation_keeps_the_slug_witness:
  "isl (fst (createOrganization sample_ext ''Acme'' ''acme'' (calm_world empty_db (\<lambda>_ _. NetError ''down'') Map.empty 0))) \<and>
   fst (createOrganization sample_ext ''Acme'' ''acme'' (snd (createOrganization sample_ext ''Acme'' ''acme''
     (calm_world empty_db (\<lambda>_ _. NetError ''down'') Map.empty 0)))) = Inl (slug_taken ''acme'')"
proof -
  let ?w = "calm_world empty_db (\<lambda>_ _. NetError ''down'') Map.empty 0"
  have "isl (fst (createOrganization sample_ext ''Acme'' ''acme'' ?w))" by code_simp
  moreover have "w_uuid ?w (w_draws ?w) \<notin> o_id ` set (organizations (w_db ?w))"
    by (simp add: calm_world_def empty_db_def)
  note failed_creation_keeps_the_slug [OF quiet_calm_world this prod.collapse [symmetric],
      where X = sample_ext and name = "''Acme''" and slug = "''acme''" and ?name2.0 = "''Acme''"]
  ultimately show ?thesis by simp
qed

end
