(* ===== verification/Api.thy ===== *)
theory Api
  imports Dto Organizations
begin

text \<open>
  The HTTP surface (\<open>apps/api/src\<close>).  \<open>serve\<close> is the path of a request that
  \<open>main.ts\<close> and \<open>api.module.ts\<close> lay out: the request context, the parser of the
  body, the three global guards in their order of registration, the pipe that validates
  the body, and the handler of the controller, whose routes carry the decorators of the
  source.  One definition per route.

  The parser of bodies, the counters of the rate limiter and the formats of the validator
  belong to packages: they are fields of the record \<open>edge\<close>.
\<close>

record edge =
  ed_ext :: ext
  ed_checks :: checks
  ed_paging :: paging
  ed_parseBody :: "string \<Rightarrow> json option"
    \<comment> \<open>\<open>express.json\<close> on the bytes it captured; \<open>None\<close> when they are not JSON\<close>
  ed_admits :: "string \<Rightarrow> bool"
    \<comment> \<open>the rate limiter still has room for the tracker\<close>

section \<open>The path of a request\<close>

definition request_context_of :: "request \<Rightarrow> request_context" where
  "request_context_of rq = \<lparr>rc_ip = hr_ip rq, rc_userAgent = hr_headers rq ''user-agent''\<rparr>"

text \<open>A request without a JSON body has no raw body either, and counts as the empty object.\<close>

definition parsedBody :: "edge \<Rightarrow> request \<Rightarrow> js_error + json" where
  "parsedBody E rq = (case hr_rawBody rq of None \<Rightarrow> Inr (JObj [])
     | Some s \<Rightarrow> (case ed_parseBody E s of
         None \<Rightarrow> Inl (BadRequestException ''Unexpected token in JSON'') | Some j \<Rightarrow> Inr j))"

definition throttlerGuard :: "edge \<Rightarrow> request \<Rightarrow> request io" where
  "throttlerGuard E rq = (if ed_admits E (getTracker rq) then ret rq
     else throw (HttpException 429 ''ThrottlerException: Too Many Requests''))"

definition guards :: "edge \<Rightarrow> route \<Rightarrow> request \<Rightarrow> request io" where
  "guards E rt rq =
     andThen (stampVerifier (ed_ext E) rt rq) (\<lambda>rq1.
     andThen (throttlerGuard E rq1) (\<lambda>rq2. scopesGuard rt rq2))"

definition serve :: "edge \<Rightarrow> route \<Rightarrow> (json \<Rightarrow> js_error + 'd) \<Rightarrow> (request \<Rightarrow> 'd \<Rightarrow> 'a io) \<Rightarrow>
    request \<Rightarrow> 'a io" where
  "serve E rt decode handler rq = runWithRequestContext (request_context_of rq)
     (andThen (lift_res (parsedBody E rq)) (\<lambda>body.
      andThen (guards E rt rq) (\<lambda>rq'.
      andThen (lift_res (decode body)) (\<lambda>dto. handler rq' dto))))"

text \<open>A handler that takes nothing from the body.\<close>

definition no_body :: "json \<Rightarrow> js_error + unit" where
  "no_body j = Inr ()"

text \<open>\<open>@CurrentUser('orgId')\<close>.\<close>

definition currentOrgId :: "request \<Rightarrow> string io" where
  "currentOrgId rq = (case hr_user rq of
     None \<Rightarrow> throw (JsError ''Cannot read properties of undefined (reading orgId)'')
   | Some u \<Rightarrow> ret (au_orgId u))"

text \<open>The decorators of a route: \<open>@Public()\<close>, \<open>@OptionalStamp()\<close>, \<open>@Scopes(s)\<close>, none.\<close>

definition public_route :: route where
  "public_route = \<lparr>rt_public = True, rt_optionalStamp = False, rt_scopes = None\<rparr>"

definition optional_stamp_route :: route where
  "optional_stamp_route = \<lparr>rt_public = False, rt_optionalStamp = True, rt_scopes = None\<rparr>"

definition scoped_route :: "string \<Rightarrow> route" where
  "scoped_route s = \<lparr>rt_public = False, rt_optionalStamp = False, rt_scopes = Some [s]\<rparr>"

definition stamped_route :: route where
  "stamped_route = \<lparr>rt_public = False, rt_optionalStamp = False, rt_scopes = None\<rparr>"

text \<open>A route of the caller's organization.\<close>

definition serve_org :: "edge \<Rightarrow> string \<Rightarrow> (json \<Rightarrow> js_error + 'd) \<Rightarrow> (string \<Rightarrow> 'd \<Rightarrow> 'a io) \<Rightarrow>
    request \<Rightarrow> 'a io" where
  "serve_org E scope decode handler = serve E (scoped_route scope) decode
     (\<lambda>rq dto. andThen (currentOrgId rq) (\<lambda>orgId. handler orgId dto))"

section \<open>OrganizationsController\<close>

definition organizations_create :: "edge \<Rightarrow> request \<Rightarrow> created_organization io" where
  "organizations_create E = serve E public_route decode_CreateOrganization
     (\<lambda>_ (name, slug). createOrganization (ed_ext E) name slug)"

definition organizations_findOne :: "edge \<Rightarrow> request \<Rightarrow> public_organization option io" where
  "organizations_findOne E = serve_org E ''wallet:read'' no_body (\<lambda>orgId _. findOneOrganization orgId)"

definition organizations_findBySlug :: "edge \<Rightarrow> string \<Rightarrow> request \<Rightarrow> public_organization option io" where
  "organizations_findBySlug E slug = serve_org E ''wallet:read'' no_body (\<lambda>orgId _.
     andThen (findOrganizationBySlug slug) (\<lambda>found. ret (case found of None \<Rightarrow> None
       | Some org \<Rightarrow> if po_id org \<noteq> orgId then None else Some org)))"

definition organizations_listWallets :: "edge \<Rightarrow> request \<Rightarrow> wallet_view list io" where
  "organizations_listWallets E = serve_org E ''wallet:read'' no_body (\<lambda>orgId _. orgs_listWalletsByOrgId orgId)"

definition organizations_listSigningRequests :: "edge \<Rightarrow> request \<Rightarrow> signing_request_view list io" where
  "organizations_listSigningRequests E =
     serve_org E ''wallet:read'' no_body (\<lambda>orgId _. orgs_listSigningRequestsByOrgId orgId)"

record audit_params =
  ap_event :: "string option"
  ap_userId :: "string option"
  ap_walletId :: "string option"
  ap_startDate :: "string option"
  ap_endDate :: "string option"
  ap_limit :: "string option"
  ap_offset :: "string option"

text \<open>
  \<open>startDate ? new Date(startDate) : undefined\<close>; a date that is not valid raises when
  the statement is built.
\<close>

definition date_param :: "ext \<Rightarrow> string option \<Rightarrow> js_error + int option" where
  "date_param X x = (case given x of None \<Rightarrow> Inr None
     | Some s \<Rightarrow> (case parseDate X s of None \<Rightarrow> Inl (JsError ''Invalid time value'') | Some t \<Rightarrow> Inr (Some t)))"

definition int_param :: "string option \<Rightarrow> int \<Rightarrow> js_num" where
  "int_param x dflt = (case given x of None \<Rightarrow> NInt dflt | Some s \<Rightarrow> parseInt10 s)"

definition organizations_queryAuditLog :: "edge \<Rightarrow> audit_params \<Rightarrow> request \<Rightarrow> (string \<times> audit_entry) list io" where
  "organizations_queryAuditLog E ps = serve_org E ''wallet:read'' no_body (\<lambda>orgId _.
     andThen (lift_res (date_param (ed_ext E) (ap_startDate ps))) (\<lambda>startDate.
     andThen (lift_res (date_param (ed_ext E) (ap_endDate ps))) (\<lambda>endDate.
     andThen (audit_query (ed_paging E) \<lparr>q_orgId = orgId, q_event = ap_event ps, q_userId = ap_userId ps,
        q_walletId = ap_walletId ps, q_startDate = startDate, q_endDate = endDate,
        q_limit = Some (int_param (ap_limit ps) 50), q_offset = Some (int_param (ap_offset ps) 0)\<rparr>) (\<lambda>entries.
     ret (map (\<lambda>e. (show_int (a_id e), e)) entries)))))"

section \<open>ApiKeysController\<close>

definition registerHandler :: "edge \<Rightarrow> request \<Rightarrow> register_api_key \<Rightarrow> api_key_view io" where
  "registerHandler E rq body =
     (let bootstrapToken = given (hr_headers rq ''x-bootstrap-token'');
          requestingKeyId = given (map_option au_apiKeyId (hr_user rq))
      in andThen (case (given (map_option au_orgId (hr_user rq)), bootstrapToken) of
            (Some orgId, _) \<Rightarrow> ret (Some orgId)
          | (None, Some token) \<Rightarrow> resolveOrgIdFromBootstrapToken (ed_ext E) token
          | (None, None) \<Rightarrow> ret None) (\<lambda>orgId.
         case given orgId of
           None \<Rightarrow> throw (BadRequestException ''Either bootstrap token or valid API key required'')
         | Some i \<Rightarrow> registerApiKey (ed_ext E) i body bootstrapToken requestingKeyId))"

definition apiKeys_register :: "edge \<Rightarrow> request \<Rightarrow> api_key_view io" where
  "apiKeys_register E = serve E optional_stamp_route decode_CreateApiKey (registerHandler E)"

definition apiKeys_list :: "edge \<Rightarrow> request \<Rightarrow> api_key_listed list io" where
  "apiKeys_list E = serve E stamped_route no_body (\<lambda>rq _. andThen (currentOrgId rq) listApiKeys)"

definition apiKeys_revoke :: "edge \<Rightarrow> string \<Rightarrow> request \<Rightarrow> unit io" where
  "apiKeys_revoke E keyId = serve_org E ''key:write'' no_body (\<lambda>orgId _. revokeApiKey orgId keyId)"

section \<open>PoliciesController\<close>

definition new_policy_of :: "create_policy \<Rightarrow> new_policy" where
  "new_policy_of b = \<lparr>np_name = cp_name b, np_description = cp_description b, np_rule_type = cp_ruleType b,
     np_rule_config = cp_ruleConfig b,
     np_applies_to = (case cp_appliesTo b of None \<Rightarrow> ''all'' | Some s \<Rightarrow> s),
     np_target_id = cp_targetId b, np_priority = (case cp_priority b of None \<Rightarrow> 0 | Some n \<Rightarrow> n),
     np_status = ''active''\<rparr>"

definition policies_create :: "edge \<Rightarrow> request \<Rightarrow> policy io" where
  "policies_create E = serve_org E ''policy:write'' (decode_CreatePolicy (ed_checks E))
     (\<lambda>orgId body. createPolicy (ed_ext E) orgId (new_policy_of body))"

definition policies_list :: "edge \<Rightarrow> request \<Rightarrow> policy list io" where
  "policies_list E = serve_org E ''wallet:read'' no_body (\<lambda>orgId _. listPolicies orgId)"

definition policies_delete :: "edge \<Rightarrow> string \<Rightarrow> request \<Rightarrow> unit io" where
  "policies_delete E policyId = serve_org E ''policy:write'' no_body (\<lambda>orgId _. deletePolicy orgId policyId)"

section \<open>UsersController\<close>

definition users_create :: "edge \<Rightarrow> request \<Rightarrow> user_view io" where
  "users_create E = serve_org E ''key:write'' (decode_CreateUser (ed_checks E)) createUser"

definition users_list :: "edge \<Rightarrow> request \<Rightarrow> user_view list io" where
  "users_list E = serve_org E ''wallet:read'' no_body (\<lambda>orgId _. listUsers orgId)"

definition users_get :: "edge \<Rightarrow> string \<Rightarrow> request \<Rightarrow> (string \<times> user_view) io" where
  "users_get E userId = serve_org E ''wallet:read'' no_body (\<lambda>orgId _. getUser orgId userId)"

definition users_delete :: "edge \<Rightarrow> string \<Rightarrow> request \<Rightarrow> unit io" where
  "users_delete E userId = serve_org E ''key:write'' no_body (\<lambda>orgId _. deleteUser orgId userId)"

section \<open>WalletsController\<close>

definition wallets_findOne :: "edge \<Rightarrow> string \<Rightarrow> request \<Rightarrow> wallet_view io" where
  "wallets_findOne E i = serve_org E ''wallet:read'' no_body (\<lambda>orgId _. getWalletById i orgId)"

definition wallets_listSigningRequests :: "edge \<Rightarrow> string \<Rightarrow> request \<Rightarrow> signing_request_view list io" where
  "wallets_listSigningRequests E i =
     serve_org E ''wallet:read'' no_body (\<lambda>orgId _. listSigningRequestsByWalletId i orgId)"

definition wallets_getSigningRequest :: "edge \<Rightarrow> string \<Rightarrow> string \<Rightarrow> request \<Rightarrow> signing_request_view io" where
  "wallets_getSigningRequest E walletId requestId =
     serve_org E ''wallet:read'' no_body (\<lambda>orgId _. getSigningRequestById orgId walletId requestId)"

definition wallets_derive :: "edge \<Rightarrow> request \<Rightarrow> (string \<times> string) io" where
  "wallets_derive E = serve_org E ''wallet:create'' (decode_DeriveWallet (ed_checks E))
     (\<lambda>orgId dto. deriveWallet orgId (dv_userId dto) (dv_label dto) (dv_chainId dto))"

definition wallets_signTransaction :: "edge \<Rightarrow> string \<Rightarrow> request \<Rightarrow> sign_result io" where
  "wallets_signTransaction E walletId = serve_org E ''wallet:sign'' (decode_SignTransaction (ed_checks E))
     (\<lambda>orgId dto. case dto of
        None \<Rightarrow> throw (JsError ''Cannot read properties of undefined (reading chainId)'')
      | Some req \<Rightarrow> requestSign (ed_ext E) orgId walletId req)"

definition wallets_signTyped :: "edge \<Rightarrow> string \<Rightarrow> request \<Rightarrow> typed_sign_result io" where
  "wallets_signTyped E walletId = serve_org E ''wallet:sign'' decode_SignTypedData
     (\<lambda>orgId req. signEip712 (ed_ext E) orgId walletId req)"

definition wallets_signMessage :: "edge \<Rightarrow> string \<Rightarrow> request \<Rightarrow> typed_sign_result io" where
  "wallets_signMessage E walletId = serve_org E ''wallet:sign'' decode_SignMessage
     (\<lambda>orgId message. signPersonalMessage (ed_ext E) orgId walletId message)"

end
