(* ===== verification/ApiRuns.thy ===== *)
theory ApiRuns
  imports Api SigningRuns
begin

text \<open>
  What the routes promise: nothing of an organization is returned and nothing is sent but
  on the authority of one of its keys (\<open>serve_org_outcome\<close>), and what the validated
  bodies guarantee to the services behind them.
\<close>

section \<open>Routes of an organization\<close>

text \<open>The request carries a stamp of the key, as the database stood when the key was looked up.\<close>

definition authenticated :: "ext \<Rightarrow> request \<Rightarrow> world \<Rightarrow> api_key \<Rightarrow> bool" where
  "authenticated X rq w k \<longleftrightarrow> (\<exists>stamp sig ts. stamp_header rq = Some stamp \<and>
     js_split CHR ''.'' stamp = [sig, ts, k_key_id k] \<and>
     k \<in> set (api_keys (w_sched w (w_stmts w) (w_db w))) \<and> k_status k = ''active'' \<and>
     (case k_expires_at k of None \<Rightarrow> True | Some e \<Rightarrow> \<exists>m. w_clock w m \<le> e) \<and>
     in_window (w_clock w (w_reads w)) (int (dec_value ts)) \<and>
     verifyP256 X (k_public_key k) (signedPayload X (int (dec_value ts)) rq) (fromBase64 X sig) = Some True)"

lemma authenticated_ctx [simp]: "authenticated X rq (w\<lparr>w_ctx := c\<rparr>) k = authenticated X rq w k"
  by (simp add: authenticated_def cong: option.case_cong)

definition grants :: "api_key \<Rightarrow> string \<Rightarrow> bool" where
  "grants k scope \<longleftrightarrow> scope \<in> set (k_scopes k) \<or> ''*'' \<in> set (k_scopes k)"

lemma scoped_stamp_returns:
  assumes "stampVerifier X (scoped_route s) rq w = (Inr rq', w')"
  shows "\<exists>k. authenticated X rq w k \<and> rq' = rq\<lparr>hr_user := Some (auth_user_of k)\<rparr>"
proof -
  from assms obtain stamp where "stamp_header rq = Some stamp" "verifyStamp X rq stamp w = (Inr rq', w')"
    by (auto simp: stampVerifier_def scoped_route_def throw_run split: option.splits)
  with verifyStamp_returns show ?thesis unfolding authenticated_def by blast
qed

lemma scoped_guards_return:
  assumes "guards E (scoped_route s) rq w = (Inr rq', w')"
  shows "\<exists>k. authenticated (ed_ext E) rq w k \<and> grants k s \<and>
    rq' = rq\<lparr>hr_user := Some (auth_user_of k)\<rparr> \<and> ed_admits E (getTracker rq')"
proof -
  from assms obtain rq1 w1 where st: "stampVerifier (ed_ext E) (scoped_route s) rq w = (Inr rq1, w1)"
    and rest: "andThen (throttlerGuard E rq1) (\<lambda>rq2. scopesGuard (scoped_route s) rq2) w1 = (Inr rq', w')"
    unfolding guards_def by (rule andThen_returns)
  from scoped_stamp_returns [OF st] obtain k where
    k: "authenticated (ed_ext E) rq w k" "rq1 = rq\<lparr>hr_user := Some (auth_user_of k)\<rparr>" by blast
  from rest have "ed_admits E (getTracker rq1)" "rq' = rq1" "grants k s"
    using k(2) by (auto simp: throttlerGuard_def scopesGuard_def scoped_route_def grants_def auth_user_of_def
        andThen_def throw_run ret_run split: if_splits)
  with k show ?thesis by blast
qed

lemma stampVerifier_silent [preserves_intros]: "preserves (silent rs) (stampVerifier X rt rq)"
  unfolding stampVerifier_def verifyStamp_def checkExpiry_def checkSignature_def apiKey_findByKeyId_def
    apiKey_update_def Let_def
  by (intro preserves_intros | auto intro!: preserves_intros split: list.split bool.split)+

lemma guards_silent [preserves_intros]: "preserves (silent rs) (guards E rt rq)"
  unfolding guards_def throttlerGuard_def scopesGuard_def Let_def by (intro preserves_intros)

text \<open>The guards write nothing but the time of the last use of a key.\<close>

definition only_keys :: "(db \<Rightarrow> bool) \<Rightarrow> bool" where
  "only_keys J \<longleftrightarrow> (\<forall>d g. J (api_keys_update g d) = J d)"

lemma guards_keep:
  assumes "\<And>d p t. J d \<Longrightarrow> J (api_keys_update (map_row p (\<lambda>k. k\<lparr>k_last_used_at := t\<rparr>)) d)"
  shows "preserves (stable J) (guards E rt rq)"
  unfolding guards_def throttlerGuard_def scopesGuard_def stampVerifier_def verifyStamp_def checkExpiry_def
    checkSignature_def apiKey_findByKeyId_def apiKey_update_def Let_def
  by (intro preserves_intros
      | auto intro!: preserves_intros stable_update_row assms split: list.split bool.split)+

lemma guards_stable: "only_keys J \<Longrightarrow> preserves (stable J) (guards E rt rq)"
  by (rule guards_keep) (simp add: only_keys_def)

definition keeps_tables :: "world \<Rightarrow> world \<Rightarrow> bool" where
  "keeps_tables w w' \<longleftrightarrow> (\<forall>J. only_keys J \<longrightarrow> stable J w \<longrightarrow> stable J w')"

text \<open>A request that returns, or that sends anything, was let through to its handler.\<close>

lemma serve_outcome:
  assumes "serve E rt decode h rq w = (r, w')" and "(\<exists>x. r = Inr x) \<or> w_sent w' \<noteq> w_sent w"
  shows "\<exists>j dto rq' w1 w2. parsedBody E rq = Inr j \<and> decode j = Inr dto \<and>
    guards E rt rq (w\<lparr>w_ctx := Some (request_context_of rq)\<rparr>) = (Inr rq', w1) \<and>
    h rq' dto w1 = (r, w2) \<and> w_sent w1 = w_sent w \<and> keeps_tables w w1 \<and> w' = w2\<lparr>w_ctx := w_ctx w\<rparr>"
proof -
  let ?w0 = "w\<lparr>w_ctx := Some (request_context_of rq)\<rparr>"
  obtain g w1 where g: "guards E rt rq ?w0 = (g, w1)" by fastforce
  have w1: "w_sent w1 = w_sent w"
    using preserves_runD [OF guards_silent g, of "w_sent w"] by (simp add: silent_def)
  have keeps: "keeps_tables w w1"
    using preserves_runD [OF guards_stable g] by (simp add: keeps_tables_def)
  show ?thesis
  proof (cases "parsedBody E rq")
    case (Inl e)
    with assms show ?thesis by (auto simp: serve_def runWithRequestContext_def andThen_def lift_res_run)
  next
    case j: (Inr j)
    show ?thesis
    proof (cases g)
      case (Inl e)
      with j g assms w1 show ?thesis by (auto simp: serve_def runWithRequestContext_def andThen_def lift_res_run)
    next
      case rq': (Inr rq')
      show ?thesis
      proof (cases "decode j")
        case (Inl e)
        with j g rq' assms w1 show ?thesis
          by (auto simp: serve_def runWithRequestContext_def andThen_def lift_res_run)
      next
        case (Inr dto)
        obtain x w2 where h: "h rq' dto w1 = (x, w2)" by fastforce
        with j g rq' Inr assms(1) have "x = r" "w' = w2\<lparr>w_ctx := w_ctx w\<rparr>"
          by (auto simp: serve_def runWithRequestContext_def andThen_def lift_res_run)
        with h j g rq' Inr w1 keeps show ?thesis by blast
      qed
    qed
  qed
qed

text \<open>What the handler of a route of an organization runs on.\<close>

definition authorized_call :: "edge \<Rightarrow> string \<Rightarrow> request \<Rightarrow> world \<Rightarrow> (json \<Rightarrow> js_error + 'd) \<Rightarrow>
    (string \<Rightarrow> 'd \<Rightarrow> 'a io) \<Rightarrow> js_error + 'a \<Rightarrow> world \<Rightarrow> bool" where
  "authorized_call E s rq w decode h r w' \<longleftrightarrow> (\<exists>k j dto w1 w2. authenticated (ed_ext E) rq w k \<and> grants k s \<and>
     ed_admits E (getTracker (rq\<lparr>hr_user := Some (auth_user_of k)\<rparr>)) \<and>
     parsedBody E rq = Inr j \<and> decode j = Inr dto \<and>
     h (k_org_id k) dto w1 = (r, w2) \<and> w_sent w1 = w_sent w \<and> keeps_tables w w1 \<and> w' = w2\<lparr>w_ctx := w_ctx w\<rparr>)"

lemma serve_org_outcome:
  assumes "serve_org E s decode h rq w = (r, w')" and "(\<exists>x. r = Inr x) \<or> w_sent w' \<noteq> w_sent w"
  shows "authorized_call E s rq w decode h r w'"
proof -
  from serve_outcome [OF assms(1) [unfolded serve_org_def] assms(2)] obtain j dto rq' w1 w2 where
    j: "parsedBody E rq = Inr j" "decode j = Inr dto"
    and g: "guards E (scoped_route s) rq (w\<lparr>w_ctx := Some (request_context_of rq)\<rparr>) = (Inr rq', w1)"
    and h: "andThen (currentOrgId rq') (\<lambda>orgId. h orgId dto) w1 = (r, w2)"
    and w: "w_sent w1 = w_sent w" "keeps_tables w w1" "w' = w2\<lparr>w_ctx := w_ctx w\<rparr>" by blast
  from scoped_guards_return [OF g] obtain k where k: "authenticated (ed_ext E) rq w k" "grants k s"
    "rq' = rq\<lparr>hr_user := Some (auth_user_of k)\<rparr>" "ed_admits E (getTracker rq')" by auto
  from h k(3) have "h (k_org_id k) dto w1 = (r, w2)" by (simp add: currentOrgId_def auth_user_of_def)
  with j k w show ?thesis unfolding authorized_call_def by blast
qed

lemma refuses_keys: "refuses X orgId walletId tx (api_keys_update g d) = refuses X orgId walletId tx d"
  by (simp add: refuses_def applicable_def select_policies_def)

text \<open>
  C2. Authorization of the signing route.  When a call of \<open>POST
  /wallets/:id/sign-transaction\<close> sends anything to a node or to the signing service, or
  returns a result, then the request carries a fresh stamp over its raw body by an active
  key that grants \<open>wallet:sign\<close>, the rate limiter admitted that key, the body is a valid
  transaction, and what runs is \<open>requestSign\<close> of exactly this transaction for the
  organization of the key.  If anything is sent, the policies of that organization do not
  refuse this transaction throughout the call.  This holds whatever runs beside it.
\<close>

theorem signing_route_is_authorized:
  assumes "wallets_signTransaction E walletId rq w = (r, w')" and "(\<exists>x. r = Inr x) \<or> w_sent w' \<noteq> w_sent w"
  shows "\<exists>k j req w1 w2. authenticated (ed_ext E) rq w k \<and> grants k ''wallet:sign'' \<and>
    ed_admits E (getTracker (rq\<lparr>hr_user := Some (auth_user_of k)\<rparr>)) \<and>
    parsedBody E rq = Inr j \<and> decode_SignTransaction (ed_checks E) j = Inr (Some req) \<and>
    requestSign (ed_ext E) (k_org_id k) walletId req w1 = (r, w2) \<and>
    w_sent w1 = w_sent w \<and> w' = w2\<lparr>w_ctx := w_ctx w\<rparr> \<and>
    (w_sent w' \<noteq> w_sent w \<longrightarrow>
      \<not> stable (refuses (ed_ext E) (k_org_id k) walletId (policy_payload (ed_ext E) req)) w)"
proof -
  from serve_org_outcome [OF assms(1) [unfolded wallets_signTransaction_def] assms(2)]
  obtain k j dto w1 w2 where *: "authenticated (ed_ext E) rq w k" "grants k ''wallet:sign''"
    "ed_admits E (getTracker (rq\<lparr>hr_user := Some (auth_user_of k)\<rparr>))"
    "parsedBody E rq = Inr j" "decode_SignTransaction (ed_checks E) j = Inr dto"
    and run: "(case dto of None \<Rightarrow> throw (JsError ''Cannot read properties of undefined (reading chainId)'')
      | Some req \<Rightarrow> requestSign (ed_ext E) (k_org_id k) walletId req) w1 = (r, w2)"
    and w: "w_sent w1 = w_sent w" "keeps_tables w w1" "w' = w2\<lparr>w_ctx := w_ctx w\<rparr>"
    unfolding authorized_call_def by blast
  show ?thesis
  proof (cases dto)
    case None
    with run w assms(2) show ?thesis by (auto simp: throw_run)
  next
    case (Some req)
    let ?J = "refuses (ed_ext E) (k_org_id k) walletId (policy_payload (ed_ext E) req)"
    have "w_sent w' = w_sent w" if "stable ?J w"
    proof -
      have "stable ?J w1" using that w(2) by (simp add: keeps_tables_def only_keys_def refuses_keys)
      with requestSign_refused [of "ed_ext E" "k_org_id k" walletId req w1 r w2] run Some w show ?thesis by simp
    qed
    with * run w Some show ?thesis by auto
  qed
qed

text \<open>A world in which an earlier request of the same transaction went out, and a stamped request.\<close>

definition sample_edge :: edge where
  "sample_edge = \<lparr>ed_ext = lenient_ext,
     ed_checks = \<lparr>isUUID = (\<lambda>_. True), isEmail = (\<lambda>_. True), isEthereumAddress = (\<lambda>_. True)\<rparr>,
     ed_paging = \<lparr>odd_limit = (\<lambda>_. Inr None), odd_offset = (\<lambda>_. Inr 0)\<rparr>,
     ed_parseBody = (\<lambda>_. Some (JObj [(''txFields'', JObj [(''chainId'', JNum 1), (''to'', JStr ''0xto''),
        (''value'', JStr ''5''), (''data'', JStr ''0x'')])])),
     ed_admits = (\<lambda>_. True)\<rparr>"

definition signing_key :: api_key where
  "signing_key = sample_key\<lparr>k_scopes := [''wallet:sign'']\<rparr>"

definition api_world :: world where
  "api_world = calm_world ((sample_db [] [sample_row ''broadcasted''])\<lparr>api_keys := [signing_key]\<rparr>)
     (\<lambda>_ _. NetError ''down'') Map.empty 1000"

theorem signing_route_is_authorized_witness:
  "\<exists>k. authenticated lenient_ext stamped_request api_world k \<and> grants k ''wallet:sign''"
proof -
  have "isl (fst (wallets_signTransaction sample_edge ''w'' stamped_request api_world)) = False" by code_simp
  then obtain x w' where run: "wallets_signTransaction sample_edge ''w'' stamped_request api_world = (Inr x, w')"
    by (cases "wallets_signTransaction sample_edge ''w'' stamped_request api_world";
        cases "fst (wallets_signTransaction sample_edge ''w'' stamped_request api_world)") auto
  have "ed_ext sample_edge = lenient_ext" by (simp add: sample_edge_def)
  with signing_route_is_authorized [OF run] show ?thesis by auto
qed

section \<open>The audit log\<close>

lemma sort_key_desc: "sorted_wrt (\<lambda>a b. a_created_at b \<le> a_created_at a) (sort_key (\<lambda>e. - a_created_at e) es)"
proof -
  have "sorted (map (\<lambda>e. - a_created_at e) (sort_key (\<lambda>e. - a_created_at e) es))" by simp
  then show ?thesis by (simp add: sorted_map)
qed

lemma audit_query_returns:
  assumes "audit_query G q w = (Inr es, w')"
  shows "(\<forall>e \<in> set es. e \<in> set (audit_log (w_sched w (w_stmts w) (w_db w))) \<and> audit_matches q e) \<and>
    sorted_wrt (\<lambda>a b. a_created_at b \<le> a_created_at a) es \<and>
    (\<forall>n. page_limit G (q_limit q) = Inr (Some n) \<longrightarrow> length es \<le> n) \<and>
    w_db w' = w_sched w (w_stmts w) (w_db w)"
proof -
  let ?rows = "sort_key (\<lambda>e. - a_created_at e) (filter (audit_matches q) (audit_log (w_sched w (w_stmts w) (w_db w))))"
  from assms obtain limit offset where l: "page_limit G (q_limit q) = Inr limit"
    and es: "es = (case limit of None \<Rightarrow> drop offset ?rows | Some n \<Rightarrow> take n (drop offset ?rows))"
    by (auto simp: audit_query_def stmt_def Let_def split: option.splits sum.splits)
  have "sorted_wrt (\<lambda>a b. a_created_at b \<le> a_created_at a) ?rows" by (rule sort_key_desc)
  then have "sorted_wrt (\<lambda>a b. a_created_at b \<le> a_created_at a) es"
    unfolding es by (auto intro: sorted_wrt_take sorted_wrt_drop split: option.split)
  moreover have "set es \<subseteq> set (drop offset ?rows)"
    unfolding es using set_take_subset by (cases limit) fastforce+
  then have "set es \<subseteq> set ?rows" using set_drop_subset by (rule subset_trans)
  moreover have "w_db w' = w_sched w (w_stmts w) (w_db w)"
    using assms by (auto simp: audit_query_def stmt_def Let_def split: option.splits sum.splits)
  ultimately show ?thesis using l by (auto simp: es)
qed

text \<open>
  C35. The audit log of a tenant.  What the route returns are entries of the audit log and of the
  organization of the key that stamped the request, and only such that pass the filters on event,
  user, wallet, earliest and latest date, newest first, at most fifty unless another limit was asked
  for, each with its number as a text.
\<close>

theorem audit_log_is_confined:
  assumes "organizations_queryAuditLog E ps rq w = (Inr es, w')"
  shows "\<exists>k sd ed. authenticated (ed_ext E) rq w k \<and> grants k ''wallet:read'' \<and>
    date_param (ed_ext E) (ap_startDate ps) = Inr sd \<and> date_param (ed_ext E) (ap_endDate ps) = Inr ed \<and>
    (\<forall>(i, e) \<in> set es. e \<in> set (audit_log (w_db w')) \<and> a_org_id e = k_org_id k \<and> i = show_int (a_id e) \<and>
       filter_eq (ap_event ps) (Some (a_event e)) \<and> filter_eq (ap_userId ps) (a_user_id e) \<and>
       filter_eq (ap_walletId ps) (a_wallet_id e) \<and>
       (case sd of None \<Rightarrow> True | Some t \<Rightarrow> t \<le> a_created_at e) \<and>
       (case ed of None \<Rightarrow> True | Some t \<Rightarrow> a_created_at e \<le> t)) \<and>
    sorted_wrt (\<lambda>a b. a_created_at b \<le> a_created_at a) (map snd es) \<and>
    (given (ap_limit ps) = None \<longrightarrow> length es \<le> 50)"
proof -
  from serve_org_outcome [OF assms [unfolded organizations_queryAuditLog_def]]
  obtain k j w1 w2 where k: "authenticated (ed_ext E) rq w k" "grants k ''wallet:read''"
    and run: "andThen (lift_res (date_param (ed_ext E) (ap_startDate ps))) (\<lambda>startDate.
     andThen (lift_res (date_param (ed_ext E) (ap_endDate ps))) (\<lambda>endDate.
     andThen (audit_query (ed_paging E) \<lparr>q_orgId = k_org_id k, q_event = ap_event ps, q_userId = ap_userId ps,
        q_walletId = ap_walletId ps, q_startDate = startDate, q_endDate = endDate,
        q_limit = Some (int_param (ap_limit ps) 50), q_offset = Some (int_param (ap_offset ps) 0)\<rparr>) (\<lambda>entries.
     ret (map (\<lambda>e. (show_int (a_id e), e)) entries)))) w1 = (Inr es, w2)"
    and w': "w' = w2\<lparr>w_ctx := w_ctx w\<rparr>"
    unfolding authorized_call_def by blast
  then obtain sd ed entries w3 w4 where d: "date_param (ed_ext E) (ap_startDate ps) = Inr sd"
    "date_param (ed_ext E) (ap_endDate ps) = Inr ed"
    and q: "audit_query (ed_paging E) \<lparr>q_orgId = k_org_id k, q_event = ap_event ps,
        q_userId = ap_userId ps, q_walletId = ap_walletId ps, q_startDate = sd, q_endDate = ed,
        q_limit = Some (int_param (ap_limit ps) 50), q_offset = Some (int_param (ap_offset ps) 0)\<rparr> w3
      = (Inr entries, w4)"
    and es: "es = map (\<lambda>e. (show_int (a_id e), e)) entries" and w4: "w2 = w4"
    by (auto elim!: andThen_returns simp: lift_res_run ret_run)
  from audit_query_returns [OF q] k d show ?thesis
    by (intro exI [of _ k] exI [of _ sd] exI [of _ ed])
      (auto simp: es w' w4 audit_matches_def comp_def page_limit_def int_param_def)
qed

definition no_params :: audit_params where
  "no_params = \<lparr>ap_event = None, ap_userId = None, ap_walletId = None, ap_startDate = None,
     ap_endDate = None, ap_limit = None, ap_offset = None\<rparr>"

definition entry_of :: "string \<Rightarrow> audit_entry" where
  "entry_of orgId = \<lparr>a_id = 1, a_org_id = orgId, a_user_id = None, a_wallet_id = None, a_api_key_id = None,
     a_event = ''tx_signed'', a_status = ''success'', a_metadata = None, a_ip_address = None,
     a_user_agent = None, a_created_at = 0\<rparr>"

definition audit_world :: world where
  "audit_world = auth_world\<lparr>w_db := (w_db auth_world)\<lparr>audit_log := [entry_of ''org'', entry_of ''rival'']\<rparr>\<rparr>"

lemma audit_run:
  "map_sum (\<lambda>_. ()) (map fst) (fst (organizations_queryAuditLog sample_edge no_params stamped_request audit_world)) = Inr [''1'']"
  by code_simp

theorem audit_log_is_confined_witness:
  "\<exists>e k. fst (organizations_queryAuditLog sample_edge no_params stamped_request audit_world) = Inr [(''1'', e)] \<and>
     authenticated (ed_ext sample_edge) stamped_request audit_world k \<and> a_org_id e = k_org_id k"
proof -
  obtain r w' where run: "organizations_queryAuditLog sample_edge no_params stamped_request audit_world = (r, w')"
    by (rule prod.exhaust)
  have "map_sum (\<lambda>_. ()) (map fst) r = Inr [''1'']" using audit_run unfolding run fst_conv .
  then obtain e where r: "r = Inr [(''1'', e)]" by (cases r) auto
  from audit_log_is_confined [OF run [unfolded r]] obtain k where
    "authenticated (ed_ext sample_edge) stamped_request audit_world k" "a_org_id e = k_org_id k" by auto
  then show ?thesis unfolding run fst_conv r by blast
qed

definition stamp_of :: "string \<Rightarrow> nat \<Rightarrow> string \<Rightarrow> string" where
  "stamp_of sig ts keyId = sig @ ''.'' @ show_nat ts @ ''.'' @ keyId"

lemma split_stamp:
  assumes "CHR ''.'' \<notin> set sig" and "CHR ''.'' \<notin> set keyId"
  shows "js_split CHR ''.'' (stamp_of sig ts keyId) = [sig, show_nat ts, keyId]"
proof -
  have "list_all is_digit (show_nat ts)" using is_digits_show_nat by (simp add: is_digits_def)
  then have "CHR ''.'' \<notin> set (show_nat ts)" by (auto simp: list_all_iff is_digit_def)
  with assms show ?thesis by (simp add: stamp_of_def js_split_append js_split_single)
qed

lemma length_show_nat: "n < 10 ^ k \<Longrightarrow> 0 < k \<Longrightarrow> length (show_nat n) \<le> k"
proof (induction n arbitrary: k rule: show_nat.induct)
  case (1 n)
  show ?case
  proof (cases "n < 10")
    case True
    with 1 show ?thesis by (simp add: show_nat.simps [of n])
  next
    case False
    with 1(2) have k: "1 < k" by (cases k; cases "k - 1") auto
    with 1(2) have "n div 10 < 10 ^ (k - 1)" by (cases k) (auto simp: less_mult_imp_div_less mult.commute)
    with 1(1) [OF False, of "k - 1"] k have "length (show_nat (n div 10)) \<le> k - 1" by simp
    with False k show ?thesis by (simp add: show_nat.simps [of n])
  qed
qed

text \<open>
  C30. A stamp made as the documentation says, from a signature of the time and the hash of
  the body by an active key, is accepted on every route, and the caller it attaches is the
  owner of the key.
\<close>

theorem honest_stamp_is_accepted:
  assumes "quiet w" and "find_row (\<lambda>r. k_key_id r = keyId) (api_keys (w_db w)) = Some k"
    and "k_status k = ''active''" and "k_expires_at k = None"
    and "hr_headers rq ''x-stamp'' = Some (stamp_of sig ts keyId)"
    and "CHR ''.'' \<notin> set sig" and "CHR ''.'' \<notin> set keyId" and "ts < 10 ^ 16"
    and "in_window (w_clock w (w_reads w)) (int ts)"
    and "68 \<le> length (fromBase64 X sig)" and "length (fromBase64 X sig) \<le> 75"
    and "verifyP256 X (k_public_key k) (signedPayload X (int ts) rq) (fromBase64 X sig) = Some True"
    and "\<not> rt_public rt"
  shows "fst (stampVerifier X rt rq w) = Inr (rq\<lparr>hr_user := Some (auth_user_of k)\<rparr>)"
proof -
  have "length (show_nat ts) \<le> 16" using assms(8) by (rule length_show_nat) simp
  then have v: "valid_timestamp (show_nat ts)"
    using is_digits_show_nat [of ts] by (auto simp: valid_timestamp_def is_digits_def Suc_le_eq)
  have "stamp_of sig ts keyId \<noteq> []" by (simp add: stamp_of_def)
  with assms(5,13) have "stampVerifier X rt rq w = verifyStamp X rq (stamp_of sig ts keyId) w"
    by (simp add: stampVerifier_def stamp_header_def)
  also have "fst \<dots> = fst (checkSignature X rq k (int ts) sig (tick (w\<lparr>w_reads := Suc (w_reads w)\<rparr>)))"
    using assms(1-4,9) v by (simp add: verifyStamp_def split_stamp [OF assms(6,7)] Let_def andThen_def now_run
        apiKey_findByKeyId_def query_quiet checkExpiry_def ret_run)
  also have "\<dots> = Inr (rq\<lparr>hr_user := Some (auth_user_of k)\<rparr>)" by (rule checkSignature_accepts [OF assms(10-12)])
  finally show ?thesis .
qed

theorem honest_stamp_is_accepted_witness:
  "fst (stampVerifier lenient_ext protected_route stamped_request auth_world) =
     Inr (stamped_request\<lparr>hr_user := Some (auth_user_of sample_key)\<rparr>)"
proof (rule honest_stamp_is_accepted [where sig = sample_sig and ts = 1000 and keyId = "''kid''"])
  show "quiet auth_world" by (simp add: auth_world_def)
  show "find_row (\<lambda>r. k_key_id r = ''kid'') (api_keys (w_db auth_world)) = Some sample_key"
    by (simp add: auth_world_def calm_world_def empty_db_def sample_key_def)
  show "hr_headers stamped_request ''x-stamp'' = Some (stamp_of sample_sig 1000 ''kid'')"
  proof -
    have "show_nat 1000 = ''1000''" by code_simp
    then show ?thesis by (simp add: stamped_request_def sample_stamp_def stamp_of_def)
  qed
qed (simp_all add: sample_key_def protected_route_def, code_simp+)

section \<open>Registration with a stamp\<close>

text \<open>The identifiers of the rows and the public identifiers of the keys are drawn apart.\<close>

definition ids_apart :: "string set \<Rightarrow> db \<Rightarrow> bool" where
  "ids_apart ids d \<longleftrightarrow> (\<forall>k \<in> set (api_keys d). k_id k \<in> ids \<and> k_key_id k \<notin> ids)"

lemma ids_apart_update:
  assumes "ids_apart ids d" and "\<And>k. k_id (f k) = k_id k" and "\<And>k. k_key_id (f k) = k_key_id k"
  shows "ids_apart ids (api_keys_update (map_row p f) d)"
  using assms by (auto simp: ids_apart_def set_map_row)

lemma guards_ids_apart: "preserves (stable (ids_apart ids)) (guards E rt rq)"
  by (rule guards_keep) (rule ids_apart_update, simp_all)

lemma optional_stamp_returns:
  assumes "guards E optional_stamp_route rq w = (Inr rq', w')"
  shows "rq' = rq \<or> (\<exists>k. authenticated (ed_ext E) rq w k \<and> rq' = rq\<lparr>hr_user := Some (auth_user_of k)\<rparr>)"
proof -
  from assms obtain rq1 w1 where st: "stampVerifier (ed_ext E) optional_stamp_route rq w = (Inr rq1, w1)"
    and rest: "andThen (throttlerGuard E rq1) (\<lambda>rq2. scopesGuard optional_stamp_route rq2) w1 = (Inr rq', w')"
    unfolding guards_def by (rule andThen_returns)
  from rest have rq': "rq' = rq1"
    by (auto simp: throttlerGuard_def scopesGuard_def optional_stamp_route_def andThen_def throw_run ret_run
        split: if_splits)
  show ?thesis
  proof (cases "stamp_header rq")
    case None
    with st rq' show ?thesis by (simp add: stampVerifier_def optional_stamp_route_def ret_run)
  next
    case (Some stamp)
    with st have "verifyStamp (ed_ext E) rq stamp w = (Inr rq1, w1)"
      by (simp add: stampVerifier_def optional_stamp_route_def)
    from verifyStamp_returns [OF this] Some rq' show ?thesis unfolding authenticated_def by blast
  qed
qed

lemma registerHandler_needs_a_token:
  assumes "stable (ids_apart ids) w" and "given (hr_headers rq ''x-bootstrap-token'') = None"
    and "case hr_user rq of None \<Rightarrow> True | Some u \<Rightarrow> au_apiKeyId u \<in> ids"
  shows "registerHandler E rq body w \<noteq> (Inr v, w')"
proof
  assume run: "registerHandler E rq body w = (Inr v, w')"
  with assms(2) obtain u where u: "hr_user rq = Some u"
    by (auto simp: registerHandler_def Let_def given_def throw_run split: option.splits if_splits)
  with run assms(2) obtain orgId where
    "registerApiKey (ed_ext E) orgId body None (given (Some (au_apiKeyId u))) w = (Inr v, w')"
    by (auto simp: registerHandler_def Let_def throw_run split: option.splits)
  from registerApiKey_returns [OF this] obtain k where
    "au_apiKeyId u = k_key_id k"
    and k: "k \<in> set (api_keys (w_sched w (Suc (w_stmts w)) (w_sched w (w_stmts w) (w_db w))))"
    by (auto simp: authorized_def given_def split: option.splits if_splits)
  moreover have "ids_apart ids (w_sched w (Suc (w_stmts w)) (w_sched w (w_stmts w) (w_db w)))"
    using assms(1) by (simp add: stable_def)
  ultimately show False using k assms(3) u by (auto simp: ids_apart_def)
qed

text \<open>
  C36. Registration with a stamp never succeeds.  The controller hands on the identifier of
  the row of the caller's key, which the service looks up among the public identifiers of
  keys.  As both are random and never meet, a request without a bootstrap token is
  refused whatever stamp it carries and whatever scopes its key has.
\<close>

theorem stamp_cannot_register:
  assumes "stable (ids_apart ids) w" and "hr_user rq = None"
    and "given (hr_headers rq ''x-bootstrap-token'') = None"
  shows "\<exists>e. fst (apiKeys_register E rq w) = Inl e"
proof (rule ccontr)
  assume "\<not> (\<exists>e. fst (apiKeys_register E rq w) = Inl e)"
  then obtain v w' where "apiKeys_register E rq w = (Inr v, w')"
    by (metis Inl_Inr_False sum.exhaust prod.collapse)
  then obtain dto rq' w1 w2 where
    g: "guards E optional_stamp_route rq (w\<lparr>w_ctx := Some (request_context_of rq)\<rparr>) = (Inr rq', w1)"
    and h: "registerHandler E rq' dto w1 = (Inr v, w2)"
    using serve_outcome [of E optional_stamp_route decode_CreateApiKey "registerHandler E" rq w "Inr v" w']
    unfolding apiKeys_register_def by blast
  have st: "stable (ids_apart ids) w1"
    using preserves_runD [OF guards_ids_apart g] assms(1) by simp
  have "ids_apart ids (w_sched w (w_stmts w) (w_db w))" using assms(1) by (simp add: stable_def)
  with optional_stamp_returns [OF g] assms(2)
  have "case hr_user rq' of None \<Rightarrow> True | Some u \<Rightarrow> au_apiKeyId u \<in> ids"
    and "hr_headers rq' = hr_headers rq"
    by (auto simp: authenticated_def ids_apart_def auth_user_of_def)
  with registerHandler_needs_a_token [OF st, of rq'] assms(3) h show False by simp
qed

theorem stamp_cannot_register_witness:
  "\<exists>e. fst (apiKeys_register sample_edge stamped_request
     (api_world\<lparr>w_db := (w_db api_world)\<lparr>api_keys := [signing_key\<lparr>k_scopes := [''key:write'']\<rparr>]\<rparr>\<rparr>)) = Inl e"
proof (rule stamp_cannot_register [where ids = "{''k''}"])
  show "stable (ids_apart {''k''})
      (api_world\<lparr>w_db := (w_db api_world)\<lparr>api_keys := [signing_key\<lparr>k_scopes := [''key:write'']\<rparr>]\<rparr>\<rparr>)"
    by (simp add: stable_def ids_apart_def api_world_def calm_world_def signing_key_def sample_key_def)
qed (simp_all add: stamped_request_def given_def)

end
