(* ===== verification/Bystanders.thy ===== *)
theory Bystanders
  imports ApiRuns
begin

text \<open>
  All calls of the API as one type, and what those that do not sign a transaction leave
  alone: the requests and the counters of nonces.  The locale \<open>bystander\<close> is a property that
  reads no other table and that an entry of the audit log does not end.
\<close>

section \<open>The calls\<close>

datatype api_call =
    CreateOrganization | FindOrganization | FindOrganizationBySlug string | ListWallets | ListSigningRequests
  | QueryAuditLog audit_params
  | RegisterKey | ListKeys | RevokeKey string
  | CreatePolicy | ListPolicies | DeletePolicy string
  | CreateUser | ListUsers | GetUser string | DeleteUser string
  | FindWallet string | ListWalletRequests string | GetRequest string string
  | DeriveWallet | SignTransaction string | SignTypedData string | SignMessage string

definition discard :: "'a io \<Rightarrow> unit io" where
  "discard m = andThen m (\<lambda>_. ret ())"

fun perform :: "edge \<Rightarrow> api_call \<Rightarrow> request \<Rightarrow> unit io" where
  "perform E CreateOrganization rq = discard (organizations_create E rq)"
| "perform E FindOrganization rq = discard (organizations_findOne E rq)"
| "perform E (FindOrganizationBySlug slug) rq = discard (organizations_findBySlug E slug rq)"
| "perform E ListWallets rq = discard (organizations_listWallets E rq)"
| "perform E ListSigningRequests rq = discard (organizations_listSigningRequests E rq)"
| "perform E (QueryAuditLog ps) rq = discard (organizations_queryAuditLog E ps rq)"
| "perform E RegisterKey rq = discard (apiKeys_register E rq)"
| "perform E ListKeys rq = discard (apiKeys_list E rq)"
| "perform E (RevokeKey i) rq = discard (apiKeys_revoke E i rq)"
| "perform E CreatePolicy rq = discard (policies_create E rq)"
| "perform E ListPolicies rq = discard (policies_list E rq)"
| "perform E (DeletePolicy i) rq = discard (policies_delete E i rq)"
| "perform E CreateUser rq = discard (users_create E rq)"
| "perform E ListUsers rq = discard (users_list E rq)"
| "perform E (GetUser i) rq = discard (users_get E i rq)"
| "perform E (DeleteUser i) rq = discard (users_delete E i rq)"
| "perform E (FindWallet i) rq = discard (wallets_findOne E i rq)"
| "perform E (ListWalletRequests i) rq = discard (wallets_listSigningRequests E i rq)"
| "perform E (GetRequest i j) rq = discard (wallets_getSigningRequest E i j rq)"
| "perform E DeriveWallet rq = discard (wallets_derive E rq)"
| "perform E (SignTransaction i) rq = discard (wallets_signTransaction E i rq)"
| "perform E (SignTypedData i) rq = discard (wallets_signTyped E i rq)"
| "perform E (SignMessage i) rq = discard (wallets_signMessage E i rq)"

lemma preserves_discard [preserves_intros]: "preserves I m \<Longrightarrow> preserves I (discard m)"
  unfolding discard_def by (intro preserves_intros)

lemma stable_runWith [preserves_intros]:
  "preserves (stable J) m \<Longrightarrow> preserves (stable J) (runWithRequestContext ctx m)"
  by (auto simp: preserves_def runWithRequestContext_def split: prod.split)
    (metis snd_conv stable_update(4))

section \<open>Bystanders\<close>

locale bystander =
  fixes J :: "db \<Rightarrow> bool"
  assumes organizations_aside: "J (organizations_update g1 d) = J d"
    and users_aside: "J (users_update g2 d) = J d"
    and keys_aside: "J (api_keys_update g3 d) = J d"
    and seeds_aside: "J (organization_seeds_update g4 d) = J d"
    and wallets_aside: "J (wallets_update g5 d) = J d"
    and policies_aside: "J (policies_update g6 d) = J d"
    and log_aside: "J d \<Longrightarrow> J (audit_log_update (\<lambda>l. l @ [e]) d)"
begin

lemma inserts_aside:
  "preserves (stable J) (create_row organizations organizations_update c1 m1)"
  "preserves (stable J) (create_row users users_update c2 m2)"
  "preserves (stable J) (create_row api_keys api_keys_update c3 m3)"
  "preserves (stable J) (create_row organization_seeds organization_seeds_update c4 m4)"
  "preserves (stable J) (create_row wallets wallets_update c5 m5)"
  "preserves (stable J) (create_row policies policies_update c6 m6)"
  by (rule stable_create_row, simp add: organizations_aside users_aside keys_aside seeds_aside wallets_aside policies_aside)+

lemma updates_aside:
  "preserves (stable J) (update_row organizations organizations_update q1 f1)"
  "preserves (stable J) (update_row users users_update q2 f2)"
  "preserves (stable J) (update_row api_keys api_keys_update q3 f3)"
  "preserves (stable J) (update_row policies policies_update q4 f4)"
  by (rule stable_update_row, simp add: organizations_aside users_aside keys_aside policies_aside)+

lemma audit_aside: "preserves (stable J) (audit_create a b c e s m)"
  by (rule stable_audit_create) (rule log_aside)

lemmas rows_aside = inserts_aside updates_aside audit_aside

lemma not_null_aside: "preserves (stable J) (not_null x)"
  unfolding not_null_def by (intro preserves_intros)

lemma onboarding_aside: "preserves (stable J) (onBoardOrganization orgId)"
  unfolding onBoardOrganization_def query_defs create_defs by (intro rows_aside preserves_intros not_null_aside)

lemma derivation_aside: "preserves (stable J) (deriveWallet orgId userId label chainId)"
proof -
  have insert: "preserves (stable J) (insertDerived orgId userId label c d)" for c d
    unfolding insertDerived_def create_defs by (intro rows_aside preserves_intros not_null_aside)
  have loop: "preserves (stable J) (deriveLoop n orgId userId label c s i)" for n c s i
    by (induction n arbitrary: i) (auto simp: wallet_countByOrgId_def intro!: insert preserves_intros)
  show ?thesis
    unfolding deriveWallet_def checkUser_def query_defs by (intro preserves_intros loop)
qed

lemma organizations_service_aside:
  "preserves (stable J) (createOrganization X name slug)" "preserves (stable J) (findOneOrganization orgId)"
  "preserves (stable J) (findOrganizationBySlug slug)" "preserves (stable J) (orgs_listWalletsByOrgId orgId)"
  "preserves (stable J) (orgs_listSigningRequestsByOrgId orgId)"
  unfolding createOrganization_def findOneOrganization_def findOrganizationBySlug_def orgs_listWalletsByOrgId_def
    orgs_listSigningRequestsByOrgId_def listWalletsByOrgId_def listSigningRequestsByOrgId_def generateBootstrapToken_def
    query_defs create_defs Repositories.update_defs
  by (intro rows_aside preserves_intros onboarding_aside)+

lemma keys_service_aside:
  "preserves (stable J) (registerHandler E rq body)" "preserves (stable J) (listApiKeys orgId)"
  "preserves (stable J) (revokeApiKey orgId keyId)"
  unfolding registerHandler_def registerApiKey_def prepareRegistration_def authorizeRegistration_def
    validateBootstrapToken_def apiKey_hasScope_def insertApiKey_def finishRegistration_def
    resolveOrgIdFromBootstrapToken_def listApiKeys_def revokeApiKey_def Let_def query_defs create_defs Repositories.update_defs
  by (intro rows_aside preserves_intros | simp split: option.split)+

lemma policies_service_aside:
  "preserves (stable J) (createPolicy X orgId p)" "preserves (stable J) (listPolicies orgId)"
  "preserves (stable J) (deletePolicy orgId i)"
  unfolding createPolicy_def listPolicies_def deletePolicy_def query_defs create_defs Repositories.update_defs
  by (intro rows_aside preserves_intros)+

lemma users_service_aside:
  "preserves (stable J) (createUser orgId u)" "preserves (stable J) (listUsers orgId)"
  "preserves (stable J) (getUser orgId i)" "preserves (stable J) (deleteUser orgId i)"
  unfolding createUser_def listUsers_def getUser_def deleteUser_def ownUser_def query_defs create_defs Repositories.update_defs
  by (intro rows_aside preserves_intros)+

lemma wallet_queries_aside:
  "preserves (stable J) (getWalletById i orgId)" "preserves (stable J) (listSigningRequestsByWalletId i orgId)"
  "preserves (stable J) (getSigningRequestById orgId i j)"
  unfolding getWalletById_def listSigningRequestsByWalletId_def getSigningRequestById_def ownWallet_def query_defs
  by (intro preserves_intros)+

lemma signing_service_aside:
  "preserves (stable J) (signEip712 X orgId i req)" "preserves (stable J) (signPersonalMessage X orgId i m)"
  unfolding signEip712_def signPersonalMessage_def assertEip712Allowed_def checkDomainName_def checkChainId_def
    checkContract_def checkPrimaryType_def getCsv_def getBoolean_def loadWallet_def signAndLog_def Let_def query_defs
  by (intro rows_aside preserves_intros)+

lemma serve_aside:
  assumes "\<And>rq' dto. preserves (stable J) (h rq' dto)"
  shows "preserves (stable J) (serve E rt decode h rq)"
proof -
  have "preserves (stable J) (guards E rt rq)" by (rule guards_keep) (simp add: keys_aside)
  then show ?thesis unfolding serve_def using assms by (intro preserves_intros)
qed

lemma serve_org_aside:
  assumes "\<And>orgId dto. preserves (stable J) (h orgId dto)"
  shows "preserves (stable J) (serve_org E s decode h rq)"
  unfolding serve_org_def currentOrgId_def using assms by (intro serve_aside preserves_intros)

lemmas services_aside = organizations_service_aside keys_service_aside policies_service_aside users_service_aside
  wallet_queries_aside signing_service_aside derivation_aside

lemma audit_query_aside: "preserves (stable J) (audit_query G q)"
  unfolding audit_query_def by (rule stable_stmt) (auto simp: Let_def split: sum.splits)

text \<open>Every call but the one that signs a transaction.\<close>

lemma perform_aside:
  assumes "\<forall>i. c \<noteq> SignTransaction i"
  shows "preserves (stable J) (perform E c rq)"
proof -
  have org: "preserves (stable J) (currentOrgId rq')" for rq'
    unfolding currentOrgId_def by (intro preserves_intros)
  show ?thesis
    using assms unfolding organizations_create_def organizations_findOne_def
    by (cases c; simp only: perform.simps organizations_create_def organizations_findOne_def organizations_findBySlug_def
        organizations_listWallets_def organizations_listSigningRequests_def organizations_queryAuditLog_def
        apiKeys_register_def apiKeys_list_def apiKeys_revoke_def policies_create_def policies_list_def policies_delete_def
        users_create_def users_list_def users_get_def users_delete_def wallets_findOne_def wallets_listSigningRequests_def
        wallets_getSigningRequest_def wallets_derive_def wallets_signTyped_def wallets_signMessage_def)
      (intro preserves_discard serve_org_aside serve_aside services_aside audit_query_aside org preserves_intros
        | simp)+
qed

end

text \<open>The requests and the counters are as in \<open>d0\<close>, and no entry of its audit log is gone.\<close>

definition requests_as :: "db \<Rightarrow> db \<Rightarrow> bool" where
  "requests_as d0 d \<longleftrightarrow> signing_requests d = signing_requests d0 \<and> wallet_nonces d = wallet_nonces d0 \<and>
     set (audit_log d0) \<subseteq> set (audit_log d)"

interpretation same_requests: bystander "requests_as d0" for d0
  by unfold_locales (auto simp: requests_as_def)

text \<open>What reads only these two tables is for a bystander.\<close>

lemma reads_requests_bystander:
  assumes "\<And>d d'. signing_requests d = signing_requests d' \<Longrightarrow> wallet_nonces d = wallet_nonces d' \<Longrightarrow> J d = J d'"
  shows "bystander J"
  by (rule bystander.intro) (rule assms [THEN iffD1], simp_all | rule assms, simp_all)+

section \<open>Property\<close>

text \<open>
  C14. Only the signing route touches the requests and the nonces.  Whatever holds of the tables of the
  signing requests and of the nonce counters, and is kept by what runs beside it, is kept by every
  other call of the API: for any request, authenticated or not, and also when it fails.
\<close>

theorem other_calls_leave_requests_alone:
  assumes "\<forall>d d'. signing_requests d = signing_requests d' \<and> wallet_nonces d = wallet_nonces d' \<longrightarrow> J d = J d'"
    and "\<forall>i. c \<noteq> SignTransaction i" and "stable J w" and "perform E c rq w = (r, w')"
  shows "stable J w'"
proof -
  have "bystander J" by (rule reads_requests_bystander) (use assms(1) in blast)
  from preserves_runD [OF bystander.perform_aside [OF this assms(2)] assms(4,3)] show ?thesis .
qed

theorem other_calls_leave_requests_alone_witness:
  "signing_requests (w_db (snd (perform sample_edge CreateUser stamped_request api_world))) = [sample_row ''broadcasted'']"
proof -
  let ?J = "\<lambda>d. signing_requests d = [sample_row ''broadcasted'']"
  obtain r w' where run: "perform sample_edge CreateUser stamped_request api_world = (r, w')" by fastforce
  have st: "stable ?J api_world"
    by (rule quiet_stable) (simp_all add: api_world_def calm_world_def quiet_def sample_db_def)
  have reads: "\<forall>d d'. signing_requests d = signing_requests d' \<and> wallet_nonces d = wallet_nonces d' \<longrightarrow> ?J d = ?J d'"
    by simp
  have "\<forall>i. CreateUser \<noteq> SignTransaction i" by simp
  from other_calls_leave_requests_alone [OF reads this st run] have "stable ?J w'" .
  from stableD [OF this] run show ?thesis by (simp only: snd_conv)
qed

end
