(* ===== verification/Triples.thy ===== *)
theory Triples
  imports World
begin

text \<open>
  A call followed to both of its ends: the triple \<open>leads P m Q E\<close>, its rules for
  the combinators, and its rules for calls that keep a property of the database, undisturbed
  and among other requests.
\<close>

section \<open>Total correctness rules\<close>

text \<open>
  \<open>leads P m Q E\<close>: from \<open>P\<close> the call returns in \<open>Q\<close> or throws in \<open>E\<close>.
\<close>

definition leads :: "(world \<Rightarrow> bool) \<Rightarrow> 'a io \<Rightarrow> ('a \<Rightarrow> world \<Rightarrow> bool) \<Rightarrow> (world \<Rightarrow> bool) \<Rightarrow> bool" where
  "leads P m Q E \<longleftrightarrow> (\<forall>w. P w \<longrightarrow> wp m Q (\<lambda>_. E) w)"

lemma leadsD: "leads P m Q E \<Longrightarrow> P w \<Longrightarrow> m w = (r, w') \<Longrightarrow> (case r of Inl e \<Rightarrow> E w' | Inr x \<Rightarrow> Q x w')"
  using wp_run [of m w r w' Q "\<lambda>_. E"] by (simp add: leads_def)

lemma leads_then: "leads P m R E \<Longrightarrow> (\<And>x. leads (R x) (f x) Q E) \<Longrightarrow> leads P (andThen m f) Q E"
  by (auto simp: leads_def wp_andThen intro: wp_mono)

lemma leads_catch: "leads P m Q R \<Longrightarrow> (\<And>e. leads R (h e) Q E) \<Longrightarrow> leads P (catch m h) Q E"
  by (auto simp: leads_def wp_catch intro: wp_mono)

lemma leads_ret: "leads (Q x) (ret x) Q E"
  by (simp add: leads_def wp_ret)

lemma leads_throw: "leads E (throw e) Q E"
  by (simp add: leads_def wp_throw)

lemma leads_mono:
  assumes "leads P m Q E" and "\<And>w. P' w \<Longrightarrow> P w" and "\<And>x w. Q x w \<Longrightarrow> Q' x w" and "\<And>w. E w \<Longrightarrow> E' w"
  shows "leads P' m Q' E'"
  unfolding leads_def
proof (intro allI impI)
  fix w
  assume "P' w"
  then have "wp m Q (\<lambda>_. E) w" using assms(1,2) by (simp add: leads_def)
  then show "wp m Q' (\<lambda>_. E') w" by (rule wp_mono) (rule assms(3,4), assumption)+
qed

lemma leads_given: "(C \<Longrightarrow> leads P m Q E) \<Longrightarrow> leads (\<lambda>w. P w \<and> C) m Q E"
  by (auto simp: leads_def)

lemma leads_iff_preserves: "leads I m (\<lambda>_. I) I = preserves I m"
proof -
  have "wp m (\<lambda>_. I) (\<lambda>_. I) w = I (snd (m w))" for w by (simp add: wp_def split: prod.split sum.split)
  then show ?thesis by (simp add: leads_def preserves_def)
qed

lemmas leads_preserves = leads_iff_preserves [THEN iffD2]

section \<open>Undisturbed\<close>

text \<open>In a quiet world, what keeps a property of the database keeps it, however it ends.\<close>

definition holds :: "(db \<Rightarrow> bool) \<Rightarrow> world \<Rightarrow> bool" where
  "holds J w \<longleftrightarrow> quiet w \<and> J (w_db w)"

lemma leads_keeps:
  assumes "preserves quiet m" and "preserves (stable J) m"
  shows "leads (holds J) m (\<lambda>_. holds J) (holds J)"
proof -
  have "holds J w'" if "m w = (r, w')" "holds J w" for w r w'
  proof -
    from that(2) have "quiet w" "stable J w" by (simp_all add: holds_def quiet_stable)
    then show ?thesis
      using preserves_runD [OF assms(1) that(1)] stableD [OF preserves_runD [OF assms(2) that(1)]] by (simp add: holds_def)
  qed
  then have "wp m (\<lambda>_. holds J) (\<lambda>_. holds J) w" if "holds J w" for w
    using that by (cases "m w") (simp add: wp_def split: sum.split)
  then show ?thesis by (simp add: leads_def)
qed

lemma leads_result: "(\<And>w. P w \<Longrightarrow> Q x w) \<Longrightarrow> leads P (ret x) Q E"
  by (simp add: leads_def wp_ret)

lemma leads_now: "leads (holds J) now (\<lambda>_. holds J) E"
  by (simp add: leads_def wp_now holds_def)

text \<open>Nothing is claimed of a call that throws.\<close>

abbreviation whatever :: "world \<Rightarrow> bool" where
  "whatever \<equiv> (\<lambda>_. True)"

lemma leads_trivial: "leads P m (\<lambda>_. whatever) whatever"
  by (simp add: leads_def wp_def split: prod.split sum.split)

lemma leads_refused: "leads whatever (throw e) Q whatever"
  by (rule leads_throw)

lemma leads_through:
  assumes "preserves quiet m" and "preserves (stable J) m"
  shows "leads (holds J) m (\<lambda>_. holds J) whatever"
  by (rule leads_mono [OF leads_keeps [OF assms]]) (assumption | rule TrueI)+

section \<open>Among others\<close>

text \<open>The others have had their turn.\<close>

definition turn :: "world \<Rightarrow> world" where
  "turn w = w\<lparr>w_db := w_sched w (w_stmts w) (w_db w), w_stmts := Suc (w_stmts w)\<rparr>"

text \<open>A statement: the others first, then either a fault or its own effect.\<close>

lemma leads_stmt:
  assumes "\<And>w. I w \<Longrightarrow> I (turn w)" and "\<And>w v d. I w \<Longrightarrow> f (w_db w) = Inr (v, d) \<Longrightarrow> Q v (w\<lparr>w_db := d\<rparr>)"
  shows "leads I (stmt f) Q I"
  unfolding leads_def
proof (intro allI impI)
  fix w :: world
  assume "I w"
  then have w: "I (turn w)" by (rule assms(1))
  show "wp (stmt f) Q (\<lambda>_. I) w"
  proof (cases "f (w_db (turn w))")
    case (Inl e)
    with w show ?thesis by (simp add: wp_def stmt_def Let_def turn_def split: option.split)
  next
    case (Inr vd)
    then obtain v d where vd: "f (w_db (turn w)) = Inr (v, d)" by (cases vd) simp
    have "Q v ((turn w)\<lparr>w_db := d\<rparr>)" using assms(2) [OF w vd] .
    with vd w show ?thesis by (simp add: wp_def stmt_def Let_def turn_def split: option.split)
  qed
qed

end
