(* ===== verification/SigningPhases.thy ===== *)
theory SigningPhases
  imports SigningRuns Triples
begin

text \<open>
  The phases of an undisturbed \<open>requestSign\<close>: what its statements do to the database, as a
  contract (\<open>signing_phases\<close>).  A property of the rows, the counters and the log is
  followed from one statement to the next by the laws of the locale; that it then holds when
  the whole call ends, whatever the signer and the nodes answer, is proved here once.
\<close>

section \<open>The statements on a row\<close>

abbreviation set_row :: "string \<Rightarrow> sr_fields \<Rightarrow> db \<Rightarrow> db" where
  "set_row i f \<equiv> signing_requests_update (map_row (\<lambda>r. sr_id r = i) (sr_set f Undefined))"

abbreviation log_entry :: "audit_entry \<Rightarrow> db \<Rightarrow> db" where
  "log_entry e \<equiv> audit_log_update (\<lambda>l. l @ [e])"

definition reclaim_fields :: sr_fields where
  "reclaim_fields = no_fields\<lparr>f_status := Val ''pending'', f_tx_payload := Undefined, f_tx_hash := Undefined,
     f_signature := Undefined, f_failure_reason := Undefined, f_error_type := Undefined\<rparr>"

definition sent_fields :: "int \<Rightarrow> sr_fields" where
  "sent_fields t = no_fields\<lparr>f_status := Val ''broadcasted'', f_broadcasted_at := Val t\<rparr>"

lemma no_block_number [simp]:
  "f_block_number no_fields = Undefined" "f_block_number reclaim_fields = Undefined"
  "f_block_number (sent_fields t) = Undefined" "f_block_number (failed_fields reason ty) = Undefined"
  "f_block_number (signed_fields x t) = Undefined"
  by (simp_all add: no_fields_def reclaim_fields_def sent_fields_def failed_fields_def signed_fields_def)

text \<open>The row of a new request, and the entry that announces a transaction.\<close>

definition row_of :: "ext \<Rightarrow> string \<times> sign_request \<Rightarrow> signing_request \<Rightarrow> bool" where
  "row_of X q r \<longleftrightarrow> sr_idempotency_key r = Some (computeIdempotencyKey X (fst q) (snd q)) \<and>
     sr_wallet_id r = fst q \<and> sr_chain_id r = req_chainId (snd q)"

definition announces :: "string \<Rightarrow> string \<Rightarrow> audit_entry \<Rightarrow> bool" where
  "announces walletId i e \<longleftrightarrow> a_event e = ''tx_signed'' \<and> a_wallet_id e = Some walletId \<and>
     (case a_metadata e of None \<Rightarrow> False | Some m \<Rightarrow> get_prop ''signingRequestId'' m = Some (JStr i))"

lemma leads_row:
  assumes "f_block_number f = Undefined" and "\<And>d. J d \<Longrightarrow> J' (set_row i f d)"
  shows "leads (holds J) (sr_update i f) (\<lambda>_. holds J') E"
  using assms by (auto simp: leads_def holds_def wp_def sr_update_quiet)

lemma leads_entry:
  assumes "\<And>d e. J d \<Longrightarrow> a_event e = ev \<Longrightarrow> a_wallet_id e = wl \<Longrightarrow> a_metadata e = m \<Longrightarrow> J' (log_entry e d)"
  shows "leads (holds J) (audit_create og u wl ev st m) (\<lambda>_. holds J') E"
  using assms by (auto simp: leads_def holds_def wp_def audit_create_quiet)

text \<open>What a lookup by the key returns is a row of the database with the key.\<close>

definition found_in :: "string \<Rightarrow> signing_request option \<Rightarrow> db \<Rightarrow> bool" where
  "found_in key x d \<longleftrightarrow> (\<forall>r. x = Some r \<longrightarrow> r \<in> set (signing_requests d) \<and> sr_idempotency_key r = Some key)"

lemma leads_found:
  "leads (holds J) (sr_findByIdempotencyKey key) (\<lambda>x. holds (\<lambda>d. J d \<and> found_in key x d)) E"
  by (auto simp: leads_def wp_def holds_def sr_findByIdempotencyKey_def query_quiet found_in_def dest: find_row_Some)

lemma leads_load:
  assumes "leads P (loadPrerequisites orgId walletId) (\<lambda>_. P) E"
  shows "leads P (loadPrerequisites orgId walletId) (\<lambda>(s, v) w. P w \<and> wl_id v = walletId) E"
  unfolding leads_def
proof (intro allI impI)
  fix w
  assume w: "P w"
  show "wp (loadPrerequisites orgId walletId) (\<lambda>(s, v) w. P w \<and> wl_id v = walletId) (\<lambda>_. E) w"
  proof (cases "loadPrerequisites orgId walletId w")
    case (Pair r w')
    with leadsD [OF assms w Pair] loadPrerequisites_returns [of orgId walletId w] show ?thesis
      by (cases r) (auto simp: wp_def)
  qed
qed

lemma quiet_estimateFees: "preserves quiet (estimateFees to a d c from)"
  unfolding estimateFees_def estimateGas_def fetchFeeData_def by (intro preserves_intros)

section \<open>The contract\<close>

text \<open>
  For the requests of one wallet \<open>v\<close> and transaction \<open>req\<close>: \<open>J\<close> before the claim,
  \<open>C i\<close> when the row \<open>i\<close> is claimed, \<open>N i n\<close> when the nonce \<open>n\<close> is reserved for it,
  \<open>P i n\<close> when it is in the payload, \<open>F i n\<close> when the row has failed, \<open>B i\<close> when it is
  broadcasted, \<open>D\<close> at the end.
\<close>

locale signing_phases =
  fixes X :: ext and v :: string and req :: sign_request
    and J :: "db \<Rightarrow> bool" and C :: "string \<Rightarrow> db \<Rightarrow> bool" and N P F :: "string \<Rightarrow> int \<Rightarrow> db \<Rightarrow> bool"
    and B :: "string \<Rightarrow> db \<Rightarrow> bool" and D :: "db \<Rightarrow> bool"
  assumes not_claimed: "J d \<Longrightarrow> D d"
    and evaluated: "J d \<Longrightarrow> J (log_entry e d)"
    and created: "J d \<Longrightarrow> row_of X (v, req) r \<Longrightarrow> sr_status r = ''pending'' \<Longrightarrow>
      \<forall>s \<in> set (signing_requests d). \<not> signing_request_conflict s r \<Longrightarrow>
      C (sr_id r) (signing_requests_update (\<lambda>_. signing_requests d @ [r]) d)"
    and reclaimed: "J d \<Longrightarrow> found_in (computeIdempotencyKey X v req) (Some r) d \<Longrightarrow>
      C (sr_id r) (set_row (sr_id r) reclaim_fields d)"
    and reserved: "C i d \<Longrightarrow> reserve_nonce (wallet_nonces d) (v, req_chainId req) = Inr (n, m) \<Longrightarrow>
      N i n (d\<lparr>wallet_nonces := m\<rparr>)"
    and unreserved: "C i d \<Longrightarrow> reserve_nonce (wallet_nonces d) (v, req_chainId req) = Inl err \<Longrightarrow> D d"
    and charged: "N i n d \<Longrightarrow> tx_nonce tx = n \<Longrightarrow> P i n (set_row i (no_fields\<lparr>f_tx_payload := Val tx\<rparr>) d)"
    and signed: "P i n d \<Longrightarrow> P i n (set_row i (signed_fields x t) d)"
    and failed: "P i n d \<Longrightarrow> F i n (set_row i (failed_fields reason ty) d)"
    and released: "F i n d \<Longrightarrow> release_nonce (wallet_nonces d) (v, req_chainId req) n = (b, m) \<Longrightarrow>
      D (d\<lparr>wallet_nonces := m\<rparr>)"
    and given_up: "F i n d \<Longrightarrow> D d"
    and synced: "D d \<Longrightarrow> sync_nonce (wallet_nonces d) (v, req_chainId req) j = Inr m' \<Longrightarrow>
      D (d\<lparr>wallet_nonces := m'\<rparr>)"
    and sent: "P i n d \<Longrightarrow> B i (set_row i (sent_fields t) d)"
    and announced: "B i d \<Longrightarrow> announces v i e \<Longrightarrow> D (log_entry e d)"
begin

lemma reserve_phase: "leads (holds (C i)) (reserveNonce v (req_chainId req)) (\<lambda>n. holds (N i n)) (holds D)"
  using reserved unreserved
  by (auto simp: leads_def holds_def wp_def reserveNonce_def nonce_reserve_def stmt_quiet split: sum.splits)

lemma release_phase: "leads (holds (F i n)) (releaseNonce v (req_chainId req) n) (\<lambda>_. holds D) E"
  using released
  by (auto simp: leads_def holds_def wp_def releaseNonce_def nonce_release_def stmt_quiet split: prod.splits)

lemma failed_phase: "leads (holds (P i n)) (sr_update i (failed_fields reason ty)) (\<lambda>_. holds (F i n)) E"
  by (rule leads_row) (simp_all add: failed)

lemma sign_phase:
  assumes "wl_id wl = v" and "tx_chainId tx = req_chainId req" and "tx_nonce tx = n"
  shows "leads (holds (P i n)) (signOrFail s wl tx i) (\<lambda>_. holds (P i n)) (holds D)"
  unfolding signOrFail_def assms
  by (rule leads_catch [OF leads_keeps])
    (intro preserves_intros leads_then [OF failed_phase] leads_then [OF release_phase] leads_throw)+

lemma sync_phase: "leads (holds D) (attempt (syncNonce v (req_chainId req) a)) (\<lambda>_. holds D) (holds D)"
proof (rule leads_keeps)
  show "preserves (stable D) (attempt (syncNonce v (req_chainId req) a))"
    unfolding syncNonce_def nonce_syncFromChain_def Let_def using synced
    by (intro preserves_intros stable_stmt) (auto split: sum.splits)
  show "preserves quiet (attempt (syncNonce v (req_chainId req) a))"
    unfolding syncNonce_def nonce_syncFromChain_def Let_def by (intro preserves_intros)
qed

lemma broadcast_phase:
  assumes "wl_id wl = v"
  shows "leads (holds (P i n)) (broadcastOrFail wl (req_chainId req) x i) (\<lambda>_. holds (B i)) (holds D)"
proof -
  have out: "leads (holds (P i n)) (sr_update i (no_fields\<lparr>f_status := Val ''broadcasted'', f_broadcasted_at := Val t\<rparr>))
      (\<lambda>_. holds (B i)) (holds (P i n))" for t
    unfolding sent_fields_def [symmetric] by (rule leads_row) (simp_all add: sent)
  have failure: "leads (holds (P i n)) (sr_update i (failed_fields reason ty)) (\<lambda>_. holds D) E" for reason ty E
    by (rule leads_mono [OF failed_phase]) (auto simp: holds_def given_up)
  show ?thesis
    unfolding broadcastOrFail_def assms
    by (rule leads_catch [OF leads_then [OF leads_keeps leads_then [OF leads_now out]]])
      (intro preserves_intros broadcast_env leads_then [OF failure] leads_then [OF sync_phase] leads_throw)+
qed

lemma run_phases:
  assumes "wl_id wl = v"
  shows "leads (holds (C i)) (signAndSend orgId s wl req fees key i) (\<lambda>_. holds D) (holds D)"
proof -
  have tx: "tx_chainId (tx_fields_of req fees n) = req_chainId req" "tx_nonce (tx_fields_of req fees n) = n" for n
    by (simp_all add: tx_fields_of_def)
  have payload: "leads (holds (N i n)) (sr_update i (no_fields\<lparr>f_tx_payload := Val (tx_fields_of req fees n)\<rparr>))
      (\<lambda>_. holds (P i n)) E" for n E
    by (rule leads_row) (simp_all add: charged tx)
  have signature: "leads (holds (P i n)) (sr_update i (signed_fields x t)) (\<lambda>_. holds (P i n)) E" for x t n E
    by (rule leads_row) (simp_all add: signed)
  have entry: "leads (holds (B i)) (audit_create orgId None (Some v) ''tx_signed'' ''broadcasted''
      (Some (JObj (json_opt ''txHash'' JStr h @ [(''signingRequestId'', JStr i), (''chainId'', JNum c)]))))
      (\<lambda>_. holds D) E" for h c E
    by (rule leads_entry) (auto simp: announces_def json_opt_def intro!: announced split: option.split)
  show ?thesis
    unfolding signAndSend_def assms
    by (intro leads_then [OF reserve_phase] leads_then [OF payload] leads_then [OF sign_phase [OF assms tx]]
        leads_then [OF leads_now] leads_then [OF signature] leads_then [OF broadcast_phase [OF assms]]
        leads_then [OF entry] leads_result)
qed

lemma claim_phase:
  "leads (holds J) (claimRequest orgId v req (computeIdempotencyKey X v req))
    (\<lambda>x. holds (case x of Inl _ \<Rightarrow> D | Inr i \<Rightarrow> C i)) (holds D)"
proof -
  let ?key = "computeIdempotencyKey X v req"
  let ?Q = "\<lambda>x. holds (case x of Inl _ \<Rightarrow> D | Inr i \<Rightarrow> C i)"
  let ?found = "\<lambda>x d. J d \<and> found_in ?key x d"
  have inr: "leads (holds (C i)) (ret (Inr i)) ?Q E" for i E
    by (rule leads_result) simp
  have create: "leads (holds J) (sr_create orgId v (req_chainId req) ''pending'' ?key) (\<lambda>r. holds (C (sr_id r))) (holds J)"
  proof -
    have new: "C i (signing_requests_update (\<lambda>_. signing_requests d @ [r]) d)"
      if "J d" "row_of X (v, req) r" "sr_status r = ''pending''" "sr_id r = i"
        "\<forall>s \<in> set (signing_requests d). \<not> signing_request_conflict s r" for i r d
      using created [OF that(1-3,5)] that(4) by simp
    have "wp (sr_create orgId v (req_chainId req) ''pending'' ?key) (\<lambda>r. holds (C (sr_id r))) (\<lambda>_. holds J) w"
      if "holds J w" for w
      using that
      by (auto simp: wp_def sr_create_def create_row_def randomUUID_def now_def run_defs stmt_quiet holds_def
          insert_row_Inr row_of_def intro!: new split: sum.splits)
    then show ?thesis by (simp add: leads_def)
  qed
  have reuse: "leads (holds (?found (Some r))) (andThen (sr_update (sr_id r) reclaim_fields) (\<lambda>_. ret (Inr (sr_id r)))) ?Q E"
    for r E by (rule leads_then [OF leads_row inr]) (simp_all add: reclaimed)
  have ends: "leads (holds (?found x)) (throw e) ?Q (holds D)" "leads (holds (?found x)) (ret (Inl y)) ?Q (holds D)" for x e y
    by (auto simp: leads_def wp_simps holds_def not_claimed)
  have race: "leads (holds J) (andThen (sr_findByIdempotencyKey ?key) (\<lambda>raced. case raced of
            None \<Rightarrow> throw err
          | Some r \<Rightarrow> if sr_status r \<noteq> ''failed'' then ret (Inl (buildSignResultFromRequest r))
              else andThen (sr_update (sr_id r) reclaim_fields) (\<lambda>_. ret (Inr (sr_id r))))) ?Q (holds D)" for err
    by (rule leads_then [OF leads_found]) (simp add: ends reuse split: option.split)
  have "leads (holds J) (throw e :: (sign_result + string) io) ?Q (holds D)" for e
    by (auto simp: leads_def wp_simps holds_def not_claimed)
  then show ?thesis
    unfolding claimRequest_def reclaim_fields_def [symmetric]
    by (intro leads_catch [OF leads_then [OF create inr]]) (simp add: race)
qed

lemma request_phases: "leads (holds J) (requestSign X orgId v req) (\<lambda>_. holds D) (holds D)"
proof -
  let ?key = "computeIdempotencyKey X v req"
  have keep: "leads (holds J) m (\<lambda>_. holds J) (holds D)" if "preserves quiet m" "preserves (stable J) m" for m :: "'b io"
    by (rule leads_mono [OF leads_keeps [OF that]]) (auto simp: holds_def not_claimed)
  have stop: "leads (holds J) (throw e) (\<lambda>_. holds D) (holds D)" "leads (holds J) (ret x) (\<lambda>_. holds D) (holds D)"
    for e and x :: sign_result
    by (auto simp: leads_def wp_simps holds_def not_claimed)
  have last: "leads (holds (case x of Inl _ \<Rightarrow> D | Inr i \<Rightarrow> C i))
     (case x of Inl res \<Rightarrow> ret res | Inr i \<Rightarrow> signAndSend orgId s wl req fees ?key i) (\<lambda>_. holds D) (holds D)" if "wl_id wl = v" for x s wl fees
    by (cases x) (simp_all add: leads_result run_phases [OF that])
  have verdict: "leads (holds J) (case x of Deny reason \<Rightarrow> throw (ForbiddenException (''Policy denied: '' @ reason))
     | Allow \<Rightarrow> andThen (estimateFees (req_to req) (req_value req) (req_data req) (req_chainId req)
          (Some (wl_address wl))) (\<lambda>fees. andThen (claimRequest orgId (wl_id wl) req ?key) (\<lambda>claim. case claim of
         Inl res \<Rightarrow> ret res | Inr i \<Rightarrow> signAndSend orgId s wl req fees ?key i))) (\<lambda>_. holds D) (holds D)" if "wl_id wl = v" for x s wl
    unfolding that
    by (cases x) (simp_all only: verdict.case, intro leads_then [OF keep] leads_then [OF claim_phase]
        last [OF that] preserves_intros quiet_estimateFees, rule stop)
  have sign: "leads (holds J) (authorizeAndSign X orgId s wl req ?key) (\<lambda>_. holds D) (holds D)" if "wl_id wl = v" for s wl
    unfolding authorizeAndSign_def
    by (intro leads_then [OF keep] verdict [OF that] evaluate_env stable_evaluate evaluated)
  show ?thesis
    unfolding requestSign_def Let_def
  proof (rule leads_then [OF leads_load [OF keep [OF loadPrerequisites_env(2,4)]]])
    fix sv :: "organization_seed \<times> wallet"
    show "leads ((\<lambda>(s, wl) w. holds J w \<and> wl_id wl = v) sv) (case sv of (seedRow, wallet) \<Rightarrow>
       andThen (sr_findByIdempotencyKey ?key) (\<lambda>existing. case existing of
           Some r \<Rightarrow> if sr_status r \<noteq> ''failed'' then ret (buildSignResultFromRequest r)
                     else authorizeAndSign X orgId seedRow wallet req ?key
         | None \<Rightarrow> authorizeAndSign X orgId seedRow wallet req ?key)) (\<lambda>_. holds D) (holds D)"
      unfolding split_beta
      by (intro leads_given leads_then [OF keep] sr_query_env) (simp add: stop sign split: option.split)
  qed
qed

end

end
