(* ===== verification/SigningEnds.thy ===== *)
theory SigningEnds
  imports SigningRaces SigningPhases
begin

text \<open>
  How a request to sign ends: undisturbed, no row is left between its claim and its end,
  whatever the signer and the nodes answer; and what is left when one statement fails, the one
  that records a broadcast or the one that reserves the nonce.
\<close>

section \<open>Rows on their way\<close>

definition on_its_way :: "signing_request \<Rightarrow> bool" where
  "on_its_way r \<longleftrightarrow> sr_status r \<in> {''pending'', ''signed''}"

text \<open>Only rows with these identifiers are on their way.\<close>

definition settled_but :: "string set \<Rightarrow> db \<Rightarrow> bool" where
  "settled_but S d \<longleftrightarrow> (\<forall>r \<in> set (signing_requests d). on_its_way r \<longrightarrow> sr_id r \<in> S)"

definition nonce_left :: "string \<Rightarrow> int \<Rightarrow> db \<Rightarrow> bool" where
  "nonce_left walletId c d \<longleftrightarrow> (case wallet_nonces d (walletId, c) of None \<Rightarrow> True | Some n \<Rightarrow> int4_ok (n + 1))"

lemma settled_but_other [simp]:
  "settled_but S (audit_log_update g d) = settled_but S d"
  "settled_but S (wallet_nonces_update h d) = settled_but S d"
  by (simp_all add: settled_but_def)

lemma nonce_left_other [simp]:
  "nonce_left i c (audit_log_update g d) = nonce_left i c d"
  "nonce_left i c (signing_requests_update k d) = nonce_left i c d"
  by (simp_all add: nonce_left_def)

lemma settled_row:
  assumes "settled_but S d" and "\<And>r. on_its_way (f r) \<Longrightarrow> i \<in> S'" and "\<And>r. sr_id (f r) = sr_id r" and "S \<subseteq> insert i S'"
  shows "settled_but S' (signing_requests_update (map_row (\<lambda>r. sr_id r = i) f) d)"
  using assms by (fastforce simp: settled_but_def map_row_def split: if_splits)

lemma settled_set:
  assumes "settled_but S d" and "(\<exists>st. f_status f = Val st \<and> st \<notin> {''pending'', ''signed''}) \<or> i \<in> S'" and "S \<subseteq> insert i S'"
  shows "settled_but S' (set_row i f d)"
  by (rule settled_row [OF assms(1)]) (use assms(2,3) in \<open>auto simp: on_its_way_def sr_set_def\<close>)

lemma settled_but_nonces [simp]: "settled_but S (d\<lparr>wallet_nonces := m\<rparr>) = settled_but S d"
  by (simp add: settled_but_def)

section \<open>The phases of a request\<close>

text \<open>The claimed row is on its way until it has failed or is broadcasted.\<close>

interpretation settling: signing_phases X v req
  "\<lambda>d. settled_but S d \<and> nonce_left v (req_chainId req) d" "\<lambda>i d. settled_but (insert i S) d \<and> nonce_left v (req_chainId req) d"
  "\<lambda>i n. settled_but (insert i S)" "\<lambda>i n. settled_but (insert i S)" "\<lambda>i n. settled_but S" "\<lambda>i. settled_but S" "settled_but S"
  for X v req S
proof unfold_locales
  show "settled_but (insert (sr_id r) S) (signing_requests_update (\<lambda>_. signing_requests d @ [r]) d) \<and>
      nonce_left v (req_chainId req) (signing_requests_update (\<lambda>_. signing_requests d @ [r]) d)"
    if "settled_but S d \<and> nonce_left v (req_chainId req) d" for d r
    using that by (auto simp: settled_but_def nonce_left_def)
  show "settled_but (insert (sr_id r) S) (set_row (sr_id r) reclaim_fields d) \<and>
      nonce_left v (req_chainId req) (set_row (sr_id r) reclaim_fields d)"
    if "settled_but S d \<and> nonce_left v (req_chainId req) d" for d r
    using that by (auto intro: settled_set)
  show "settled_but S d" if "settled_but (insert i S) d \<and> nonce_left v (req_chainId req) d"
    "reserve_nonce (wallet_nonces d) (v, req_chainId req) = Inl err" for d i err
    using that by (auto simp: nonce_left_def reserve_nonce_def int4_ok_def Let_def split: option.splits)
  show "settled_but S (set_row i (failed_fields reason ty) d)" if "settled_but (insert i S) d" for d i reason ty
    using that by (rule settled_set) (auto simp: failed_fields_def)
  show "settled_but S (set_row i (sent_fields t) d)" if "settled_but (insert i S) d" for d i t
    using that by (rule settled_set) (auto simp: sent_fields_def)
qed (auto simp: settled_but_nonces intro: settled_set)

lemma nonces_quiet:
  "preserves quiet (releaseNonce wid c n)" "preserves quiet (attempt (syncNonce wid c a))"
  unfolding releaseNonce_def syncNonce_def Let_def nonce_release_def nonce_syncFromChain_def
  by (intro preserves_intros broadcast_env)+

section \<open>A broadcast that is not recorded\<close>

lemma lost_record:
  assumes "map_of (chains (w_env w)) c = Some ch" and "cc_rpcUrls ch = u # us" and "st_rawTx signed = Some raw"
    and "rpc_reply ''eth_sendRawTransaction'' (w_net w (length (w_sent w))
      (rpc_request u ''eth_sendRawTransaction'' [JStr raw])) = Inr res"
    and "w_fault w (w_stmts w) = Some e" and "w_sched w (w_stmts w) = (\<lambda>d. d)" and "quiet (tick w)"
  shows "\<exists>w'. broadcastOrFail v c signed i w = (Inl (http_failure ''Transaction broadcast'' (classifyError e)), w') \<and>
    quiet w' \<and> w_driver w' = w_driver w \<and> rpc_request u ''eth_sendRawTransaction'' [JStr raw] \<in> set (w_sent w') \<and>
    signing_requests (w_db w') = map_row (\<lambda>r. sr_id r = i) (\<lambda>r. r\<lparr>sr_status := ''failed'',
       sr_failure_reason := Some (''broadcast failed: '' @ error_message e),
       sr_error_type := Some (error_type_text (classifyError e))\<rparr>) (signing_requests (w_db w))"
proof -
  let ?rq = "rpc_request u ''eth_sendRawTransaction'' [JStr raw]"
  let ?f = "failed_fields (''broadcast failed: '' @ error_message e) (error_type_text (classifyError e))"
  let ?t = "\<lambda>t. no_fields\<lparr>f_status := Val ''broadcasted'', f_broadcasted_at := Val t\<rparr>"
  define w2 where "w2 = (tick w)\<lparr>w_sent := w_sent w @ [?rq], w_reads := Suc (w_reads w)\<rparr>"
  have "broadcastTransaction (Some raw) c w = (Inr res, w\<lparr>w_sent := w_sent w @ [?rq]\<rparr>)"
    using rpc_first_provider [OF assms(1,2,4)] by (simp add: broadcastTransaction_def)
  then have t: "andThen (broadcastTransaction (st_rawTx signed) c) (\<lambda>_. andThen now (\<lambda>t. sr_update i (?t t))) w = (Inl e, w2)"
    using assms(3,5,6) by (simp add: now_run andThen_def sr_update_def stmt_def w2_def tick_def no_fields_def)
  define w3 where "w3 = (tick w2)\<lparr>w_db := signing_requests_update (map_row (\<lambda>r. sr_id r = i) (sr_set ?f Undefined)) (w_db w2)\<rparr>"
  have q: "quiet w2" "quiet w3" using assms(7) by (simp_all add: w2_def w3_def)
  have u: "sr_update i ?f w2 = (Inr (), w3)" using sr_update_quiet [OF q(1), of ?f i] by (simp add: w3_def)
  obtain r4 w4 where s: "syncNonce (wl_id v) c (wl_address v) w3 = (r4, w4)" by fastforce
  have "attempt (syncNonce (wl_id v) c (wl_address v)) w3 = (Inr r4, w4)" using s by (simp add: attempt_def)
  from preserves_runD [OF nonces_quiet(2) this q(2)] have q4: "quiet w4" .
  have "preserves (same_env w3) (syncNonce (wl_id v) c (wl_address v))"
    unfolding syncNonce_def Let_def nonce_syncFromChain_def by (intro preserves_intros)
  from preserves_runD [OF this s same_env_refl] have driver: "w_driver w4 = w_driver w"
    by (simp add: same_env_def w3_def w2_def)
  have "stable (\<lambda>d. signing_requests d = signing_requests (w_db w3)) w3" using q(2) by (simp add: quiet_stable)
  from stableD [OF preserves_runD [OF sync_keeps_requests s this]]
  have rows: "signing_requests (w_db w4) = signing_requests (w_db w3)" .
  have "\<exists>rs. w_sent w4 = w_sent w3 @ rs" using traffic_syncNonce s unfolding traffic_iff by (metis snd_conv)
  then have sent: "?rq \<in> set (w_sent w4)" by (auto simp: w3_def w2_def)
  have f: "sr_set ?f Undefined = (\<lambda>r. r\<lparr>sr_status := ''failed'',
       sr_failure_reason := Some (''broadcast failed: '' @ error_message e),
       sr_error_type := Some (error_type_text (classifyError e))\<rparr>)"
    by (rule ext) (rule sr_set_failed)
  have "broadcastOrFail v c signed i w = (Inl (http_failure ''Transaction broadcast'' (classifyError e)), w4)"
    using t u s by (simp add: broadcastOrFail_def catch_def andThen_def attempt_def throw_run)
  moreover have "signing_requests (w_db w4) = map_row (\<lambda>r. sr_id r = i) (\<lambda>r. r\<lparr>sr_status := ''failed'',
       sr_failure_reason := Some (''broadcast failed: '' @ error_message e),
       sr_error_type := Some (error_type_text (classifyError e))\<rparr>) (signing_requests (w_db w))"
    unfolding f [symmetric] by (simp add: rows w3_def w2_def)
  ultimately show ?thesis using q4 driver sent by blast
qed

section \<open>Properties\<close>

text \<open>
  C24. No request hangs.  Undisturbed, and while the counter of the wallet is not at the end of its
  column, a row that is pending or signed after \<open>requestSign\<close> was so before: whatever the
  signer and the nodes answer, the row of the request itself has failed or is broadcasted.
\<close>

theorem requests_do_not_hang:
  assumes "quiet w" and "nonce_left walletId (req_chainId req) (w_db w)"
    and "requestSign X orgId walletId req w = (r, w')"
  shows "\<forall>row \<in> set (signing_requests (w_db w')). sr_status row \<in> {''pending'', ''signed''} \<longrightarrow>
    (\<exists>row0 \<in> set (signing_requests (w_db w)). sr_id row0 = sr_id row \<and> sr_status row0 \<in> {''pending'', ''signed''})"
proof -
  let ?S = "sr_id ` {row \<in> set (signing_requests (w_db w)). on_its_way row}"
  have "holds (\<lambda>d. settled_but ?S d \<and> nonce_left walletId (req_chainId req) d) w"
    using assms(1,2) by (simp add: holds_def settled_but_def)
  from leadsD [OF settling.request_phases this assms(3)] have "settled_but ?S (w_db w')"
    by (simp add: holds_def split: sum.splits)
  then show ?thesis by (fastforce simp: settled_but_def on_its_way_def)
qed

text \<open>The signer is down: the retry fails, and no row is on its way.\<close>

theorem requests_do_not_hang_witness:
  "list_all (\<lambda>row. sr_status row \<noteq> ''pending'' \<and> sr_status row \<noteq> ''signed'') (signing_requests (w_db
     (snd (requestSign sample_ext ''org'' ''w'' sample_request (sample_world ''failed'' (\<lambda>_ _. NetError ''down''))))))"
proof -
  let ?w = "sample_world ''failed'' (\<lambda>_ _. NetError ''down'')"
  have n: "nonce_left ''w'' (req_chainId sample_request) (w_db ?w)" by (simp add: nonce_left_def)
  have q: "quiet ?w" by simp
  have s: "\<not> (\<exists>row0 \<in> set (signing_requests (w_db ?w)). sr_id row0 = j \<and> sr_status row0 \<in> {''pending'', ''signed''})" for j
    by (simp add: sample_row_def)
  obtain r w' where run: "requestSign sample_ext ''org'' ''w'' sample_request ?w = (r, w')" by fastforce
  from requests_do_not_hang [OF q n run] s show ?thesis by (simp add: run list_all_iff)
qed

text \<open>
  C28. An abandoned claim is final.  The statement that reserves the nonce fails after the claim.  Then the
  exception leaves the row as it is, pending; and as long as the others do not fail the row,
  no request for the same transaction is ever signed: it returns the result of a row that
  has not failed, or throws, and sends nothing.
\<close>

theorem abandoned_claim_is_final:
  assumes "w_fault w (w_stmts w) = Some e" and "w_sched w (w_stmts w) = (\<lambda>d. d)"
    and "stable (alive (computeIdempotencyKey X walletId req)) (tick w)"
  shows "\<exists>w'. signAndSend orgId s v req fees key i w = (Inl e, w') \<and> w_db w' = w_db w \<and> w_sent w' = w_sent w \<and>
    w_sent (snd (requestSign X orgId' walletId req w')) = w_sent w \<and>
    replays (computeIdempotencyKey X walletId req) (w_db (snd (requestSign X orgId' walletId req w'))) (fst (requestSign X orgId' walletId req w'))"
proof (intro exI conjI)
  show "signAndSend orgId s v req fees key i w = (Inl e, tick w)"
    using assms(1,2) by (simp add: signAndSend_def reserveNonce_def nonce_reserve_def andThen_def stmt_def tick_def)
  obtain r w2 where run: "requestSign X orgId' walletId req (tick w) = (r, w2)" by fastforce
  from alive_requestSign [OF assms(3) run] run
  show "w_sent (snd (requestSign X orgId' walletId req (tick w))) = w_sent w"
    and "replays (computeIdempotencyKey X walletId req) (w_db (snd (requestSign X orgId' walletId req (tick w)))) (fst (requestSign X orgId' walletId req (tick w)))" by simp_all
qed simp_all

theorem abandoned_claim_is_final_witness:
  "\<exists>w'. signAndSend ''org'' sample_seed sample_wallet sample_request sample_fees
       (computeIdempotencyKey sample_ext ''w'' sample_request) ''r''
       ((sample_world ''pending'' sample_net)\<lparr>w_fault := (\<lambda>n. if n = 0 then Some (JsError ''timeout'') else None)\<rparr>) =
       (Inl (JsError ''timeout''), w') \<and>
     signing_requests (w_db w') = [sample_row ''pending''] \<and>
     w_sent (snd (requestSign sample_ext ''org'' ''w'' sample_request w')) = []"
proof -
  let ?w = "(sample_world ''pending'' sample_net)\<lparr>w_fault := (\<lambda>n. if n = 0 then Some (JsError ''timeout'') else None)\<rparr>"
  have w: "w_fault ?w (w_stmts ?w) = Some (JsError ''timeout'')" "w_sched ?w (w_stmts ?w) = (\<lambda>d. d)" "quiet (tick ?w)"
    by (simp_all add: sample_world_def calm_world_def quiet_def tick_def)
  have "alive (computeIdempotencyKey sample_ext ''w'' sample_request) (w_db (tick ?w))"
    by (simp add: alive_def sample_row_def)
  with w(3) have st: "stable (alive (computeIdempotencyKey sample_ext ''w'' sample_request)) (tick ?w)"
    by (rule quiet_stable)
  have db: "signing_requests (w_db ?w) = [sample_row ''pending'']" "w_sent ?w = []" by simp_all
  from abandoned_claim_is_final [OF w(1,2) st, of "''org''" sample_seed sample_wallet sample_fees
      "computeIdempotencyKey sample_ext ''w'' sample_request" "''r''" "''org''"] db
  show ?thesis by (elim exE conjE) (intro exI conjI; simp)
qed

end
