(* ===== verification/Monitor.thy ===== *)
theory Monitor
  imports WalletSigning
begin

text \<open>
  The life of a transaction after its broadcast (\<open>libs/monitor/src\<close>): \<open>SpeedUpService\<close>
  replaces a stuck transaction, \<open>PendingMonitor\<close> drives every broadcasted row one step,
  \<open>TransactionMonitorService\<close> runs a cycle on a timer.

  The three settings are read as exact decimal fractions; a text that is not a finite
  decimal number counts as \<open>NaN\<close>.
\<close>

section \<open>Settings\<close>

text \<open>\<open>Number(config.get(key, default))\<close>.\<close>

definition setting :: "string \<Rightarrow> string \<Rightarrow> (int \<times> int) option io" where
  "setting key dflt = andThen (config_get key) (\<lambda>v.
     ret (number_fraction (case v of None \<Rightarrow> dflt | Some s \<Rightarrow> s)))"

section \<open>Speed-up\<close>

text \<open>\<open>BigInt(Math.round(multiplier * 100))\<close>.\<close>

definition multiplierNumerator :: "(int \<times> int) option \<Rightarrow> js_error + int" where
  "multiplierNumerator m = (case m of
     None \<Rightarrow> Inl (JsError ''The number NaN cannot be converted to a BigInt because it is not an integer'')
   | Some (n, d) \<Rightarrow> Inr ((200 * n + d) div (2 * d)))"

definition bumpFee :: "int \<Rightarrow> int \<Rightarrow> int" where
  "bumpFee numerator fee = bigint_div (fee * numerator + 100 - 1) 100"

definition bumpedFees :: "(int \<times> int) option \<Rightarrow> fee_estimate \<Rightarrow> js_error + (string \<times> string)" where
  "bumpedFees mult fees =
     bind_res (multiplierNumerator mult) (\<lambda>numerator.
     bind_res (bigint_of_string (fe_maxFeePerGas fees)) (\<lambda>maxFee.
     bind_res (bigint_of_string (fe_maxPriorityFeePerGas fees)) (\<lambda>maxPriority.
       Inr (show_int (bumpFee numerator maxFee), show_int (bumpFee numerator maxPriority)))))"

definition replacement_tx :: "int \<Rightarrow> tx_fields \<Rightarrow> fee_estimate \<Rightarrow> string \<Rightarrow> string \<Rightarrow> tx_fields" where
  "replacement_tx chainId payload fees maxFee maxPriority = \<lparr>tx_chainId = chainId,
     tx_nonce = tx_nonce payload, tx_to = tx_to payload, tx_value = tx_value payload,
     tx_gasLimit = fe_gasLimit fees, tx_maxFeePerGas = maxFee,
     tx_maxPriorityFeePerGas = maxPriority, tx_data = tx_data payload\<rparr>"

text \<open>The comparison of the two hashes only logs, but it raises on a value that is no string.\<close>

definition check_hashes :: "json option \<Rightarrow> string option \<Rightarrow> js_error + string" where
  "check_hashes broadcastHash txHash = (case broadcastHash of
     Some (JStr b) \<Rightarrow> (case txHash of Some h \<Rightarrow> Inr h
        | None \<Rightarrow> Inl (JsError ''Cannot read properties of undefined''))
   | None \<Rightarrow> Inl (JsError ''Cannot read properties of undefined'')
   | Some JNull \<Rightarrow> Inl (JsError ''Cannot read properties of null'')
   | Some _ \<Rightarrow> Inl (JsError ''broadcastHash.toLowerCase is not a function''))"

definition or_null :: "'a option \<Rightarrow> 'a field" where
  "or_null x = (case x of None \<Rightarrow> Null | Some v \<Rightarrow> Val v)"

definition sped_up_fields :: "signing_request \<Rightarrow> string \<Rightarrow> int \<Rightarrow> int \<Rightarrow> sr_fields" where
  "sped_up_fields row txHash t t' = no_fields\<lparr>f_tx_hash := Val txHash,
     f_original_tx_hash := or_null (case sr_original_tx_hash row of None \<Rightarrow> sr_tx_hash row | h \<Rightarrow> h),
     f_speed_up_attempts := Val (sr_speed_up_attempts row + 1), f_last_speed_up_at := Val t,
     f_broadcasted_at := Val t', f_status := Val ''broadcasted'', f_block_number := Undefined,
     f_gas_used := Undefined, f_effective_gas_price := Undefined\<rparr>"

text \<open>Steps 3 to 5.\<close>

definition signReplacement :: "signing_request \<Rightarrow> organization_seed \<Rightarrow> wallet \<Rightarrow> tx_fields \<Rightarrow> unit io" where
  "signReplacement row seedRow wallet tx =
     andThen (attempt (crypto_signTransaction seedRow (wl_derivation_path wallet) tx)) (\<lambda>signed.
     case signed of
       Inl err \<Rightarrow> sr_update (sr_id row)
          (failed_fields (''speed-up signing failed: '' @ error_message err) ''retryable'')
     | Inr result \<Rightarrow>
         andThen (attempt (andThen (broadcastTransaction (st_rawTx result) (sr_chain_id row))
            (\<lambda>broadcastHash. lift_res (check_hashes broadcastHash (st_txHash result))))) (\<lambda>sent.
         case sent of
           Inl err \<Rightarrow> sr_update (sr_id row)
              (failed_fields (''speed-up broadcast failed: '' @ error_message err) ''retryable'')
         | Inr txHash \<Rightarrow> andThen now (\<lambda>t. andThen now (\<lambda>t'.
              sr_update (sr_id row) (sped_up_fields row txHash t t')))))"

definition budget_spent :: "(int \<times> int) option \<Rightarrow> int \<Rightarrow> bool" where
  "budget_spent limit attempts = (case limit of None \<Rightarrow> False | Some (n, d) \<Rightarrow> n \<le> attempts * d)"

text \<open>Step 2, from the fees, from the seed and from the wallet on.\<close>

definition bumpAndReplace :: "signing_request \<Rightarrow> tx_fields \<Rightarrow> wallet \<Rightarrow> organization_seed \<Rightarrow> unit io" where
  "bumpAndReplace row payload wallet seedRow =
     andThen (estimateFees (tx_to payload) (tx_value payload) (tx_data payload)
        (sr_chain_id row) None) (\<lambda>fees.
     andThen (setting ''GAS_BUMP_MULTIPLIER'' ''1.2'') (\<lambda>mult.
     andThen (lift_res (bumpedFees mult fees)) (\<lambda>(maxFee, maxPriority).
       signReplacement row seedRow wallet
         (replacement_tx (sr_chain_id row) payload fees maxFee maxPriority))))"

definition replaceWith :: "signing_request \<Rightarrow> tx_fields \<Rightarrow> wallet \<Rightarrow> unit io" where
  "replaceWith row payload wallet =
     andThen (seed_findByOrgId (wl_org_id wallet)) (\<lambda>seed. case seed of
       None \<Rightarrow> sr_update (sr_id row)
          (failed_fields ''organization seed unavailable for speed-up'' ''permanent'')
     | Some seedRow \<Rightarrow> bumpAndReplace row payload wallet seedRow)"

definition replaceTx :: "signing_request \<Rightarrow> tx_fields \<Rightarrow> unit io" where
  "replaceTx row payload =
     andThen (wallet_findById (sr_wallet_id row)) (\<lambda>found. case found of
       None \<Rightarrow> sr_update (sr_id row)
          (failed_fields ''wallet metadata unavailable for speed-up'' ''permanent'')
     | Some wallet \<Rightarrow> replaceWith row payload wallet)"

definition speedUp :: "signing_request \<Rightarrow> unit io" where
  "speedUp row =
     andThen (setting ''MAX_SPEED_UP_ATTEMPTS'' ''3'') (\<lambda>limit.
     if budget_spent limit (sr_speed_up_attempts row)
     then sr_update (sr_id row) (failed_fields ''max speed-up attempts reached'' ''permanent'')
     else case sr_tx_payload row of
       None \<Rightarrow> sr_update (sr_id row) (failed_fields ''missing tx_payload for speed-up'' ''unknown'')
     | Some payload \<Rightarrow> replaceTx row payload)"

lemmas speedUp_defs = speedUp_def replaceTx_def replaceWith_def bumpAndReplace_def signReplacement_def

section \<open>One row\<close>

text \<open>\<open>String(x)\<close> of a value that may be undefined.\<close>

definition String_of :: "string option \<Rightarrow> string" where
  "String_of x = (case x of None \<Rightarrow> ''undefined'' | Some s \<Rightarrow> s)"

definition confirmed_fields :: "receipt \<Rightarrow> int \<Rightarrow> sr_fields" where
  "confirmed_fields receipt t = no_fields\<lparr>f_status := Val ''confirmed'',
     f_block_number := Val (rc_blockNumber receipt), f_gas_used := Val (String_of (rc_gasUsed receipt)),
     f_effective_gas_price := Val (String_of (rc_effectiveGasPrice receipt)),
     f_confirmed_at := Val t\<rparr>"

definition applyReceipt :: "signing_request \<Rightarrow> receipt \<Rightarrow> unit io" where
  "applyReceipt row receipt =
     (if rc_status receipt = NInt 1
      then andThen now (\<lambda>t. sr_update (sr_id row) (confirmed_fields receipt t))
      else sr_update (sr_id row) (failed_fields ''transaction reverted on-chain'' ''permanent''))"

text \<open>\<open>ageMinutes < threshold\<close>, in milliseconds; a comparison with \<open>NaN\<close> is false.\<close>

definition still_fresh :: "(int \<times> int) option \<Rightarrow> int \<Rightarrow> bool" where
  "still_fresh threshold age = (case threshold of None \<Rightarrow> False | Some (n, d) \<Rightarrow> age * d < n * 60000)"

definition checkStuck :: "signing_request \<Rightarrow> string \<Rightarrow> unit io" where
  "checkStuck row txHash =
     andThen now (\<lambda>t.
     andThen (setting ''STUCK_THRESHOLD_MINUTES'' ''5'') (\<lambda>threshold.
     let broadcastedAt = (case sr_broadcasted_at row of None \<Rightarrow> sr_created_at row | Some b \<Rightarrow> b) in
     if still_fresh threshold (t - broadcastedAt) then ret ()
     else andThen (getTransactionByHash txHash (sr_chain_id row)) (\<lambda>txData.
       if \<not> js_truthy txData
       then sr_update (sr_id row) (no_fields\<lparr>f_status := Val ''dropped'',
              f_failure_reason := Val ''transaction not found on-chain or in mempool''\<rparr>)
       else speedUp row)))"

definition processRow :: "signing_request \<Rightarrow> unit io" where
  "processRow row = (case sr_tx_hash row of
     None \<Rightarrow> sr_update (sr_id row) (failed_fields ''broadcasted row missing tx_hash'' ''unknown'')
   | Some txHash \<Rightarrow>
       if txHash = []
       then sr_update (sr_id row) (failed_fields ''broadcasted row missing tx_hash'' ''unknown'')
       else andThen (attempt (getTransactionReceipt txHash (sr_chain_id row))) (\<lambda>receipt.
         case receipt of
           Inl err \<Rightarrow> ret ()
         | Inr (Some r) \<Rightarrow> applyReceipt row r
         | Inr None \<Rightarrow> checkStuck row txHash))"

section \<open>A cycle\<close>

text \<open>Every row is processed; an exception of one does not reach the next.\<close>

fun pollRows :: "signing_request list \<Rightarrow> unit io" where
  "pollRows [] = ret ()"
| "pollRows (row # rows) = andThen (catch (processRow row) (\<lambda>_. ret ())) (\<lambda>_. pollRows rows)"

definition poll :: "unit io" where
  "poll = andThen (attempt sr_findBroadcasted) (\<lambda>rows. case rows of
     Inl err \<Rightarrow> ret () | Inr rs \<Rightarrow> pollRows rs)"

definition runPoll :: "unit io" where
  "runPoll = catch poll (\<lambda>_. ret ())"

section \<open>What the monitor may do\<close>

lemma setting_env [preserves_intros]: "preserves I (setting k d)"
  unfolding setting_def config_get_def by (auto simp: preserves_def run_defs)

lemma receipt_env [preserves_intros]:
  "preserves (stable J) (getTransactionReceipt h c)" "preserves (stable J) (getTransactionByHash h c)"
  unfolding getTransactionReceipt_def getTransactionByHash_def by (intro preserves_intros)+

lemma findBroadcasted_env [preserves_intros]:
  "preserves (silent rs) sr_findBroadcasted" "preserves (stable J) sr_findBroadcasted"
  unfolding sr_findBroadcasted_def by (intro preserves_intros)+

definition dropped_fields :: sr_fields where
  "dropped_fields = no_fields\<lparr>f_status := Val ''dropped'',
     f_failure_reason := Val ''transaction not found on-chain or in mempool''\<rparr>"

text \<open>
  The contract of the monitor: on the rows with identifier \<open>i\<close> it writes only updates
  that are \<open>ok\<close>, and \<open>J\<close> is kept by those.
\<close>

locale own_row =
  fixes J :: "db \<Rightarrow> bool" and i :: string and ok :: "sr_fields \<Rightarrow> bool"
  assumes own_update: "J d \<Longrightarrow> ok f \<Longrightarrow>
      J (signing_requests_update (map_row (\<lambda>r. sr_id r = i) (sr_set f blk)) d)"
    and ok_failed: "ok (failed_fields reason ty)" and ok_dropped: "ok dropped_fields"
begin

lemma ok_update_stable: "ok f \<Longrightarrow> preserves (stable J) (sr_update i f)"
  by (rule stable_sr_update) (rule own_update)

lemma speedUp_stable:
  assumes "sr_id row = i" and "\<And>h t t'. ok (sped_up_fields row h t t')"
  shows "preserves (stable J) (speedUp row)"
  unfolding speedUp_defs wallet_findById_def seed_findByOrgId_def broadcastTransaction_def assms(1)
  by (intro preserves_intros ok_update_stable ok_failed assms(2))

lemma checkStuck_stable:
  assumes "sr_id row = i" and "\<And>h t t'. ok (sped_up_fields row h t t')"
  shows "preserves (stable J) (checkStuck row h)"
  unfolding checkStuck_def Let_def assms(1) dropped_fields_def [symmetric]
  by (intro preserves_intros ok_update_stable ok_dropped speedUp_stable assms)

lemma processRow_stable:
  assumes "sr_id row = i" and "\<And>h t t'. ok (sped_up_fields row h t t')"
    and "\<And>r t. ok (confirmed_fields r t)"
  shows "preserves (stable J) (processRow row)"
  unfolding processRow_def applyReceipt_def assms(1)
  by (intro preserves_intros ok_update_stable ok_failed assms(2,3) checkStuck_stable [OF assms(1,2)])

end

text \<open>An invariant of the rows that \<open>requestSign\<close> keeps is kept by the monitor too.\<close>

sublocale request_invariant \<subseteq> own: own_row J i "\<lambda>_. True" for i
  by unfold_locales (auto intro: update_keeps)

context request_invariant begin

lemma runPoll_stable: "preserves (stable J) runPoll"
proof -
  have "preserves (stable J) (pollRows rows)" for rows
    by (induction rows) (auto intro!: preserves_intros own.processRow_stable)
  then show ?thesis
    unfolding runPoll_def poll_def by (intro preserves_intros)
qed

end

text \<open>Everything but the rows with one identifier is as it was in \<open>d0\<close>.\<close>

definition others_unchanged :: "string \<Rightarrow> db \<Rightarrow> db \<Rightarrow> bool" where
  "others_unchanged i d0 d \<longleftrightarrow> d\<lparr>signing_requests := []\<rparr> = d0\<lparr>signing_requests := []\<rparr> \<and>
     filter (\<lambda>r. sr_id r \<noteq> i) (signing_requests d) = filter (\<lambda>r. sr_id r \<noteq> i) (signing_requests d0)"

lemma filter_other_rows:
  "filter (\<lambda>r. sr_id r \<noteq> i) (map_row (\<lambda>r. sr_id r = i) (sr_set f blk) rs) = filter (\<lambda>r. sr_id r \<noteq> i) rs"
  by (induction rs) auto

interpretation confined: own_row "others_unchanged i d0" i "\<lambda>_. True" for i d0
  by unfold_locales (auto simp: others_unchanged_def filter_other_rows)

text \<open>No row with the identifier is confirmed.\<close>

definition unconfirmed :: "string \<Rightarrow> db \<Rightarrow> bool" where
  "unconfirmed i d \<longleftrightarrow> (\<forall>r \<in> set (signing_requests d). sr_id r = i \<longrightarrow> sr_status r \<noteq> ''confirmed'')"

interpretation unconfirmed: own_row "unconfirmed i" i "\<lambda>f. f_status f \<in> {Val ''failed'', Val ''dropped'', Val ''broadcasted''}"
  for i
proof unfold_locales
  fix d blk and f :: sr_fields
  assume "unconfirmed i d" and f: "f_status f \<in> {Val ''failed'', Val ''dropped'', Val ''broadcasted''}"
  moreover have "sr_status (sr_set f blk r) \<noteq> ''confirmed''" for r
    using f by (auto simp: sr_set_def)
  ultimately show "unconfirmed i (signing_requests_update (map_row (\<lambda>r. sr_id r = i) (sr_set f blk)) d)"
    by (auto simp: unconfirmed_def set_map_row)
qed (simp_all add: failed_fields_def dropped_fields_def)

text \<open>
  \<open>replaces s v row\<close>: a request of the signer for the transaction of the row, with the same
  nonce, recipient, value, data and chain, under the seed \<open>s\<close> at the path of the wallet \<open>v\<close>;
  only the gas and the fees may differ.
\<close>

definition replaces :: "organization_seed \<Rightarrow> wallet \<Rightarrow> signing_request \<Rightarrow> http_request \<Rightarrow> bool" where
  "replaces s v row rq \<longleftrightarrow> (\<exists>payload tx. sr_tx_payload row = Some payload \<and> tx_chainId tx = sr_chain_id row \<and>
     tx_nonce tx = tx_nonce payload \<and> tx_to tx = tx_to payload \<and> tx_value tx = tx_value payload \<and>
     tx_data tx = tx_data payload \<and>
     is_crypto ''/wallet/sign-transaction'' (sign_body s (wl_derivation_path v) tx) rq)"

text \<open>The wallet of the row and the seed of its organization, as the two statements of a speed-up find them.\<close>

definition rows_of :: "world \<Rightarrow> signing_request \<Rightarrow> organization_seed \<Rightarrow> wallet \<Rightarrow> bool" where
  "rows_of w row s v \<longleftrightarrow> v \<in> set (wallets (w_sched w (w_stmts w) (w_db w))) \<and> wl_id v = sr_wallet_id row \<and>
     s \<in> set (organization_seeds (w_sched w (Suc (w_stmts w)) (w_sched w (w_stmts w) (w_db w)))) \<and>
     sd_org_id s = wl_org_id v"

abbreviation "monitor_budget s v row b k \<equiv>
  emits (rationed (\<lambda>rq. is_node_call rq \<or> replaces s v row rq) has_token b k)"

lemma monitor_node: "traffic is_node_call m b \<Longrightarrow> monitor_budget s v row b k m"
  by (erule traffic_rationed) (auto dest: node_call_no_token)

lemma monitor_silent: "(\<And>rs. preserves (silent rs) m) \<Longrightarrow> monitor_budget s v row b k m"
  by (rule emits_silent) simp_all

lemma emits_case_option:
  "(x = None \<Longrightarrow> emits L m) \<Longrightarrow> (\<And>y. x = Some y \<Longrightarrow> emits L (k y)) \<Longrightarrow>
   emits L (case x of None \<Rightarrow> m | Some y \<Rightarrow> k y)"
  by (cases x) auto

lemma emits_if: "(c \<Longrightarrow> emits L m) \<Longrightarrow> (\<not> c \<Longrightarrow> emits L k) \<Longrightarrow> emits L (if c then m else k)"
  by simp

lemma emits_attempt: "emits L m \<Longrightarrow> emits L (attempt m)"
  by (simp add: emits_def attempt_def split_beta)

lemma monitor_sign:
  assumes "sr_tx_payload row = Some payload"
  shows "monitor_budget s v row 1 1 (attempt (crypto_signTransaction s (wl_derivation_path v)
    (replacement_tx (sr_chain_id row) payload fees maxFee maxPriority)))"
proof (rule emits_mono [OF emits_attempt [OF emits_crypto(3)]])
  let ?tx = "replacement_tx (sr_chain_id row) payload fees maxFee maxPriority"
  have "replaces s v row rq"
    if "is_crypto ''/wallet/sign-transaction'' (sign_body s (wl_derivation_path v) ?tx) rq" for rq
    using assms that unfolding replaces_def
    by (intro exI [of _ payload] exI [of _ ?tx]) (simp add: replacement_tx_def)
  then show "rationed (\<lambda>rq. is_node_call rq \<or> replaces s v row rq) has_token 1 1 rs"
    if "rationed (is_crypto ''/wallet/sign-transaction''
      (sign_body s (wl_derivation_path v) ?tx)) has_token 1 1 rs" for rs
    using that by (auto simp: rationed_def list_all_iff)
qed

lemma monitor_replacement:
  assumes "sr_tx_payload row = Some payload"
  shows "monitor_budget s v row 16 1 (signReplacement row s v
    (replacement_tx (sr_chain_id row) payload fees maxFee maxPriority))"
proof -
  have send: "traffic is_node_call (attempt (andThen (broadcastTransaction raw c)
      (\<lambda>b. lift_res (check_hashes b h)))) 15" for raw c h
    unfolding broadcastTransaction_def
    by (intro traffic_attempt traffic_then_silent traffic_node preserves_intros)
  have "monitor_budget s v row 15 0 (case signed of
       Inl err \<Rightarrow> sr_update (sr_id row)
          (failed_fields (''speed-up signing failed: '' @ error_message err) ''retryable'')
     | Inr result \<Rightarrow>
         andThen (attempt (andThen (broadcastTransaction (st_rawTx result) (sr_chain_id row))
            (\<lambda>broadcastHash. lift_res (check_hashes broadcastHash (st_txHash result))))) (\<lambda>sent.
         case sent of
           Inl err \<Rightarrow> sr_update (sr_id row)
              (failed_fields (''speed-up broadcast failed: '' @ error_message err) ''retryable'')
         | Inr txHash \<Rightarrow> andThen now (\<lambda>t. andThen now (\<lambda>t'.
              sr_update (sr_id row) (sped_up_fields row txHash t t')))))" for signed
    by (cases signed, simp, intro monitor_silent preserves_intros, simp,
        intro monitor_node traffic_then_silent send preserves_intros)
  then show ?thesis
    unfolding signReplacement_def
    by (intro emits_rationed_andThen [OF monitor_sign [OF assms], where c = 15 and l = 0]) simp_all
qed

lemma monitor_fail: "monitor_budget s v row 46 1 (sr_update i f)"
  by (intro monitor_silent preserves_intros)

lemma monitor_bump:
  assumes "sr_tx_payload row = Some payload"
  shows "monitor_budget s v row 46 1 (bumpAndReplace row payload v s)"
  unfolding bumpAndReplace_def
  using monitor_replacement [OF assms]
  by (intro emits_rationed_andThen [OF monitor_node [OF traffic_estimateFees], where c = 16 and l = 1]
      rationed_after_silent preserves_intros) (simp_all split: prod.splits)

lemma silent_sr_update: "preserves (silent rs) (sr_update i f)"
  by (intro preserves_intros)

text \<open>A speed-up that sends anything has found the wallet of the row and the seed of its organization.\<close>

lemma replaceWith_sends:
  assumes "sr_tx_payload row = Some payload" and "replaceWith row payload v w = (r, w')" and "w_sent w' \<noteq> w_sent w"
  shows "\<exists>s. s \<in> set (organization_seeds (w_sched w (w_stmts w) (w_db w))) \<and> sd_org_id s = wl_org_id v \<and>
    (\<exists>w1. bumpAndReplace row payload v s w1 = (r, w') \<and> w_sent w1 = w_sent w)"
proof -
  obtain x w1 where q: "seed_findByOrgId (wl_org_id v) w = (x, w1)" by fastforce
  have sent: "w_sent w1 = w_sent w"
    using preserves_runD [OF silent_query q [unfolded seed_findByOrgId_def], of "w_sent w"] by (simp add: silent_def)
  have fail: "w_sent w'' = w_sent w" if "sr_update i f w1 = (r'', w'')" for i f r'' w''
    using preserves_runD [OF silent_sr_update that, of "w_sent w"] sent by (simp add: silent_def)
  show ?thesis
  proof (cases x)
    case (Inl e)
    with q sent assms(2,3) show ?thesis by (auto simp: replaceWith_def andThen_def)
  next
    case (Inr found)
    show ?thesis
    proof (cases found)
      case None
      with q Inr fail assms(2,3) show ?thesis by (auto simp: replaceWith_def andThen_def)
    next
      case (Some s)
      with query_outcome [OF q [unfolded seed_findByOrgId_def Inr]] have
        "find_row (\<lambda>r. sd_org_id r = wl_org_id v) (organization_seeds (w_sched w (w_stmts w) (w_db w))) = Some s" by simp
      with find_row_Some have "s \<in> set (organization_seeds (w_sched w (w_stmts w) (w_db w))) \<and> sd_org_id s = wl_org_id v"
        by fastforce
      with q Inr Some sent assms(2) show ?thesis by (auto simp: replaceWith_def andThen_def)
    qed
  qed
qed

lemma replaceTx_sends:
  assumes "sr_tx_payload row = Some payload" and "replaceTx row payload w = (r, w')" and "w_sent w' \<noteq> w_sent w"
  shows "\<exists>s v w1. rows_of w row s v \<and> bumpAndReplace row payload v s w1 = (r, w') \<and> w_sent w1 = w_sent w"
proof -
  obtain x w1 where q: "wallet_findById (sr_wallet_id row) w = (x, w1)" by fastforce
  have sent: "w_sent w1 = w_sent w"
    using preserves_runD [OF silent_query q [unfolded wallet_findById_def], of "w_sent w"] by (simp add: silent_def)
  have fail: "w_sent w'' = w_sent w" if "sr_update i f w1 = (r'', w'')" for i f r'' w''
    using preserves_runD [OF silent_sr_update that, of "w_sent w"] sent by (simp add: silent_def)
  show ?thesis
  proof (cases x)
    case (Inl e)
    with q sent assms(2,3) show ?thesis by (auto simp: replaceTx_def andThen_def)
  next
    case (Inr found)
    show ?thesis
    proof (cases found)
      case None
      with q Inr fail assms(2,3) show ?thesis by (auto simp: replaceTx_def andThen_def)
    next
      case (Some v)
      note st = query_outcome [OF q [unfolded wallet_findById_def Inr]]
      with Some have "find_row (\<lambda>r. wl_id r = sr_wallet_id row) (wallets (w_sched w (w_stmts w) (w_db w))) = Some v" by simp
      with find_row_Some have v: "v \<in> set (wallets (w_sched w (w_stmts w) (w_db w))) \<and> wl_id v = sr_wallet_id row" by fastforce
      have run: "replaceWith row payload v w1 = (r, w')" using q Inr Some assms(2) by (simp add: replaceTx_def andThen_def)
      have "w_sent w' \<noteq> w_sent w1" using assms(3) sent by simp
      from replaceWith_sends [OF assms(1) run this] v st sent show ?thesis by (auto simp: rows_of_def)
    qed
  qed
qed

lemma speedUp_emits:
  assumes "speedUp row w = (r, w')"
  shows "\<exists>rs. w_sent w' = w_sent w @ rs \<and> (rs \<noteq> [] \<longrightarrow> (\<exists>s v. rows_of w row s v \<and>
    rationed (\<lambda>rq. is_node_call rq \<or> replaces s v row rq) has_token 46 1 rs))"
proof (cases "w_sent w' = w_sent w")
  case False
  obtain limit where limit: "setting ''MAX_SPEED_UP_ATTEMPTS'' ''3'' w = (Inr limit, w)"
    by (simp add: setting_def config_get_def run_defs)
  have fail: "w_sent w'' = w_sent w" if "sr_update i f w = (r'', w'')" for i f r'' w''
    using preserves_runD [OF silent_sr_update that, of "w_sent w"] by (simp add: silent_def)
  from assms limit False fail obtain payload where p: "sr_tx_payload row = Some payload" "replaceTx row payload w = (r, w')"
    by (auto simp: speedUp_def andThen_def split: if_splits option.splits)
  from replaceTx_sends [OF p False] obtain s v w1 where rows: "rows_of w row s v"
    and run: "bumpAndReplace row payload v s w1 = (r, w')" and sent: "w_sent w1 = w_sent w" by blast
  from emits_run [OF monitor_bump [OF p(1)] run] rows sent show ?thesis by metis
qed simp

end
