(* ===== verification/MonitorRuns.thy ===== *)
theory MonitorRuns
  imports Monitor SigningRuns
begin

text \<open>
  Properties of the monitor: what a replacement may ask of the signer, which rows a step
  touches, when a row becomes confirmed, the arithmetic of the fee bump, the bound on the
  attempts, and the isolation of the rows of a cycle.
\<close>

text \<open>
  C20. A replacement is the same transaction.  One speed-up sends at most 46 requests, at most
  one of them to the signer, and that one asks for the chain of the row and the nonce,
  recipient, value and data of its payload, with the seed that is stored for the organization of
  the wallet and the path of the stored wallet that the row names.
\<close>

theorem replacement_keeps_the_transaction:
  "\<exists>rs. w_sent (snd (speedUp row w)) = w_sent w @ rs \<and> length rs \<le> 46 \<and>
     length (filter has_token rs) \<le> 1 \<and>
     list_all (\<lambda>rq. (is_node_call rq \<and> \<not> has_token rq) \<or> (\<exists>s v. rows_of w row s v \<and> replaces s v row rq)) rs"
proof -
  obtain r w' where run: "speedUp row w = (r, w')" by fastforce
  from speedUp_emits [OF run] obtain rs where sent: "w_sent w' = w_sent w @ rs"
    and rs: "rs \<noteq> [] \<longrightarrow> (\<exists>s v. rows_of w row s v \<and>
      rationed (\<lambda>rq. is_node_call rq \<or> replaces s v row rq) has_token 46 1 rs)" by blast
  show ?thesis
  proof (cases "rs = []")
    case True
    with run sent show ?thesis by (intro exI [of _ "[]"]) simp
  next
    case False
    with rs obtain s v where "rows_of w row s v"
      "rationed (\<lambda>rq. is_node_call rq \<or> replaces s v row rq) has_token 46 1 rs" by blast
    with run sent show ?thesis
      by (intro exI [of _ rs]) (auto simp: rationed_def list_all_iff dest: node_call_no_token)
  qed
qed

text \<open>What a step leaves alone.\<close>

lemma processRow_confined:
  assumes "quiet w" and "processRow row w = (r, w')"
  shows "\<exists>rs. w_db w' = (w_db w)\<lparr>signing_requests := rs\<rparr> \<and>
    filter (\<lambda>x. sr_id x \<noteq> sr_id row) rs =
    filter (\<lambda>x. sr_id x \<noteq> sr_id row) (signing_requests (w_db w))"
proof -
  let ?J = "others_unchanged (sr_id row) (w_db w)"
  have "stable ?J w" using assms(1) by (intro quiet_stable) (simp_all add: others_unchanged_def)
  from stableD [OF preserves_runD [OF confined.processRow_stable [OF refl] assms(2) this]]
  have J: "?J (w_db w')" by simp
  then have "w_db w' = (w_db w)\<lparr>signing_requests := signing_requests (w_db w')\<rparr>"
    unfolding others_unchanged_def by (cases "w_db w'", cases "w_db w") simp
  with J show ?thesis unfolding others_unchanged_def by metis
qed

text \<open>
  A step of the monitor touches its own row only: in a quiet world the other requests, the
  nonce counters, the audit log and every other table are as before.
\<close>

theorem monitor_step_is_confined:
  assumes "quiet w" and "processRow row w = (r, w')"
  shows "\<exists>rs. w_db w' = (w_db w)\<lparr>signing_requests := rs\<rparr> \<and>
    filter (\<lambda>x. sr_id x \<noteq> sr_id row) rs =
    filter (\<lambda>x. sr_id x \<noteq> sr_id row) (signing_requests (w_db w))"
  using assms by (rule processRow_confined)

text \<open>
  C21. A row is confirmed by a receipt only: when a step of the monitor turns a row that was not
  confirmed into a confirmed one, a node returned a receipt with status 1 for its hash.
\<close>

theorem confirmed_only_by_receipt:
  assumes "quiet w" and "processRow row w = (r, w')"
    and "\<forall>x \<in> set (signing_requests (w_db w)). sr_id x = sr_id row \<longrightarrow> sr_status x \<noteq> ''confirmed''"
    and "request_row (sr_id row) (w_db w') = Some row'" and "sr_status row' = ''confirmed''"
  shows "\<exists>h receipt w1. sr_tx_hash row = Some h \<and>
    getTransactionReceipt h (sr_chain_id row) w = (Inr (Some receipt), w1) \<and> rc_status receipt = NInt 1"
proof (rule ccontr)
  assume no: "\<not> ?thesis"
  have ok: "f_status (sped_up_fields row h t t') \<in> {Val ''failed'', Val ''dropped'', Val ''broadcasted''}" for h t t'
    by (simp add: sped_up_fields_def)
  have fail: "preserves (stable (unconfirmed (sr_id row))) (sr_update (sr_id row) (failed_fields a b))" for a b
    by (rule unconfirmed.ok_update_stable) (rule unconfirmed.ok_failed)
  have st: "stable (unconfirmed (sr_id row)) w"
    using assms(1,3) by (intro quiet_stable) (simp_all add: unconfirmed_def)
  have "stable (unconfirmed (sr_id row)) w'"
  proof (cases "sr_tx_hash row = None \<or> sr_tx_hash row = Some []")
    case True
    with assms(2) preserves_runD [OF fail _ st] show ?thesis by (auto simp: processRow_def)
  next
    case False
    then obtain h where h: "sr_tx_hash row = Some h" "h \<noteq> []" by auto
    obtain x w1 where g: "getTransactionReceipt h (sr_chain_id row) w = (x, w1)" by fastforce
    have st1: "stable (unconfirmed (sr_id row)) w1" using preserves_runD [OF receipt_env(1) g st] .
    have run: "(case x of Inl err \<Rightarrow> ret () | Inr (Some r) \<Rightarrow> applyReceipt row r
         | Inr None \<Rightarrow> checkStuck row h) w1 = (r, w')"
      using assms(2) h g by (simp add: processRow_def andThen_def attempt_def)
    have "rc_status receipt \<noteq> NInt 1" if "x = Inr (Some receipt)" for receipt
      using no h(1) g that by blast
    then have "preserves (stable (unconfirmed (sr_id row))) (case x of Inl err \<Rightarrow> ret ()
         | Inr (Some r) \<Rightarrow> applyReceipt row r | Inr None \<Rightarrow> checkStuck row h)"
      by (auto simp: applyReceipt_def intro!: fail preserves_ret
          unconfirmed.checkStuck_stable [OF refl ok] split: sum.split option.split)
    from preserves_runD [OF this run st1] show ?thesis .
  qed
  then have "unconfirmed (sr_id row) (w_db w')" by (rule stableD)
  with assms(4,5) show False
    unfolding unconfirmed_def request_row_def by (blast dest: find_row_Some)
qed

text \<open>
  The fee bump rounds up: the bumped fee is the least integer that is at least the given
  percentage of the estimate, and with more than 100 percent a positive fee grows.
\<close>

theorem fee_bump_rounds_up:
  assumes "0 \<le> fee" and "0 \<le> percent"
  shows "fee * percent \<le> 100 * bumpFee percent fee \<and>
    100 * bumpFee percent fee < fee * percent + 100 \<and>
    (0 < fee \<and> 100 < percent \<longrightarrow> fee < bumpFee percent fee)"
proof -
  have nn: "0 \<le> fee * percent" using assms by simp
  then have b: "bumpFee percent fee = (fee * percent + 99) div 100"
    by (simp add: bumpFee_def bigint_div_def sgn_if)
  have "fee < (fee * percent + 99) div 100" if "0 < fee" "100 < percent"
  proof -
    define x where "x = fee * percent"
    have "fee * 101 \<le> x" using that unfolding x_def by (intro mult_left_mono) auto
    moreover have "(fee + 1) * 100 \<le> fee * 101 + 99" using that(1) by (simp add: algebra_simps)
    ultimately have "(fee + 1) * 100 \<le> x + 99" by simp
    from zdiv_mono1 [OF this, of 100] show ?thesis unfolding x_def [symmetric] by simp
  qed
  with b show ?thesis by auto
qed

theorem fee_bump_rounds_up_witness:
  "bumpFee 120 7 = 9 \<and> 7 * 120 \<le> 100 * bumpFee 120 7 \<and> 7 < bumpFee 120 7"
proof -
  have "bumpFee 120 7 = 9" by code_simp
  with fee_bump_rounds_up [of 7 120] show ?thesis by simp
qed

text \<open>
  Attempts are limited: a row that used up the configured number of speed-ups is marked
  failed for good and nothing is sent.
\<close>

theorem speed_ups_are_limited:
  assumes "quiet w" and "number_fraction (case w_env w ''MAX_SPEED_UP_ATTEMPTS'' of None \<Rightarrow> ''3'' | Some s \<Rightarrow> s)
      = Some (n, d)"
    and "n \<le> sr_speed_up_attempts row * d" and "request_row (sr_id row) (w_db w) = Some cur"
  shows "\<exists>w'. speedUp row w = (Inr (), w') \<and> w_sent w' = w_sent w \<and>
    request_row (sr_id row) (w_db w') = Some (cur\<lparr>sr_status := ''failed'',
      sr_failure_reason := Some ''max speed-up attempts reached'', sr_error_type := Some ''permanent''\<rparr>)"
  using assms
  by (simp add: speedUp_def setting_def config_get_def andThen_def ret_run budget_spent_def
      sr_update_quiet sr_set_failed)

theorem speed_ups_are_limited_witness:
  "\<exists>w'. speedUp ((sample_row ''broadcasted'')\<lparr>sr_speed_up_attempts := 3\<rparr>) (sample_world ''broadcasted'' sample_net) =
    (Inr (), w') \<and> w_sent w' = []"
proof -
  have n: "number_fraction (case sample_env ''MAX_SPEED_UP_ATTEMPTS'' of None \<Rightarrow> ''3'' | Some s \<Rightarrow> s) = Some (3, 1)"
    by code_simp
  have i: "sr_id ((sample_row st)\<lparr>sr_speed_up_attempts := k\<rparr>) = ''r''" for st k by (simp add: sample_row_def)
  show ?thesis
    using speed_ups_are_limited [of "sample_world ''broadcasted'' sample_net" 3 1
        "(sample_row ''broadcasted'')\<lparr>sr_speed_up_attempts := 3\<rparr>" "sample_row ''broadcasted''"] n
    by (simp add: i) blast
qed

text \<open>Neither a list of rows nor a whole cycle raises.\<close>

lemma pollRows_run: "pollRows (row # rows) w = pollRows rows (snd (processRow row w))"
  by (cases "processRow row w"; cases "fst (processRow row w)") (auto simp: run_defs)

lemma pollRows_returns: "fst (pollRows rows w) = Inr ()"
proof (induction rows arbitrary: w)
  case Nil
  show ?case by (simp add: ret_run)
next
  case (Cons row rows)
  then show ?case by (simp only: pollRows_run)
qed

lemma runPoll_returns: "fst (runPoll w) = Inr ()"
proof -
  have "fst (poll w) = Inr ()"
    using pollRows_returns by (cases "sr_findBroadcasted w"; cases "fst (sr_findBroadcasted w)")
      (auto simp: poll_def run_defs)
  then show ?thesis by (cases "poll w") (auto simp: runPoll_def catch_def)
qed

text \<open>
  A cycle isolates its rows and never raises: an exception in one row only ends the work on
  that row, the next one is processed in the state it left, and so to the end.
\<close>

theorem cycle_isolates_rows:
  "fst (runPoll w) = Inr () \<and>
   pollRows (row # rows) w = pollRows rows (snd (processRow row w))"
  by (intro conjI runPoll_returns pollRows_run)

text \<open>
  The witness for the confirmation: a network that reports a receipt with status 1.
\<close>

definition receipt_net :: "nat \<Rightarrow> http_request \<Rightarrow> net_result" where
  "receipt_net n rq = NetResponse 200 ''OK'' (BodyJson [] (JObj [(''result'',
     JObj [(''status'', JStr ''0x1''), (''blockNumber'', JStr ''0x10''), (''gasUsed'', JStr ''0x5208'')])]))"

definition sent_row :: signing_request where
  "sent_row = (sample_row ''broadcasted'')\<lparr>sr_tx_hash := Some ''0xh''\<rparr>"

definition sent_world :: world where
  "sent_world = calm_world (sample_db [] [sent_row]) receipt_net sample_env 7"

lemma sent_world_simps [simp]:
  "quiet sent_world" "signing_requests (w_db sent_world) = [sent_row]" "w_net sent_world = receipt_net"
  "w_env sent_world = sample_env" "sr_id sent_row = ''r''" "sr_tx_hash sent_row = Some ''0xh''"
  "sr_chain_id sent_row = 1" "sr_status sent_row = ''broadcasted''"
  by (simp_all add: sent_world_def calm_world_def sample_db_def empty_db_def quiet_def sent_row_def
      sample_row_def)

theorem confirmed_only_by_receipt_witness:
  "\<exists>row'. request_row ''r'' (w_db (snd (processRow sent_row sent_world))) = Some row' \<and>
     sr_status row' = ''confirmed'' \<and>
     (\<exists>receipt w1. getTransactionReceipt ''0xh'' 1 sent_world = (Inr (Some receipt), w1) \<and>
        rc_status receipt = NInt 1)"
proof -
  obtain ch where ch: "map_of (chains sample_env) 1 = Some ch" "cc_rpcUrls ch = [''node'']"
    using sample_chain by blast
  define raw where "raw = JObj [(''status'', JStr ''0x1''), (''blockNumber'', JStr ''0x10''), (''gasUsed'', JStr ''0x5208'')]"
  have "rpc_reply meth (receipt_net n rq) = Inr (Some raw)" for meth n rq
    by (simp add: rpc_reply_def receipt_net_def raw_def)
  then obtain w1 where g: "getTransactionReceipt ''0xh'' 1 sent_world = (Inr (Some (receipt_of_raw raw)), w1)"
    and w1: "quiet w1" "w_db w1 = w_db sent_world"
    using ch rpc_first_provider [of sent_world 1 ch "''node''" "[]"]
    by (simp add: getTransactionReceipt_def andThen_def raw_def ret_run)
  have s: "rc_status (receipt_of_raw raw) = NInt 1" "rc_blockNumber (receipt_of_raw raw) = NInt 16"
    unfolding raw_def by code_simp+
  obtain r w' where run: "processRow sent_row sent_world = (r, w')" by fastforce
  then have "\<exists>row'. request_row ''r'' (w_db w') = Some row' \<and> sr_status row' = ''confirmed''"
    using g s w1
    by (auto simp: processRow_def andThen_def attempt_def applyReceipt_def now_def sr_update_def
        stmt_quiet confirmed_fields_def int4_ok_def request_row_def find_row_map_row_same sr_set_def)
  then obtain row' where row': "request_row (sr_id sent_row) (w_db w') = Some row'" "sr_status row' = ''confirmed''"
    by auto
  from confirmed_only_by_receipt [OF _ run _ row'] run row' show ?thesis by auto
qed

theorem monitor_step_is_confined_witness:
  "wallet_nonces (w_db (snd (processRow sent_row sent_world))) = wallet_nonces (w_db sent_world)"
proof -
  obtain r w' where run: "processRow sent_row sent_world = (r, w')" by fastforce
  from monitor_step_is_confined [OF _ this] obtain rs
    where "w_db w' = (w_db sent_world)\<lparr>signing_requests := rs\<rparr>" by auto
  with run show ?thesis by simp
qed

text \<open>A replacement that goes out.\<close>

lemma signReplacement_sent:
  fixes w :: world and row s v tx u k
  defines "sign_rq \<equiv> crypto_request u k ''/wallet/sign-transaction'' (sign_body s (wl_derivation_path v) tx)"
  assumes "quiet w" and "w_env w ''CRYPTO_SERVICE_URL'' = Some u" and "w_env w ''CRYPTO_AUTH_TOKEN'' = Some k"
    and "crypto_reply ''/wallet/sign-transaction'' (w_net w (length (w_sent w)) sign_rq) = Inr j"
    and "reply_prop ''txHash'' j = Some hash" and "reply_prop ''rawTx'' j = Some raw"
    and "map_of (chains (w_env w)) (sr_chain_id row) = Some ch" and "cc_rpcUrls ch = p # ps"
    and "rpc_reply ''eth_sendRawTransaction'' (w_net w (Suc (length (w_sent w)))
      (rpc_request p ''eth_sendRawTransaction'' [JStr raw])) = Inr (Some (JStr b))"
    and "request_row (sr_id row) (w_db w) = Some cur" and "sr_tx_hash row = Some old"
  shows "\<exists>w' t t'. signReplacement row s v tx w = (Inr (), w') \<and>
    w_sent w' = w_sent w @ [sign_rq, rpc_request p ''eth_sendRawTransaction'' [JStr raw]] \<and>
    request_row (sr_id row) (w_db w') = Some (cur\<lparr>sr_tx_hash := Some hash,
      sr_original_tx_hash := Some (case sr_original_tx_hash row of None \<Rightarrow> old | Some h \<Rightarrow> h),
      sr_speed_up_attempts := sr_speed_up_attempts row + 1, sr_last_speed_up_at := Some t,
      sr_broadcasted_at := Some t', sr_status := ''broadcasted''\<rparr>)"
proof -
  let ?signed = "\<lparr>st_signature = reply_prop ''signature'' j, st_txHash = Some hash, st_rawTx = Some raw\<rparr>"
  define w1 where "w1 = w\<lparr>w_sent := w_sent w @ [sign_rq]\<rparr>"
  define w2 where "w2 = w1\<lparr>w_sent := w_sent w1 @ [rpc_request p ''eth_sendRawTransaction'' [JStr raw]]\<rparr>"
  define w3 where "w3 = w2\<lparr>w_reads := Suc (Suc (w_reads w2))\<rparr>"
  define f where "f = sped_up_fields row hash (w_clock w (w_reads w)) (w_clock w (Suc (w_reads w)))"
  have j: "j \<noteq> JNull" using assms(6) by (auto simp: reply_prop_def)
  have 1: "crypto_signTransaction s (wl_derivation_path v) tx w = (Inr ?signed, w1)"
    using sign_run(2) [of w u k s "wl_derivation_path v" tx j] assms(3-7) j
    by (simp add: w1_def assms(1))
  have 2: "broadcastTransaction (Some raw) (sr_chain_id row) w1 = (Inr (Some (JStr b)), w2)"
    using rpc_first_provider [of w1 "sr_chain_id row" ch p ps "''eth_sendRawTransaction''" "[JStr raw]"]
      assms(8-10) by (simp add: broadcastTransaction_def w2_def) (simp add: w1_def)
  have q: "quiet w3" using assms(2) by (simp add: w3_def w2_def w1_def)
  have 3: "sr_update (sr_id row) f w3 = (Inr (), (tick w3)\<lparr>w_db := signing_requests_update
      (map_row (\<lambda>r. sr_id r = sr_id row) (sr_set f Undefined)) (w_db w3)\<rparr>)"
    by (rule sr_update_quiet [OF q]) (simp add: f_def sped_up_fields_def no_fields_def)
  have clock: "w_clock w2 = w_clock w" "w_reads w2 = w_reads w" by (simp_all add: w2_def w1_def)
  have run: "signReplacement row s v tx w = sr_update (sr_id row) f w3"
    using 1 2 by (simp add: signReplacement_def andThen_def attempt_def lift_res_run check_hashes_def
        now_def clock f_def w3_def)
  have db: "w_db w3 = w_db w" by (simp add: w3_def w2_def w1_def)
  have "sr_set f Undefined cur = cur\<lparr>sr_tx_hash := Some hash,
      sr_original_tx_hash := Some (case sr_original_tx_hash row of None \<Rightarrow> old | Some h \<Rightarrow> h),
      sr_speed_up_attempts := sr_speed_up_attempts row + 1,
      sr_last_speed_up_at := Some (w_clock w (w_reads w)),
      sr_broadcasted_at := Some (w_clock w (Suc (w_reads w))), sr_status := ''broadcasted''\<rparr>"
    using assms(12) by (simp add: f_def sr_set_def sped_up_fields_def no_fields_def or_null_def split: option.split)
  moreover have "w_sent w3 = w_sent w @ [sign_rq, rpc_request p ''eth_sendRawTransaction'' [JStr raw]]"
    by (simp add: w3_def w2_def w1_def)
  ultimately show ?thesis
    using run 3 db assms(11) by (simp add: request_row_def find_row_map_row_same) blast
qed

text \<open>
  C33. A replacement that goes out: the row gets the new hash, keeps the very first hash as the
  original one, counts one more attempt and stays broadcasted; the columns of a confirmation,
  which the source passes as undefined to clear them, keep what they hold.
\<close>

theorem replacement_updates_the_row:
  fixes w :: world and row s v tx u k
  defines "sign_rq \<equiv> crypto_request u k ''/wallet/sign-transaction'' (sign_body s (wl_derivation_path v) tx)"
  assumes "quiet w" and "w_env w ''CRYPTO_SERVICE_URL'' = Some u" and "w_env w ''CRYPTO_AUTH_TOKEN'' = Some k"
    and "crypto_reply ''/wallet/sign-transaction'' (w_net w (length (w_sent w)) sign_rq) = Inr j"
    and "reply_prop ''txHash'' j = Some hash" and "reply_prop ''rawTx'' j = Some raw"
    and "map_of (chains (w_env w)) (sr_chain_id row) = Some ch" and "cc_rpcUrls ch = p # ps"
    and "rpc_reply ''eth_sendRawTransaction'' (w_net w (Suc (length (w_sent w)))
      (rpc_request p ''eth_sendRawTransaction'' [JStr raw])) = Inr (Some (JStr b))"
    and "request_row (sr_id row) (w_db w) = Some cur" and "sr_tx_hash row = Some old"
  shows "\<exists>w' t t'. signReplacement row s v tx w = (Inr (), w') \<and>
    w_sent w' = w_sent w @ [sign_rq, rpc_request p ''eth_sendRawTransaction'' [JStr raw]] \<and>
    request_row (sr_id row) (w_db w') = Some (cur\<lparr>sr_tx_hash := Some hash,
      sr_original_tx_hash := Some (case sr_original_tx_hash row of None \<Rightarrow> old | Some h \<Rightarrow> h),
      sr_speed_up_attempts := sr_speed_up_attempts row + 1, sr_last_speed_up_at := Some t,
      sr_broadcasted_at := Some t', sr_status := ''broadcasted''\<rparr>)"
  using assms(2-12) unfolding assms(1) by (rule signReplacement_sent)

theorem replacement_updates_the_row_witness:
  "\<exists>w' t t'. signReplacement sent_row sample_seed sample_wallet (tx_fields_of sample_request sample_fees 0)
      (calm_world (sample_db [] [sent_row]) sample_net sample_env 7) = (Inr (), w') \<and>
    request_row ''r'' (w_db w') = Some (sent_row\<lparr>sr_tx_hash := Some ''0xh'', sr_original_tx_hash := Some ''0xh'',
      sr_speed_up_attempts := 1, sr_last_speed_up_at := Some t, sr_broadcasted_at := Some t',
      sr_status := ''broadcasted''\<rparr>)"
proof -
  let ?w = "calm_world (sample_db [] [sent_row]) sample_net sample_env 7"
  obtain ch where ch: "map_of (chains sample_env) 1 = Some ch" "cc_rpcUrls ch = [''node'']"
    using sample_chain by blast
  have w: "quiet ?w" "w_net ?w = sample_net" "w_env ?w = sample_env" "w_sent ?w = []"
    "request_row ''r'' (w_db ?w) = Some sent_row"
    by (simp_all add: calm_world_def quiet_def request_row_def sample_db_def)
  have s: "crypto_reply ''/wallet/sign-transaction'' (sample_net m (crypto_request ''sign'' ''token''
      ''/wallet/sign-transaction'' b)) = Inr sample_reply" for m b
    by (simp add: crypto_reply_def sample_net_def crypto_request_def)
  have r: "rpc_reply meth (sample_net m (rpc_request ''node'' meth ps)) = Inr (Some (JStr ''0xh''))" for m meth ps
    by (simp add: rpc_reply_def sample_net_def rpc_request_def)
  have f: "reply_prop ''txHash'' sample_reply = Some ''0xh''" "reply_prop ''rawTx'' sample_reply = Some ''0xr''"
    by (simp_all add: reply_prop_def sample_reply_def)
  have row: "sr_original_tx_hash sent_row = None" "sr_speed_up_attempts sent_row = 0"
    by (simp_all add: sent_row_def sample_row_def)
  from replacement_updates_the_row [of ?w "''sign''" "''token''" sample_seed sample_wallet
      "tx_fields_of sample_request sample_fees 0" sample_reply "''0xh''" "''0xr''" sent_row ch "''node''" "[]"
      "''0xh''" sent_row "''0xh''"]
  show ?thesis by (simp add: w s r f ch row) blast
qed

end
