(* ===== verification/MonitorCycle.thy ===== *)
theory MonitorCycle
  imports MonitorRuns
begin

text \<open>
  Whole cycles of the monitor: what a cycle does to the statuses, as a refinement of the
  abstract life of a signing request, and that a cycle settles the rows for which a node
  has a receipt.
\<close>

section \<open>Steps keep the environment\<close>

lemma same_env_quiet: "same_env w w' \<Longrightarrow> quiet w \<Longrightarrow> quiet w'"
  by (simp add: same_env_def quiet_def)

lemma processRow_same_env [preserves_intros]: "preserves (same_env w0) (processRow row)"
  unfolding processRow_def applyReceipt_def checkStuck_def speedUp_defs wallet_findById_def
    seed_findByOrgId_def broadcastTransaction_def getTransactionReceipt_def getTransactionByHash_def Let_def
  by (intro preserves_intros)

section \<open>The life of a request\<close>

text \<open>The statuses of a row, and the steps that the source lets it take.\<close>

inductive lifecycle :: "string \<Rightarrow> string \<Rightarrow> bool" where
  sign: "lifecycle ''pending'' ''signed''"
| send: "lifecycle ''signed'' ''broadcasted''"
| give_up: "st \<in> {''pending'', ''signed'', ''broadcasted''} \<Longrightarrow> lifecycle st ''failed''"
| retry: "lifecycle ''failed'' ''pending''"
| confirm: "lifecycle ''broadcasted'' ''confirmed''"
| vanish: "lifecycle ''broadcasted'' ''dropped''"
| replace: "lifecycle ''broadcasted'' ''broadcasted''"

inductive_cases lifecycle_from_broadcasted: "lifecycle ''broadcasted'' st"

text \<open>A row that is confirmed or dropped stays as it is.\<close>

lemma lifecycle_ends: "lifecycle st st' \<Longrightarrow> st \<notin> {''confirmed'', ''dropped''}"
  by (auto elim: lifecycle.cases)

text \<open>What one cycle may do to a row: nothing, or one step of a broadcasted one.\<close>

definition advances :: "signing_request \<Rightarrow> signing_request \<Rightarrow> bool" where
  "advances r r' \<longleftrightarrow> r' = r \<or> (sr_id r' = sr_id r \<and> sr_status r = ''broadcasted'' \<and>
     lifecycle (sr_status r) (sr_status r'))"

definition advanced :: "string \<Rightarrow> signing_request list \<Rightarrow> db \<Rightarrow> bool" where
  "advanced i rs d \<longleftrightarrow> (\<forall>r \<in> set rs. sr_id r = i \<longrightarrow> sr_status r = ''broadcasted'') \<and>
     list_all2 advances rs (signing_requests d)"

definition monitor_status :: "sr_fields \<Rightarrow> bool" where
  "monitor_status f \<longleftrightarrow> f_status f \<in> {Val ''failed'', Val ''dropped'', Val ''broadcasted'', Val ''confirmed''}"

lemma advances_update:
  assumes "advances r r'" and "sr_id r' = i \<Longrightarrow> sr_status r = ''broadcasted''" and "monitor_status f"
  shows "advances r (if sr_id r' = i then sr_set f blk r' else r')"
proof (cases "sr_id r' = i")
  case True
  have "lifecycle ''broadcasted'' (sr_status (sr_set f blk r'))"
    using assms(3) by (auto simp: monitor_status_def sr_set_def intro: lifecycle.intros)
  with True assms show ?thesis by (auto simp: advances_def)
qed (use assms(1) in simp)

lemma advanced_update:
  assumes "list_all2 advances rs xs" and "\<forall>r \<in> set rs. sr_id r = i \<longrightarrow> sr_status r = ''broadcasted''"
    and "monitor_status f"
  shows "list_all2 advances rs (map_row (\<lambda>r. sr_id r = i) (sr_set f blk) xs)"
  using assms(1,2)
proof (induction rule: list_all2_induct)
  case (Cons r rs x xs)
  then have "sr_id x = sr_id r" by (auto simp: advances_def)
  with Cons assms(3) show ?case using advances_update [of r x i f blk] by simp
qed simp

interpretation advancing: own_row "advanced i rs" i monitor_status for i rs
proof unfold_locales
  fix d f blk
  assume "advanced i rs d" and "monitor_status f"
  then show "advanced i rs (signing_requests_update (map_row (\<lambda>r. sr_id r = i) (sr_set f blk)) d)"
    using advanced_update by (simp add: advanced_def)
qed (simp_all add: monitor_status_def failed_fields_def dropped_fields_def)

lemma processRow_advances:
  assumes "quiet w" and "\<forall>r \<in> set rs. sr_id r = sr_id row \<longrightarrow> sr_status r = ''broadcasted''"
    and "list_all2 advances rs (signing_requests (w_db w))" and "processRow row w = (r, w')"
  shows "list_all2 advances rs (signing_requests (w_db w')) \<and> quiet w'"
proof -
  have "stable (advanced (sr_id row) rs) w"
    using assms(1-3) by (intro quiet_stable) (simp_all add: advanced_def)
  moreover have "monitor_status (sped_up_fields row h t t')" "monitor_status (confirmed_fields rc t)" for h t t' rc
    by (simp_all add: monitor_status_def sped_up_fields_def confirmed_fields_def)
  ultimately have "stable (advanced (sr_id row) rs) w'"
    using preserves_runD [OF advancing.processRow_stable [OF refl] assms(4)] by blast
  moreover have "quiet w'"
    using same_env_quiet [OF preserves_runD [OF processRow_same_env assms(4) same_env_refl] assms(1)] .
  ultimately show ?thesis by (simp add: stable_def advanced_def)
qed

lemma pollRows_advances:
  assumes "quiet w" and "\<forall>row \<in> set rows. \<forall>r \<in> set rs. sr_id r = sr_id row \<longrightarrow> sr_status r = ''broadcasted''"
    and "list_all2 advances rs (signing_requests (w_db w))"
  shows "list_all2 advances rs (signing_requests (w_db (snd (pollRows rows w))))"
  using assms
proof (induction rows arbitrary: w)
  case (Cons row rows)
  obtain r w' where p: "processRow row w = (r, w')" by fastforce
  have "list_all2 advances rs (signing_requests (w_db w')) \<and> quiet w'"
    using Cons.prems(2) by (intro processRow_advances [OF Cons.prems(1) _ Cons.prems(3) p]) simp
  then have "list_all2 advances rs (signing_requests (w_db (snd (pollRows rows w'))))"
    using Cons.prems(2) by (intro Cons.IH) simp_all
  with p show ?case unfolding pollRows_run by simp
qed (simp add: ret_run)

lemma set_order_by_broadcasted_at [simp]: "set (order_by_broadcasted_at rs) = set rs"
  by (auto simp: order_by_broadcasted_at_def)

lemma runPoll_quiet:
  assumes "quiet w"
  shows "snd (runPoll w) = snd (pollRows (order_by_broadcasted_at
    (filter (\<lambda>r. sr_status r = ''broadcasted'') (signing_requests (w_db w)))) (tick w))"
  using assms by (simp add: runPoll_def poll_def sr_findBroadcasted_def andThen_def attempt_def query_quiet
      catch_def ret_run split: prod.split sum.split)

text \<open>
  C10. A cycle refines the life of the requests.  Undisturbed, one cycle of the monitor
  keeps the rows and their order; a row that is not broadcasted is left exactly as it is,
  and a broadcasted one is left as it is or takes a step of its life cycle: it is
  confirmed, fails, is dropped, or is replaced and broadcasted again.
\<close>

theorem cycle_refines_lifecycle:
  assumes "quiet w" and "distinct (map sr_id (signing_requests (w_db w)))"
  shows "list_all2 (\<lambda>r r'. r' = r \<or> (sr_id r' = sr_id r \<and> sr_status r = ''broadcasted'' \<and>
      lifecycle (sr_status r) (sr_status r')))
    (signing_requests (w_db w)) (signing_requests (w_db (snd (runPoll w))))"
proof -
  let ?rs = "signing_requests (w_db w)"
  have "\<forall>row \<in> set (filter (\<lambda>r. sr_status r = ''broadcasted'') ?rs). \<forall>r \<in> set ?rs.
      sr_id r = sr_id row \<longrightarrow> sr_status r = ''broadcasted''"
  proof (intro ballI impI)
    fix row r
    assume "row \<in> set (filter (\<lambda>r. sr_status r = ''broadcasted'') ?rs)" and "r \<in> set ?rs" and "sr_id r = sr_id row"
    moreover from this have "find_row (\<lambda>x. sr_id x = sr_id r) ?rs = Some row"
      using distinct_find_row [OF assms(2), of row] by simp
    ultimately show "sr_status r = ''broadcasted''" using distinct_find_row [OF assms(2), of r] by simp
  qed
  moreover have "list_all2 advances ?rs ?rs" by (simp add: list_all2_refl advances_def)
  ultimately have "list_all2 advances ?rs (signing_requests (w_db (snd (runPoll w))))"
    unfolding runPoll_quiet [OF assms(1)] using assms(1) by (intro pollRows_advances) simp_all
  then show ?thesis by (simp add: advances_def [abs_def])
qed

theorem cycle_refines_lifecycle_witness:
  "\<exists>row'. signing_requests (w_db (snd (runPoll sent_world))) = [row'] \<and>
     (row' = sent_row \<or> lifecycle ''broadcasted'' (sr_status row'))"
  using cycle_refines_lifecycle [of sent_world] by (auto simp: list_all2_Cons1)

section \<open>A cycle settles what is mined\<close>

lemma find_row_filter: "(\<And>r. p r \<Longrightarrow> q r) \<Longrightarrow> find_row p (filter q rs) = find_row p rs"
  by (induction rs) auto

lemma processRow_other:
  assumes "quiet w" and "sr_id row \<noteq> i" and "processRow row w = (r, w')"
  shows "request_row i (w_db w') = request_row i (w_db w) \<and> quiet w' \<and> w_env w' = w_env w \<and> w_net w' = w_net w"
proof -
  from processRow_confined [OF assms(1,3)] obtain rs where db: "w_db w' = (w_db w)\<lparr>signing_requests := rs\<rparr>"
    and f: "filter (\<lambda>x. sr_id x \<noteq> sr_id row) rs = filter (\<lambda>x. sr_id x \<noteq> sr_id row) (signing_requests (w_db w))"
    by blast
  have "find_row (\<lambda>x. sr_id x = i) xs = find_row (\<lambda>x. sr_id x = i) (filter (\<lambda>x. sr_id x \<noteq> sr_id row) xs)" for xs
    using assms(2) by (intro find_row_filter [symmetric]) simp
  from this [of rs] this [of "signing_requests (w_db w)"]
  have "request_row i (w_db w') = request_row i (w_db w)" by (simp only: request_row_def db f) simp
  moreover have "same_env w w'" using preserves_runD [OF processRow_same_env assms(3) same_env_refl] .
  ultimately show ?thesis using same_env_quiet assms(1) by (simp add: same_env_def quiet_def)
qed

lemma pollRows_others:
  assumes "quiet w" and "\<forall>r \<in> set rows. sr_id r \<noteq> i"
  shows "request_row i (w_db (snd (pollRows rows w))) = request_row i (w_db w)"
  using assms
proof (induction rows arbitrary: w)
  case (Cons row rows)
  obtain r w' where p: "processRow row w = (r, w')" by fastforce
  from processRow_other [OF Cons.prems(1) _ p, of i] Cons.prems(2)
  have "request_row i (w_db w') = request_row i (w_db w)" "quiet w'" by simp_all
  with Cons.IH [of w'] Cons.prems(2) p show ?case unfolding pollRows_run by simp
qed (simp add: ret_run)

text \<open>The first provider of the chain answers every question for the receipt with the same one.\<close>

definition mined :: "world \<Rightarrow> int \<Rightarrow> string \<Rightarrow> json \<Rightarrow> bool" where
  "mined w c h raw \<longleftrightarrow> (\<exists>ch p ps. map_of (chains (w_env w)) c = Some ch \<and> cc_rpcUrls ch = p # ps \<and>
     (\<forall>n. rpc_reply ''eth_getTransactionReceipt''
        (w_net w n (rpc_request p ''eth_getTransactionReceipt'' [JStr h])) = Inr (Some raw)))"

definition settled :: "signing_request \<Rightarrow> int \<Rightarrow> signing_request \<Rightarrow> bool" where
  "settled row b row' \<longleftrightarrow> sr_status row' = ''confirmed'' \<and> sr_block_number row' = Some b \<and>
     sr_confirmed_at row' \<noteq> None \<and> sr_tx_hash row' = sr_tx_hash row \<and> sr_id row' = sr_id row"

lemma processRow_confirms:
  assumes "quiet w" and "sr_tx_hash row = Some h" and "h \<noteq> []" and "mined w (sr_chain_id row) h raw"
    and "js_truthy (Some raw)" and "rc_status (receipt_of_raw raw) = NInt 1"
    and "rc_blockNumber (receipt_of_raw raw) = NInt b" and "int4_ok b"
    and "request_row (sr_id row) (w_db w) = Some row" and "processRow row w = (r, w')"
  shows "\<exists>row'. request_row (sr_id row) (w_db w') = Some row' \<and> settled row b row'"
proof -
  from assms(4) obtain ch p ps where *: "map_of (chains (w_env w)) (sr_chain_id row) = Some ch" "cc_rpcUrls ch = p # ps"
    "rpc_reply ''eth_getTransactionReceipt'' (w_net w (length (w_sent w))
       (rpc_request p ''eth_getTransactionReceipt'' [JStr h])) = Inr (Some raw)" unfolding mined_def by blast
  define w1 where "w1 = w\<lparr>w_sent := w_sent w @ [rpc_request p ''eth_getTransactionReceipt'' [JStr h]]\<rparr>"
  define f where "f = confirmed_fields (receipt_of_raw raw) (w_clock w1 (w_reads w1))"
  have "getTransactionReceipt h (sr_chain_id row) w = (Inr (Some (receipt_of_raw raw)), w1)"
    using rpc_first_provider [OF *] assms(5) by (simp add: getTransactionReceipt_def andThen_def ret_run w1_def)
  then have run: "processRow row w = sr_update (sr_id row) f (w1\<lparr>w_reads := Suc (w_reads w1)\<rparr>)"
    using assms(2,3,6) by (simp add: processRow_def andThen_def attempt_def applyReceipt_def now_def f_def)
  have "f_block_number f = Val (NInt b)" using assms(7) by (simp add: f_def confirmed_fields_def)
  moreover have "quiet (w1\<lparr>w_reads := Suc (w_reads w1)\<rparr>)" "w_db w1 = w_db w" using assms(1) by (simp_all add: w1_def)
  ultimately have "signing_requests (w_db w') =
      map_row (\<lambda>x. sr_id x = sr_id row) (sr_set f (Val b)) (signing_requests (w_db w))"
    using run assms(8,10) by (auto simp: sr_update_def stmt_quiet)
  then have "request_row (sr_id row) (w_db w') = Some (sr_set f (Val b) row)"
    using assms(9) by (simp add: request_row_def find_row_map_row_same)
  then show ?thesis by (simp add: settled_def f_def confirmed_fields_def sr_set_def no_fields_def)
qed

lemma pollRows_confirms:
  assumes "quiet w" and "distinct (map sr_id rows)" and "row \<in> set rows"
    and "request_row (sr_id row) (w_db w) = Some row" and "sr_tx_hash row = Some h" and "h \<noteq> []"
    and "mined w (sr_chain_id row) h raw"
    and "js_truthy (Some raw)" "rc_status (receipt_of_raw raw) = NInt 1"
    "rc_blockNumber (receipt_of_raw raw) = NInt b" "int4_ok b"
  shows "\<exists>row'. request_row (sr_id row) (w_db (snd (pollRows rows w))) = Some row' \<and> settled row b row'"
  using assms(1-4,7)
proof (induction rows arbitrary: w)
  case (Cons x rows)
  obtain r w' where p: "processRow x w = (r, w')" by fastforce
  show ?case
  proof (cases "x = row")
    case True
    from processRow_confirms [OF Cons.prems(1) assms(5,6) Cons.prems(5) assms(8-11) Cons.prems(4)] True p
    have "\<exists>row'. request_row (sr_id row) (w_db w') = Some row' \<and> settled row b row'" by blast
    moreover have "quiet w'"
      using same_env_quiet [OF preserves_runD [OF processRow_same_env p same_env_refl] Cons.prems(1)] .
    moreover have "\<forall>r \<in> set rows. sr_id r \<noteq> sr_id row" using Cons.prems(2) True by (auto simp: rev_image_eqI)
    ultimately show ?thesis using p unfolding pollRows_run by (simp add: pollRows_others)
  next
    case False
    with Cons.prems(2,3) have "row \<in> set rows" "sr_id x \<noteq> sr_id row" by auto
    with processRow_other [OF Cons.prems(1) this(2) p] Cons.IH [of w'] Cons.prems p
    show ?thesis unfolding pollRows_run by (simp add: mined_def)
  qed
qed simp

lemma distinct_order_by_broadcasted_at:
  "distinct (map sr_id rs) \<Longrightarrow> distinct (map sr_id (order_by_broadcasted_at rs))"
proof -
  have "distinct rs \<Longrightarrow> distinct (order_by_broadcasted_at rs)" by (auto simp: order_by_broadcasted_at_def)
  then show "distinct (map sr_id rs) \<Longrightarrow> distinct (map sr_id (order_by_broadcasted_at rs))"
    unfolding distinct_map set_order_by_broadcasted_at by blast
qed

lemma cycle_settles:
  assumes "quiet w" and "distinct (map sr_id (signing_requests (w_db w)))"
    and "row \<in> set (signing_requests (w_db w))" and "sr_status row = ''broadcasted''"
    and "sr_tx_hash row = Some h" and "h \<noteq> []" and "mined w (sr_chain_id row) h raw"
    and "js_truthy (Some raw)" and "rc_status (receipt_of_raw raw) = NInt 1"
    and "rc_blockNumber (receipt_of_raw raw) = NInt b" and "int4_ok b"
  shows "\<exists>row'. request_row (sr_id row) (w_db (snd (runPoll w))) = Some row' \<and> settled row b row'"
proof -
  let ?rows = "order_by_broadcasted_at (filter (\<lambda>r. sr_status r = ''broadcasted'') (signing_requests (w_db w)))"
  have "distinct (map sr_id ?rows)"
    using assms(2) by (intro distinct_order_by_broadcasted_at distinct_map_filter)
  moreover have "row \<in> set ?rows" using assms(3,4) by simp
  moreover have "request_row (sr_id row) (w_db (tick w)) = Some row"
    using distinct_find_row [OF assms(2,3)] by (simp add: request_row_def)
  moreover have "quiet (tick w)" "mined (tick w) (sr_chain_id row) h raw" using assms(1,7) by (simp_all add: mined_def)
  ultimately show ?thesis
    unfolding runPoll_quiet [OF assms(1)] using assms(5,6,8-11) by (intro pollRows_confirms)
qed

section \<open>Invariants over cycles\<close>

text \<open>
  A property \<open>A\<close> of the database for which the row in hand may be counted separately: \<open>W i\<close>
  holds while the monitor works on the row \<open>i\<close>, whatever it writes but the payload.
\<close>

locale cycle_invariant =
  fixes A :: "db \<Rightarrow> bool" and W :: "string \<Rightarrow> db \<Rightarrow> bool"
  assumes identified: "A d \<Longrightarrow> distinct (map sr_id (signing_requests d))"
    and taken_up: "A d \<Longrightarrow> request_row i d = Some row \<Longrightarrow> sr_status row = ''broadcasted'' \<Longrightarrow> W i d"
    and put_down: "W i d \<Longrightarrow> A d"
    and worked_on: "W i d \<Longrightarrow> f_tx_payload f = Undefined \<Longrightarrow>
      W i (signing_requests_update (map_row (\<lambda>r. sr_id r = i) (sr_set f blk)) d)"

sublocale cycle_invariant \<subseteq> own: own_row "W i" i "\<lambda>f. f_tx_payload f = Undefined" for i
  by unfold_locales (simp_all add: worked_on failed_fields_def dropped_fields_def no_fields_def)

context cycle_invariant begin

lemma processRow_keeps:
  assumes "quiet w" and "A (w_db w)" and "request_row (sr_id row) (w_db w) = Some row"
    and "sr_status row = ''broadcasted''" and "processRow row w = (r, w')"
  shows "A (w_db w')"
proof -
  from taken_up [OF assms(2-4)] assms(1) have st: "stable (W (sr_id row)) w" by (intro quiet_stable)
  have "preserves (stable (W (sr_id row))) (processRow row)"
    by (rule own.processRow_stable [OF refl]) (simp_all add: sped_up_fields_def confirmed_fields_def no_fields_def)
  from stableD [OF preserves_runD [OF this assms(5) st]] show ?thesis by (rule put_down)
qed

lemma pollRows_keeps:
  assumes "quiet w" and "A (w_db w)" and "distinct (map sr_id rows)"
    and "\<forall>row \<in> set rows. request_row (sr_id row) (w_db w) = Some row \<and> sr_status row = ''broadcasted''"
  shows "quiet (snd (pollRows rows w)) \<and> A (w_db (snd (pollRows rows w)))"
  using assms
proof (induction rows arbitrary: w)
  case (Cons row rows)
  obtain r w' where p: "processRow row w = (r, w')" by fastforce
  have "A (w_db w')" using processRow_keeps [OF Cons.prems(1,2) _ _ p] Cons.prems(4) by simp
  moreover have "quiet w'"
    using same_env_quiet [OF preserves_runD [OF processRow_same_env p same_env_refl] Cons.prems(1)] .
  moreover have "request_row (sr_id x) (w_db w') = Some x \<and> sr_status x = ''broadcasted''" if "x \<in> set rows" for x
  proof -
    have "sr_id row \<noteq> sr_id x" using that Cons.prems(3) by (auto simp: rev_image_eqI)
    from processRow_other [OF Cons.prems(1) this p] that Cons.prems(4) show ?thesis by simp
  qed
  ultimately show ?case using Cons.IH [of w'] Cons.prems(3) p unfolding pollRows_run by simp
qed (simp add: ret_run)

lemma runPoll_keeps:
  assumes "quiet w" and "A (w_db w)"
  shows "quiet (snd (runPoll w)) \<and> A (w_db (snd (runPoll w)))"
proof -
  let ?rs = "signing_requests (w_db w)"
  let ?rows = "order_by_broadcasted_at (filter (\<lambda>r. sr_status r = ''broadcasted'') ?rs)"
  have ids: "distinct (map sr_id ?rs)" using assms(2) by (rule identified)
  then have "distinct (map sr_id ?rows)" by (intro distinct_order_by_broadcasted_at distinct_map_filter)
  moreover have "request_row (sr_id row) (w_db (tick w)) = Some row" if "row \<in> set ?rows" for row
    using distinct_find_row [OF ids] that by (simp add: request_row_def)
  ultimately show ?thesis
    unfolding runPoll_quiet [OF assms(1)] using assms by (intro pollRows_keeps) simp_all
qed

end

section \<open>Settlement\<close>

text \<open>
  Settlement.  Undisturbed, one cycle confirms every broadcasted row for whose hash the
  node reports a receipt with status 1: whatever happens to the other rows of the cycle,
  the row is confirmed when the cycle ends, with the block of the receipt and the time.
\<close>

theorem cycle_settles_mined_rows:
  assumes "quiet w" and "distinct (map sr_id (signing_requests (w_db w)))"
    and "row \<in> set (signing_requests (w_db w))" and "sr_status row = ''broadcasted''"
    and "sr_tx_hash row = Some h" and "h \<noteq> []" and "mined w (sr_chain_id row) h raw"
    and "js_truthy (Some raw)" and "rc_status (receipt_of_raw raw) = NInt 1"
    and "rc_blockNumber (receipt_of_raw raw) = NInt b" and "int4_ok b"
  shows "\<exists>row'. request_row (sr_id row) (w_db (snd (runPoll w))) = Some row' \<and> settled row b row'"
  using assms by (rule cycle_settles)

definition mined_raw :: json where
  "mined_raw = JObj [(''status'', JStr ''0x1''), (''blockNumber'', JStr ''0x10''), (''gasUsed'', JStr ''0x5208'')]"

theorem cycle_settles_mined_rows_witness:
  "\<exists>row'. request_row ''r'' (w_db (snd (runPoll sent_world))) = Some row' \<and> sr_status row' = ''confirmed''"
proof -
  obtain ch where ch: "map_of (chains sample_env) 1 = Some ch" "cc_rpcUrls ch = [''node'']"
    using sample_chain by blast
  have "rpc_reply meth (receipt_net n rq) = Inr (Some mined_raw)" for meth n rq
    by (simp add: rpc_reply_def receipt_net_def mined_raw_def)
  then have "mined sent_world 1 ''0xh'' mined_raw" using ch by (simp add: mined_def)
  moreover have "rc_status (receipt_of_raw mined_raw) = NInt 1" "rc_blockNumber (receipt_of_raw mined_raw) = NInt 16"
    "int4_ok 16" by code_simp+
  moreover have "js_truthy (Some mined_raw)" by (simp add: mined_raw_def)
  ultimately show ?thesis
    using cycle_settles_mined_rows [of sent_world sent_row "''0xh''" mined_raw 16] by (auto simp: settled_def)
qed

end
