(* ===== verification/EndToEnd.thy ===== *)
theory EndToEnd
  imports SigningEnds MonitorCycle
begin

text \<open>
  From the request to the block: what \<open>requestSign\<close> returns describes a stored row, and
  when it returns that a transaction was broadcasted and a node reports it as mined, the
  next cycle of the monitor confirms it.  And what went out without being recorded: it is
  written off.
\<close>

section \<open>The row of a request\<close>

definition has_row :: "string \<Rightarrow> (signing_request \<Rightarrow> bool) \<Rightarrow> db \<Rightarrow> bool" where
  "has_row i P d \<longleftrightarrow> (\<exists>row \<in> set (signing_requests d). sr_id row = i \<and> P row)"

lemma has_row_other [simp]:
  "has_row i P (audit_log_update g d) = has_row i P d" "has_row i P (wallet_nonces_update h d) = has_row i P d"
  by (simp_all add: has_row_def)

lemma has_row_set:
  "has_row i P d \<Longrightarrow> (\<And>r. P r \<Longrightarrow> P' (f r)) \<Longrightarrow> (\<And>r. sr_id (f r) = sr_id r) \<Longrightarrow>
     has_row i P' (signing_requests_update (map_row (\<lambda>r. sr_id r = i) f) d)"
  by (force simp: has_row_def set_map_row)

lemma leads_set:
  assumes "f_block_number f = Undefined" and "\<And>r. P r \<Longrightarrow> P' (sr_set f Undefined r)"
  shows "leads (holds (has_row i P)) (sr_update i f) (\<lambda>_. holds (has_row i P')) E"
  using assms has_row_set [of i P _ P' "sr_set f Undefined"]
  by (auto simp: leads_def holds_def wp_def sr_update_quiet sr_set_def)

text \<open>A result that describes a row of the chain.\<close>

definition describes :: "int \<Rightarrow> sign_result \<Rightarrow> db \<Rightarrow> bool" where
  "describes c res = has_row (res_signingRequestId res) (\<lambda>row. sr_status row = res_status res \<and> sr_chain_id row = c \<and>
     (\<forall>h. res_txHash res = Some h \<and> h \<noteq> [] \<longrightarrow> sr_tx_hash row = Some h))"

text \<open>Requests with the key are for one chain: the key is a digest over the chain, too.\<close>

definition keyed :: "string \<Rightarrow> int \<Rightarrow> db \<Rightarrow> bool" where
  "keyed key c d \<longleftrightarrow> (\<forall>row \<in> set (signing_requests d). sr_idempotency_key row = Some key \<longrightarrow> sr_chain_id row = c)"

lemma keyed_audit [simp]: "keyed key c (audit_log_update g d) = keyed key c d"
  by (simp add: keyed_def)

section \<open>Signing\<close>

lemma row_through:
  "leads (holds (has_row i P)) (reserveNonce wid c) (\<lambda>_. holds (has_row i P)) whatever"
  "leads (holds (has_row i P)) (audit_create a b c' e st m) (\<lambda>_. holds (has_row i P)) whatever"
  unfolding reserveNonce_def
  by (intro leads_through preserves_intros stable_nonces stable_audit has_row_other; simp add: nonce_reserve_def preserves_intros)+

lemma row_signOrFail:
  "leads (holds (has_row i P)) (signOrFail s v tx j) (\<lambda>_. holds (has_row i P)) whatever"
  unfolding signOrFail_def
  by (rule leads_catch [OF leads_through]) (intro preserves_intros leads_then [OF leads_trivial] leads_refused)+

lemma row_broadcastOrFail:
  "leads (holds (has_row i P)) (broadcastOrFail v c signed i)
     (\<lambda>_. holds (has_row i (\<lambda>r. \<exists>t r0. P r0 \<and> r = r0\<lparr>sr_status := ''broadcasted'', sr_broadcasted_at := t\<rparr>))) whatever"
proof -
  let ?b = "\<lambda>t. no_fields\<lparr>f_status := Val ''broadcasted'', f_broadcasted_at := Val t\<rparr>"
  have "sr_set (?b t) Undefined r = r\<lparr>sr_status := ''broadcasted'', sr_broadcasted_at := Some t\<rparr>" for t r
    by (simp add: sr_set_def no_fields_def)
  then have set: "leads (holds (has_row i P)) (sr_update i (?b t))
     (\<lambda>_. holds (has_row i (\<lambda>r. \<exists>t r0. P r0 \<and> r = r0\<lparr>sr_status := ''broadcasted'', sr_broadcasted_at := t\<rparr>))) whatever" for t
    by (intro leads_set) (auto simp: no_fields_def)
  show ?thesis
    unfolding broadcastOrFail_def
    by (rule leads_catch [OF leads_then [OF leads_through leads_then [OF leads_now set]]])
      (intro preserves_intros broadcast_env leads_then [OF leads_trivial] leads_refused)+
qed

lemma row_signAndSend:
  "leads (holds (has_row i (\<lambda>r. sr_chain_id r = c))) (signAndSend orgId s v req fees key i) (\<lambda>res. holds (describes c res)) whatever"
proof -
  let ?P = "\<lambda>r. sr_chain_id r = c"
  let ?P' = "\<lambda>(x :: sign_transaction_result) r. sr_chain_id r = c \<and> (\<forall>h. st_txHash x = Some h \<longrightarrow> sr_tx_hash r = Some h)"
  have payload: "leads (holds (has_row i ?P)) (sr_update i (no_fields\<lparr>f_tx_payload := Val tx\<rparr>)) (\<lambda>_. holds (has_row i ?P)) whatever" for tx
    by (rule leads_set) (simp_all add: no_fields_def sr_set_def)
  have signed: "leads (holds (has_row i ?P)) (sr_update i (signed_fields x t)) (\<lambda>_. holds (has_row i (?P' x))) whatever" for x t
    by (rule leads_set) (auto simp: signed_fields_def no_fields_def sr_set_def opt_field_def)
  show ?thesis
    unfolding signAndSend_def
    by (intro leads_then [OF row_through(1)] leads_then [OF payload] leads_then [OF row_signOrFail] leads_then [OF leads_now]
        leads_then [OF signed] leads_then [OF row_broadcastOrFail] leads_then [OF row_through(2)] leads_result)
      (auto simp: holds_def describes_def has_row_def)
qed

section \<open>The claim and what is before it\<close>

lemma replay_describes:
  "keyed key c d \<Longrightarrow> found_in key (Some r) d \<Longrightarrow> describes c (buildSignResultFromRequest r) d"
  by (auto simp: describes_def has_row_def keyed_def found_in_def buildSignResultFromRequest_def or_empty_def
      intro!: bexI [of _ r] split: option.splits)

lemma row_claim:
  "leads (holds (keyed key (req_chainId req))) (claimRequest orgId walletId req key)
    (\<lambda>x. holds (case x of Inl res \<Rightarrow> describes (req_chainId req) res
       | Inr i \<Rightarrow> has_row i (\<lambda>r. sr_chain_id r = req_chainId req))) whatever"
proof -
  let ?c = "req_chainId req"
  let ?J = "holds (keyed key ?c)"
  let ?Q = "\<lambda>x. holds (case x of Inl res \<Rightarrow> describes ?c res | Inr i \<Rightarrow> has_row i (\<lambda>r. sr_chain_id r = ?c))"
  have create: "leads ?J (sr_create orgId walletId ?c ''pending'' key)
      (\<lambda>r. holds (has_row (sr_id r) (\<lambda>r. sr_chain_id r = ?c))) ?J"
  proof -
    have "wp (sr_create orgId walletId ?c ''pending'' key) (\<lambda>r. holds (has_row (sr_id r) (\<lambda>r. sr_chain_id r = ?c)))
        (\<lambda>_. ?J) w" if "?J w" for w
      using that
      by (auto simp: wp_def sr_create_def create_row_def randomUUID_def now_def run_defs stmt_quiet holds_def
          insert_row_Inr has_row_def split: sum.splits)
    then show ?thesis by (simp add: leads_def)
  qed
  let ?f = "no_fields\<lparr>f_status := Val ''pending'', f_tx_payload := Undefined, f_tx_hash := Undefined,
      f_signature := Undefined, f_failure_reason := Undefined, f_error_type := Undefined\<rparr>"
  have reuse: "leads (holds (\<lambda>d. keyed key ?c d \<and> found_in key (Some r) d))
      (andThen (sr_update (sr_id r) ?f) (\<lambda>_. ret (Inr (sr_id r)))) ?Q whatever" for r
  proof -
    have upd: "leads (holds (has_row (sr_id r) (\<lambda>r. sr_chain_id r = ?c))) (sr_update (sr_id r) ?f)
        (\<lambda>_. holds (has_row (sr_id r) (\<lambda>r. sr_chain_id r = ?c))) whatever"
      by (rule leads_set) (simp_all add: no_fields_def sr_set_def)
    have "leads (holds (has_row (sr_id r) (\<lambda>r. sr_chain_id r = ?c)))
        (andThen (sr_update (sr_id r) ?f) (\<lambda>_. ret (Inr (sr_id r)))) ?Q whatever"
      by (rule leads_then [OF upd]) (rule leads_result, simp)
    then show ?thesis
      by (rule leads_mono) (auto simp: holds_def keyed_def found_in_def has_row_def)
  qed
  have replay: "leads (holds (\<lambda>d. keyed key ?c d \<and> found_in key (Some r) d)) (ret (Inl (buildSignResultFromRequest r)))
      ?Q whatever" for r
    by (rule leads_result) (auto simp: holds_def intro: replay_describes)
  have gone: "leads P (throw e) ?Q whatever" for P e
    by (simp add: leads_def wp_throw)
  have race: "leads ?J (andThen (sr_findByIdempotencyKey key) (\<lambda>raced. case raced of
            None \<Rightarrow> throw err
          | Some r \<Rightarrow> if sr_status r \<noteq> ''failed'' then ret (Inl (buildSignResultFromRequest r))
              else andThen (sr_update (sr_id r) ?f) (\<lambda>_. ret (Inr (sr_id r))))) ?Q whatever" for err
    by (rule leads_then [OF leads_found]) (simp add: gone replay reuse split: option.split)
  have new: "leads ?J (andThen (sr_create orgId walletId ?c ''pending'' key) (\<lambda>r. ret (Inr (sr_id r)))) ?Q ?J"
    by (rule leads_then [OF create]) (simp add: leads_def wp_ret)
  show ?thesis
    unfolding claimRequest_def by (rule leads_catch [OF new]) (simp add: gone race)
qed

lemma row_authorizeAndSign:
  "leads (holds (keyed key (req_chainId req))) (authorizeAndSign X orgId s v req key)
     (\<lambda>res. holds (describes (req_chainId req) res)) whatever"
proof -
  let ?J = "holds (keyed key (req_chainId req))"
  have last: "leads (holds (case x of Inl res \<Rightarrow> describes (req_chainId req) res
       | Inr i \<Rightarrow> has_row i (\<lambda>r. sr_chain_id r = req_chainId req)))
     (case x of Inl res \<Rightarrow> ret res | Inr i \<Rightarrow> signAndSend orgId s v req fees key i)
     (\<lambda>res. holds (describes (req_chainId req) res)) whatever" for x fees
    by (cases x) (simp_all add: row_signAndSend leads_result)
  have verdict: "leads ?J (case x of Deny reason \<Rightarrow> throw (ForbiddenException (''Policy denied: '' @ reason))
     | Allow \<Rightarrow> andThen (estimateFees (req_to req) (req_value req) (req_data req) (req_chainId req)
          (Some (wl_address v))) (\<lambda>fees. andThen (claimRequest orgId (wl_id v) req key) (\<lambda>claim. case claim of
         Inl res \<Rightarrow> ret res | Inr i \<Rightarrow> signAndSend orgId s v req fees key i)))
     (\<lambda>res. holds (describes (req_chainId req) res)) whatever" for x
    by (cases x) (simp_all only: verdict.case, intro leads_then [OF leads_through] leads_then [OF row_claim] last
        preserves_intros quiet_estimateFees, simp add: leads_def wp_throw)
  show ?thesis
    unfolding authorizeAndSign_def
    by (intro leads_then [OF leads_through] verdict evaluate_env stable_evaluate) simp
qed

lemma result_is_stored:
  "leads (holds (keyed (computeIdempotencyKey X walletId req) (req_chainId req))) (requestSign X orgId walletId req)
     (\<lambda>res. holds (describes (req_chainId req) res)) whatever"
proof -
  let ?key = "computeIdempotencyKey X walletId req"
  have found: "leads (holds (\<lambda>d. keyed ?key (req_chainId req) d \<and> found_in ?key x d)) (case x of
       Some r \<Rightarrow> if sr_status r \<noteq> ''failed'' then ret (buildSignResultFromRequest r)
                 else authorizeAndSign X orgId s v req ?key
     | None \<Rightarrow> authorizeAndSign X orgId s v req ?key) (\<lambda>res. holds (describes (req_chainId req) res)) whatever" for x s v
  proof -
    have sign: "leads (holds (\<lambda>d. keyed ?key (req_chainId req) d \<and> found_in ?key x d)) (authorizeAndSign X orgId s v req ?key)
        (\<lambda>res. holds (describes (req_chainId req) res)) whatever"
      by (rule leads_mono [OF row_authorizeAndSign]) (simp_all add: holds_def)
    have replay: "leads (holds (\<lambda>d. keyed ?key (req_chainId req) d \<and> found_in ?key (Some r) d)) (ret (buildSignResultFromRequest r))
        (\<lambda>res. holds (describes (req_chainId req) res)) whatever" for r
      by (rule leads_result) (auto simp: holds_def intro: replay_describes)
    from sign replay show ?thesis by (cases x) simp_all
  qed
  show ?thesis
    unfolding requestSign_def Let_def
  proof (rule leads_then [OF leads_through [OF loadPrerequisites_env(2,4)]])
    fix sv :: "organization_seed \<times> wallet"
    show "leads (holds (keyed ?key (req_chainId req))) (case sv of (seedRow, wallet) \<Rightarrow>
       andThen (sr_findByIdempotencyKey ?key) (\<lambda>existing. case existing of
           Some r \<Rightarrow> if sr_status r \<noteq> ''failed'' then ret (buildSignResultFromRequest r)
                     else authorizeAndSign X orgId seedRow wallet req ?key
         | None \<Rightarrow> authorizeAndSign X orgId seedRow wallet req ?key)) (\<lambda>res. holds (describes (req_chainId req) res)) whatever"
      by (cases sv) (simp only: prod.case, rule leads_then [OF leads_found found])
  qed
qed

lemma unique_ids: "requests_unique d \<Longrightarrow> distinct (map sr_id (signing_requests d))"
proof -
  have "sorted_wrt (\<lambda>a b. \<not> signing_request_conflict a b) rs \<Longrightarrow> distinct (map sr_id rs)" for rs
    by (induction rs) (auto simp: signing_request_conflict_def)
  then show "requests_unique d \<Longrightarrow> distinct (map sr_id (signing_requests d))"
    by (simp add: requests_unique_def)
qed

section \<open>Property\<close>

text \<open>
  C19. From the request to the block.  Undisturbed, and if the requests with the key are for one chain:
  when \<open>requestSign\<close> returns that a transaction was broadcasted, and the node of the chain
  reports its hash as mined with status 1, then the next cycle of the monitor confirms the
  row the result names, with that hash and the block of the receipt.
\<close>

theorem mined_results_are_confirmed:
  fixes w :: world
  assumes "quiet w" and "requests_unique (w_db w)"
    and "keyed (computeIdempotencyKey X walletId req) (req_chainId req) (w_db w)"
    and "requestSign X orgId walletId req w = (Inr res, w')"
    and "res_status res = ''broadcasted''" and "res_txHash res = Some h" and "h \<noteq> []"
    and "mined w' (req_chainId req) h raw" and "js_truthy (Some raw)" and "rc_status (receipt_of_raw raw) = NInt 1"
    and "rc_blockNumber (receipt_of_raw raw) = NInt b" and "int4_ok b"
  shows "\<exists>row. request_row (res_signingRequestId res) (w_db (snd (runPoll w'))) = Some row \<and>
    sr_status row = ''confirmed'' \<and> sr_tx_hash row = Some h \<and> sr_block_number row = Some b"
proof -
  have "holds (keyed (computeIdempotencyKey X walletId req) (req_chainId req)) w"
    using assms(1,3) by (simp add: holds_def)
  from leadsD [OF result_is_stored this assms(4)] have q: "quiet w'" and d: "describes (req_chainId req) res (w_db w')"
    by (simp_all add: holds_def)
  from d obtain row where row: "row \<in> set (signing_requests (w_db w'))" "sr_id row = res_signingRequestId res"
    "sr_status row = ''broadcasted''" "sr_tx_hash row = Some h" and c: "sr_chain_id row = req_chainId req"
    using assms(5-7) by (auto simp: describes_def has_row_def)
  have "stable requests_unique w" using assms(1,2) by (rule quiet_stable)
  from stableD [OF preserves_runD [OF unique_requests.requestSign_stable assms(4) this]]
  have "distinct (map sr_id (signing_requests (w_db w')))" by (rule unique_ids)
  from cycle_settles [OF q this row(1,3,4) assms(7) _ assms(9-12)] obtain row' where
    "request_row (sr_id row) (w_db (snd (runPoll w'))) = Some row'" "settled row b row'"
    using assms(8) c by auto
  with row show ?thesis by (auto simp: settled_def)
qed

theorem mined_results_are_confirmed_witness:
  "\<exists>res w' row. requestSign sample_ext ''org'' ''w'' sample_request sent_world = (Inr res, w') \<and>
    request_row ''r'' (w_db (snd (runPoll w'))) = Some row \<and> sr_status row = ''confirmed'' \<and>
    sr_tx_hash row = Some ''0xh'' \<and> sr_block_number row = Some 16"
proof -
  let ?res = "buildSignResultFromRequest sent_row"
  have db: "organization_seeds (w_db sent_world) = [sample_seed]" "wallets (w_db sent_world) = [sample_wallet]"
    by (simp_all add: sent_world_def calm_world_def sample_db_def)
  have key: "sr_idempotency_key sent_row = Some retry" if "retry = computeIdempotencyKey sample_ext ''w'' sample_request" for retry
    using that by (simp add: sent_row_def sample_row_def)
  have c: "req_chainId sample_request = 1" by (simp add: sample_request_def)
  have "\<exists>w'. requestSign sample_ext ''org'' ''w'' sample_request sent_world = (Inr ?res, w') \<and> w_net w' = receipt_net \<and> w_env w' = sample_env"
    using db by (simp add: requestSign_def loadPrerequisites_def run_defs query_defs query_quiet Let_def sample_seed_def
        sample_wallet_def key)
  then obtain w' where run: "requestSign sample_ext ''org'' ''w'' sample_request sent_world = (Inr ?res, w')"
    and env: "w_net w' = receipt_net" "w_env w' = sample_env" by blast
  have res: "res_status ?res = ''broadcasted''" "res_txHash ?res = Some ''0xh''" "res_signingRequestId ?res = ''r''"
    by (simp_all add: buildSignResultFromRequest_def or_empty_def)
  have w: "requests_unique (w_db sent_world)" by (simp add: requests_unique_def)
  have k: "keyed (computeIdempotencyKey sample_ext ''w'' sample_request) (req_chainId sample_request) (w_db sent_world)"
    by (simp add: keyed_def c)
  obtain ch where ch: "map_of (chains sample_env) 1 = Some ch" "cc_rpcUrls ch = [''node'']"
    using sample_chain by blast
  have "rpc_reply meth (receipt_net n rq) = Inr (Some mined_raw)" for meth n rq
    by (simp add: rpc_reply_def receipt_net_def mined_raw_def)
  then have m: "mined w' (req_chainId sample_request) ''0xh'' mined_raw" using ch env by (simp add: mined_def c)
  have r: "rc_status (receipt_of_raw mined_raw) = NInt 1" "rc_blockNumber (receipt_of_raw mined_raw) = NInt 16"
    "int4_ok 16" by code_simp+
  have t: "js_truthy (Some mined_raw)" by (simp add: mined_raw_def)
  have h: "''0xh'' \<noteq> []" by simp
  from mined_results_are_confirmed [OF sent_world_simps(1) w k run res(1,2) h m t r] run res(3)
  show ?thesis by (elim exE conjE) (intro exI conjI; simp)
qed

section \<open>A transaction that is written off\<close>

lemma failed_rows_rest:
  assumes "quiet w" and "distinct (map sr_id (signing_requests (w_db w)))"
    and "request_row i (w_db w) = Some row" and "sr_status row \<noteq> ''broadcasted''"
  shows "request_row i (w_db (snd (runPoll w))) = Some row"
proof -
  let ?rows = "order_by_broadcasted_at (filter (\<lambda>r. sr_status r = ''broadcasted'') (signing_requests (w_db w)))"
  have "sr_id r \<noteq> i" if "r \<in> set ?rows" for r
  proof
    assume "sr_id r = i"
    with that have "find_row (\<lambda>x. sr_id x = i) (signing_requests (w_db w)) = Some r"
      using distinct_find_row [OF assms(2), of r] by simp
    with assms(3,4) that show False by (simp add: request_row_def)
  qed
  then have "\<forall>r \<in> set ?rows. sr_id r \<noteq> i" by blast
  with pollRows_others [of "tick w" ?rows i] assms(1,3) show ?thesis
    by (simp add: runPoll_quiet [OF assms(1)] request_row_def)
qed

lemma unique_keys:
  assumes "requests_unique d" and "x \<in> set (signing_requests d)" and "y \<in> set (signing_requests d)"
    and "sr_idempotency_key x = Some key" and "sr_idempotency_key y = Some key"
  shows "x = y"
proof -
  have "sorted_wrt (\<lambda>a b. \<not> signing_request_conflict a b) rs \<Longrightarrow> x \<in> set rs \<Longrightarrow> y \<in> set rs \<Longrightarrow> x = y" for rs
    using assms(4,5) by (induction rs) (auto simp: signing_request_conflict_def)
  with assms(1-3) show ?thesis by (simp add: requests_unique_def)
qed

text \<open>
  C27. A sent transaction is written off.  The node takes the transaction, the one statement fails that
  would record it, and nothing else goes wrong.  Then the caller is told that the broadcast failed,
  and the row is failed with the reason of the database; a cycle of the monitor does not look at the
  row; and where the client of the database hides the code of a conflict, a further request
  for the same transaction asks the signer nothing and returns no result.  So the row is
  never corrected, although the transaction is out.
\<close>

theorem unrecorded_broadcast_is_written_off:
  assumes "map_of (chains (w_env w)) c = Some ch" and "cc_rpcUrls ch = u # us" and "st_rawTx signed = Some raw"
    and "rpc_reply ''eth_sendRawTransaction'' (w_net w (length (w_sent w))
      (rpc_request u ''eth_sendRawTransaction'' [JStr raw])) = Inr res"
    and "w_fault w (w_stmts w) = Some e" and "w_sched w (w_stmts w) = (\<lambda>d. d)" and "quiet (tick w)"
    and "requests_unique (w_db w)" and "request_row i (w_db w) = Some row"
    and "sr_idempotency_key row = Some (computeIdempotencyKey X walletId req)"
    and "\<not> is_unique_violation (w_driver w unique_violation)"
  shows "\<exists>w' row'. broadcastOrFail v c signed i w = (Inl (http_failure ''Transaction broadcast'' (classifyError e)), w') \<and>
    rpc_request u ''eth_sendRawTransaction'' [JStr raw] \<in> set (w_sent w') \<and>
    row' = row\<lparr>sr_status := ''failed'', sr_failure_reason := Some (''broadcast failed: '' @ error_message e),
       sr_error_type := Some (error_type_text (classifyError e))\<rparr> \<and>
    request_row i (w_db w') = Some row' \<and> request_row i (w_db (snd (runPoll w'))) = Some row' \<and>
    (\<exists>e' rs. fst (requestSign X orgId walletId req w') = Inl e' \<and>
       w_sent (snd (requestSign X orgId walletId req w')) = w_sent w' @ rs \<and> filter has_token rs = [])"
proof -
  let ?key = "computeIdempotencyKey X walletId req"
  let ?f = "\<lambda>r. r\<lparr>sr_status := ''failed'', sr_failure_reason := Some (''broadcast failed: '' @ error_message e),
       sr_error_type := Some (error_type_text (classifyError e))\<rparr>"
  from lost_record [OF assms(1-7), of v i] obtain w' where
    b: "broadcastOrFail v c signed i w = (Inl (http_failure ''Transaction broadcast'' (classifyError e)), w')"
    and q: "quiet w'" and dr: "w_driver w' = w_driver w"
    and s: "rpc_request u ''eth_sendRawTransaction'' [JStr raw] \<in> set (w_sent w')"
    and rows: "signing_requests (w_db w') = map_row (\<lambda>r. sr_id r = i) ?f (signing_requests (w_db w))"
    by (elim exE conjE)
  have row: "request_row i (w_db w') = Some (?f row)"
    using assms(9) by (simp add: request_row_def rows find_row_map_row_same)
  have "distinct (map sr_id (signing_requests (w_db w)))" using assms(8) by (rule unique_ids)
  then have ids: "distinct (map sr_id (signing_requests (w_db w')))" by (simp add: rows map_map_row)
  have rest: "request_row i (w_db (snd (runPoll w'))) = Some (?f row)"
    by (rule failed_rows_rest [OF q ids row]) simp
  obtain r w'' where run: "requestSign X orgId walletId req w' = (r, w'')" by fastforce
  have hidden: "hides_codes w'" using q assms(11) dr by (simp add: hides_codes_def quiet_def)
  have mine: "row \<in> set (signing_requests (w_db w)) \<and> sr_id row = i"
    using assms(9) unfolding request_row_def by (rule find_row_Some)
  have failed: "\<forall>x \<in> set (signing_requests (w_db w')). sr_idempotency_key x = Some ?key \<longrightarrow> sr_status x = ''failed''"
  proof (intro ballI impI)
    fix x
    assume "x \<in> set (signing_requests (w_db w'))" and key: "sr_idempotency_key x = Some ?key"
    then obtain y where y: "y \<in> set (signing_requests (w_db w))" "x = (if sr_id y = i then ?f y else y)"
      unfolding rows set_map_row by (elim imageE)
    have "sr_idempotency_key y = Some ?key" using key unfolding y(2) by (cases "sr_id y = i") simp_all
    from unique_keys [OF assms(8) y(1) conjunct1 [OF mine] this assms(10)] mine have "sr_id y = i" by simp
    then show "sr_status x = ''failed''" unfolding y(2) by simp
  qed
  have "taken ?key (w_db w')"
    unfolding taken_def
  proof (rule bexI)
    show "?f row \<in> set (signing_requests (w_db w'))" using find_row_Some [OF row [unfolded request_row_def]] by (rule conjunct1)
    show "sr_idempotency_key (?f row) = Some ?key" using assms(10) by simp
  qed
  with q have "stable (taken ?key) w'" by (rule quiet_stable)
  from taken_requestSign [OF hidden this run] obtain rs where rs: "w_sent w'' = w_sent w' @ rs" "list_all is_node_call rs"
    and rep: "replays ?key (w_db w'') r" and st: "(\<exists>res. r = Inr res) \<longrightarrow> (\<forall>J. stable J w' \<longrightarrow> stable J w'')"
    by (elim exE conjE)
  have "\<exists>e'. r = Inl e'"
  proof (cases r)
    case (Inr res)
    let ?J = "\<lambda>d. \<forall>x \<in> set (signing_requests d). sr_idempotency_key x = Some ?key \<longrightarrow> sr_status x = ''failed''"
    have "stable ?J w'" using q by (rule quiet_stable) (rule failed)
    with st Inr have "stable ?J w''" by blast
    from stableD [OF this] rep Inr show ?thesis by (auto simp: replays_def)
  qed simp
  then obtain e' where e': "r = Inl e'" by blast
  have none: "filter has_token rs = []"
    using rs(2) by (auto simp: list_all_iff filter_empty_conv dest: node_call_no_token)
  show ?thesis
  proof (intro exI [of _ w'] exI [of _ "?f row"] exI [of _ e'] exI [of _ rs] conjI)
    show "fst (requestSign X orgId walletId req w') = Inl e'" by (simp only: run e' fst_conv)
    show "w_sent (snd (requestSign X orgId walletId req w')) = w_sent w' @ rs" by (simp only: run rs(1) snd_conv)
  qed (rule b s refl row rest none)+
qed

theorem unrecorded_broadcast_is_written_off_witness:
  "\<exists>w' row'. broadcastOrFail sample_wallet 1 \<lparr>st_signature = None, st_txHash = None, st_rawTx = Some ''0xr''\<rparr> ''r''
      ((sample_world ''signed'' sample_net)\<lparr>w_fault := (\<lambda>n. if n = 0 then Some (JsError ''connect timeout'') else None)\<rparr>) =
      (Inl (HttpException 500 ''Transaction broadcast failed (retryable)''), w') \<and>
    rpc_request ''node'' ''eth_sendRawTransaction'' [JStr ''0xr''] \<in> set (w_sent w') \<and>
    request_row ''r'' (w_db (snd (runPoll w'))) = Some row' \<and> sr_status row' = ''failed'' \<and>
    (\<exists>e'. fst (requestSign sample_ext ''org'' ''w'' sample_request w') = Inl e')"
proof -
  let ?e = "JsError ''connect timeout''"
  let ?w = "(sample_world ''signed'' sample_net)\<lparr>w_fault := (\<lambda>n. if n = 0 then Some ?e else None)\<rparr>"
  let ?signed = "\<lparr>st_signature = None, st_txHash = None, st_rawTx = Some ''0xr''\<rparr>"
  obtain ch where "map_of (chains sample_env) 1 = Some ch" and u: "cc_rpcUrls ch = ''node'' # []"
    using sample_chain by blast
  then have ch: "map_of (chains (w_env ?w)) 1 = Some ch" by simp
  have reply: "rpc_reply ''eth_sendRawTransaction'' (w_net ?w (length (w_sent ?w))
      (rpc_request ''node'' ''eth_sendRawTransaction'' [JStr ''0xr''])) = Inr (Some (JStr ''0xh''))"
    by (simp add: sample_net_def rpc_request_def rpc_reply_def)
  have w: "w_fault ?w (w_stmts ?w) = Some ?e" "w_sched ?w (w_stmts ?w) = (\<lambda>d. d)" "quiet (tick ?w)"
    by (simp_all add: sample_world_def calm_world_def quiet_def tick_def)
  have d: "\<not> is_unique_violation (w_driver ?w unique_violation)"
    by (simp add: sample_world_def calm_world_def)
  have un: "requests_unique (w_db ?w)" by (simp add: requests_unique_def)
  have row: "request_row ''r'' (w_db ?w) = Some (sample_row ''signed'')" by simp
  have key: "sr_idempotency_key (sample_row ''signed'') = Some (computeIdempotencyKey sample_ext ''w'' sample_request)"
    by (simp add: sample_row_def)
  have h: "http_failure ''Transaction broadcast'' (classifyError ?e) =
      HttpException 500 ''Transaction broadcast failed (retryable)''" by code_simp
  have raw: "st_rawTx ?signed = Some ''0xr''" by simp
  from unrecorded_broadcast_is_written_off [OF ch u raw reply w un row key d, of sample_wallet "''org''"]
  show ?thesis unfolding h by (elim exE conjE) (intro exI conjI, assumption+, simp_all)
qed

end
