(* ===== verification/ServiceRuns.thy ===== *)
theory ServiceRuns
  imports EndToEnd
begin

text \<open>
  The whole service over time: requests to sign and cycles of the monitor, one after the
  other, in any order and with any outcome, from an empty table of requests.  The nonces of
  the transactions that went out stay apart; the allocator's contract (\<open>nonces\<close>) is
  carried from its own table to the rows of the requests.
\<close>

section \<open>What must hold between two calls\<close>

text \<open>The transaction of the row has been handed to a node, and nobody took it for failed.\<close>

definition went_out :: "signing_request \<Rightarrow> bool" where
  "went_out r \<longleftrightarrow> sr_status r \<in> {''broadcasted'', ''confirmed'', ''dropped''}"

text \<open>The counter a row belongs to, and the nonce in its payload.\<close>

definition row_nonce :: "signing_request \<Rightarrow> (string \<times> int) \<times> int" where
  "row_nonce r = ((sr_wallet_id r, sr_chain_id r), case sr_tx_payload r of None \<Rightarrow> 0 | Some p \<Rightarrow> tx_nonce p)"

definition taken :: "(signing_request \<Rightarrow> bool) \<Rightarrow> db \<Rightarrow> ((string \<times> int) \<times> int) list" where
  "taken L d = map row_nonce (filter L (signing_requests d))"

text \<open>
  Every row belongs to one of the requests \<open>R\<close>, pairs of a wallet and a transaction, whose
  digests tell the wallets and the chains apart.
\<close>

definition keys_identify :: "ext \<Rightarrow> (string \<times> sign_request) set \<Rightarrow> bool" where
  "keys_identify X R \<longleftrightarrow> (\<forall>(v, req) \<in> R. \<forall>(v', req') \<in> R.
     computeIdempotencyKey X v req = computeIdempotencyKey X v' req' \<longrightarrow> v = v' \<and> req_chainId req = req_chainId req')"

definition framed :: "ext \<Rightarrow> (string \<times> sign_request) set \<Rightarrow> db \<Rightarrow> bool" where
  "framed X R d \<longleftrightarrow> keys_identify X R \<and> distinct (map sr_id (signing_requests d)) \<and>
     (\<forall>r \<in> set (signing_requests d). \<exists>q \<in> R. row_of X q r)"

definition apart :: "ext \<Rightarrow> (string \<times> sign_request) set \<Rightarrow> db \<Rightarrow> bool" where
  "apart X R d \<longleftrightarrow> framed X R d \<and> live_ok (wallet_nonces d) (taken went_out d)"

lemma live_ok_subset: "live_ok c live \<Longrightarrow> set live' \<subseteq> set live \<Longrightarrow> distinct live' \<Longrightarrow> live_ok c live'"
  by (auto simp: live_ok_def)

lemma live_ok_filter: "live_ok c (map f (filter L rs)) \<Longrightarrow> (\<And>r. r \<in> set rs \<Longrightarrow> L' r \<Longrightarrow> L r) \<Longrightarrow> live_ok c (map f (filter L' rs))"
proof -
  assume a: "live_ok c (map f (filter L rs))" and L: "\<And>r. r \<in> set rs \<Longrightarrow> L' r \<Longrightarrow> L r"
  have "filter L' rs = filter L' (filter L rs)" using L by (auto intro: filter_cong)
  then have "distinct (map f (filter L' rs))" using a by (metis live_ok_def distinct_map_filter)
  with a L show ?thesis by (auto simp: live_ok_def)
qed

lemma sr_set_frame [simp]:
  "sr_wallet_id (sr_set f b r) = sr_wallet_id r" "sr_chain_id (sr_set f b r) = sr_chain_id r"
  by (simp_all add: sr_set_def)

lemma row_of_set [simp]: "row_of X q (sr_set f b r) = row_of X q r"
  by (simp add: row_of_def)

lemma framed_other [simp]:
  "framed X R (audit_log_update g d) = framed X R d" "framed X R (wallet_nonces_update h d) = framed X R d"
  by (simp_all add: framed_def)

lemma framed_set [simp]:
  "framed X R (signing_requests_update (map_row (\<lambda>r. sr_id r = i) (sr_set f b)) d) = framed X R d"
proof -
  have "map sr_id (map_row (\<lambda>r. sr_id r = i) (sr_set f b) rs) = map sr_id rs" for rs
    by (induction rs) auto
  moreover have "(\<forall>r \<in> set (map_row (\<lambda>r. sr_id r = i) (sr_set f b) rs). \<exists>q \<in> R. row_of X q r) =
      (\<forall>r \<in> set rs. \<exists>q \<in> R. row_of X q r)" for rs
    by (induction rs) auto
  ultimately show ?thesis by (simp add: framed_def)
qed

lemma taken_other [simp]:
  "taken L (audit_log_update g d) = taken L d" "taken L (wallet_nonces_update h d) = taken L d"
  by (simp_all add: taken_def)

text \<open>An update of one row does not reach the others.\<close>

lemma taken_set:
  assumes "\<And>r. sr_id r = i \<Longrightarrow> L (sr_set f b r) = L r \<and> (L r \<longrightarrow> row_nonce (sr_set f b r) = row_nonce r)"
  shows "taken L (signing_requests_update (map_row (\<lambda>r. sr_id r = i) (sr_set f b)) d) = taken L d"
proof -
  have "map row_nonce (filter L (map_row (\<lambda>r. sr_id r = i) (sr_set f b) rs)) = map row_nonce (filter L rs)" for rs
    using assms by (induction rs) auto
  then show ?thesis by (simp add: taken_def)
qed

abbreviation others_out :: "string \<Rightarrow> signing_request \<Rightarrow> bool" where
  "others_out i r \<equiv> went_out r \<and> sr_id r \<noteq> i"

lemma taken_set_others [simp]:
  "taken (others_out i) (signing_requests_update (map_row (\<lambda>r. sr_id r = i) (sr_set f b)) d) = taken (others_out i) d"
  by (rule taken_set) simp

section \<open>A request on its way\<close>

text \<open>Every row with the identifier (there is at most one) has the property.\<close>

definition row_is :: "string \<Rightarrow> (signing_request \<Rightarrow> bool) \<Rightarrow> db \<Rightarrow> bool" where
  "row_is i P d \<longleftrightarrow> (\<forall>r \<in> set (signing_requests d). sr_id r = i \<longrightarrow> P r)"

text \<open>The row \<open>i\<close> is in the hands of a request for the counter \<open>k\<close>.\<close>

definition held :: "ext \<Rightarrow> (string \<times> sign_request) set \<Rightarrow> string \<Rightarrow> string \<times> int \<Rightarrow> db \<Rightarrow> bool" where
  "held X R i k d \<longleftrightarrow> framed X R d \<and> row_is i (\<lambda>r. \<not> went_out r \<and> (sr_wallet_id r, sr_chain_id r) = k) d"

lemma row_is_other [simp]:
  "row_is i P (audit_log_update g d) = row_is i P d" "row_is i P (wallet_nonces_update h d) = row_is i P d"
  by (simp_all add: row_is_def)

lemma row_is_set: "row_is i P d \<Longrightarrow> (\<And>r. P r \<Longrightarrow> P' (sr_set f Undefined r)) \<Longrightarrow> row_is i P' (set_row i f d)"
  by (auto simp: row_is_def set_map_row)

lemma held_other [simp]:
  "held X R i k (audit_log_update g d) = held X R i k d" "held X R i k (wallet_nonces_update h d) = held X R i k d"
  by (simp_all add: held_def)

lemma held_created:
  assumes "framed X R d" and "(v, req) \<in> R" and "row_of X (v, req) r" and "sr_status r = ''pending''"
    and "\<forall>s \<in> set (signing_requests d). \<not> signing_request_conflict s r"
  shows "held X R (sr_id r) (v, req_chainId req) (signing_requests_update (\<lambda>_. signing_requests d @ [r]) d)"
    and "filter (others_out (sr_id r)) (signing_requests d @ [r]) = filter went_out (signing_requests d)"
proof -
  have new: "\<forall>s \<in> set (signing_requests d). sr_id s \<noteq> sr_id r" using assms(5) by (auto simp: signing_request_conflict_def)
  then show "filter (others_out (sr_id r)) (signing_requests d @ [r]) = filter went_out (signing_requests d)"
    by (auto intro: filter_cong)
  have "\<exists>q \<in> R. row_of X q r" using assms(2,3) by blast
  with assms(1,3,4) new show "held X R (sr_id r) (v, req_chainId req) (signing_requests_update (\<lambda>_. signing_requests d @ [r]) d)"
    by (auto simp: held_def framed_def row_is_def went_out_def row_of_def [of X "(v, req)"])
qed

lemma held_found:
  assumes "framed X R d" and "(v, req) \<in> R" and "found_in (computeIdempotencyKey X v req) (Some r) d"
  shows "held X R (sr_id r) (v, req_chainId req) (set_row (sr_id r) reclaim_fields d)"
proof -
  have r: "r \<in> set (signing_requests d)" "sr_idempotency_key r = Some (computeIdempotencyKey X v req)"
    using assms(3) by (simp_all add: found_in_def)
  obtain q where q: "q \<in> R" "row_of X q r" using assms(1) r(1) by (auto simp: framed_def)
  with assms(1,2) r(2) have k: "sr_wallet_id r = v" "sr_chain_id r = req_chainId req"
    by (cases q; fastforce simp: framed_def keys_identify_def row_of_def)+
  have "s = r" if "s \<in> set (signing_requests d)" "sr_id s = sr_id r" for s
    using that r(1) assms(1) by (auto simp: framed_def distinct_map dest: inj_onD)
  with k have "row_is (sr_id r) (\<lambda>s. (sr_wallet_id s, sr_chain_id s) = (v, req_chainId req)) d"
    by (auto simp: row_is_def)
  then have "row_is (sr_id r) (\<lambda>s. \<not> went_out s \<and> (sr_wallet_id s, sr_chain_id s) = (v, req_chainId req))
      (set_row (sr_id r) reclaim_fields d)"
    by (rule row_is_set) (simp add: reclaim_fields_def no_fields_def went_out_def sr_set_def)
  with assms(1) show ?thesis by (simp add: held_def)
qed

text \<open>What a request writes to its row before the broadcast does not send it out.\<close>

lemma held_set:
  assumes "held X R i k d" and "f_status f \<in> {Undefined, Val ''pending'', Val ''signed'', Val ''failed''}"
  shows "held X R i k (set_row i f d)"
proof -
  have "row_is i (\<lambda>r. \<not> went_out r \<and> (sr_wallet_id r, sr_chain_id r) = k) (set_row i f d)"
    by (rule row_is_set [where P = "\<lambda>r. \<not> went_out r \<and> (sr_wallet_id r, sr_chain_id r) = k"])
      (use assms in \<open>auto simp: held_def went_out_def sr_set_def\<close>)
  then show ?thesis using assms(1) by (simp add: held_def)
qed

lemma held_filter: "held X R i k d \<Longrightarrow> filter (others_out i) (signing_requests d) = filter went_out (signing_requests d)"
  by (rule filter_cong) (auto simp: held_def row_is_def)

lemma request_status [simp]:
  "f_status (no_fields\<lparr>f_tx_payload := y\<rparr>) = Undefined" "f_status (signed_fields x t) = Val ''signed''"
  "f_status (failed_fields reason ty) = Val ''failed''" "f_status (sent_fields t) = Val ''broadcasted''"
  by (simp_all add: no_fields_def signed_fields_def failed_fields_def sent_fields_def)

section \<open>Nonces\<close>

text \<open>\<open>ns\<close> holds the nonce that has been reserved for the row.\<close>

definition claimed :: "ext \<Rightarrow> (string \<times> sign_request) set \<Rightarrow> string \<Rightarrow> string \<times> int \<Rightarrow> int list \<Rightarrow> db \<Rightarrow> bool" where
  "claimed X R i k ns d \<longleftrightarrow> held X R i k d \<and> live_ok (wallet_nonces d) (map (Pair k) ns @ taken (others_out i) d)"

text \<open>The nonce is in the payload.\<close>

definition charged :: "ext \<Rightarrow> (string \<times> sign_request) set \<Rightarrow> string \<Rightarrow> string \<times> int \<Rightarrow> int \<Rightarrow> db \<Rightarrow> bool" where
  "charged X R i k n d \<longleftrightarrow> claimed X R i k [n] d \<and> row_is i (\<lambda>r. row_nonce r = (k, n)) d"

lemma claimed_apart:
  assumes "claimed X R i k ns d"
  shows "apart X R d"
proof -
  have h: "held X R i k d" using assms by (simp add: claimed_def)
  have "live_ok (wallet_nonces d) (taken (others_out i) d)"
    using assms by (auto simp: claimed_def live_ok_def)
  with h show ?thesis unfolding taken_def held_filter [OF h] by (simp add: apart_def held_def taken_def)
qed

lemma claimed_set:
  "claimed X R i k ns d \<Longrightarrow> f_status f \<in> {Undefined, Val ''pending'', Val ''signed'', Val ''failed''} \<Longrightarrow>
     claimed X R i k ns (set_row i f d)"
  by (simp add: claimed_def held_set)

text \<open>A claimed row whose transaction has gone out with the reserved nonce.\<close>

lemma one_more:
  assumes "distinct (map sr_id rs)" and "\<And>r. r \<in> set rs \<Longrightarrow> sr_id r = i \<Longrightarrow> row_nonce r = x"
    and "\<And>r. row_nonce (g r) = row_nonce r" and "distinct (x # map row_nonce (filter (others_out i) rs))"
  shows "distinct (map row_nonce (filter went_out (map_row (\<lambda>r. sr_id r = i) g rs))) \<and>
    set (map row_nonce (filter went_out (map_row (\<lambda>r. sr_id r = i) g rs))) \<subseteq>
      set (x # map row_nonce (filter (others_out i) rs))"
  using assms(1,2,4)
proof (induction rs)
  case (Cons r rs)
  show ?case
  proof (cases "sr_id r = i")
    case True
    have other: "\<forall>s \<in> set rs. sr_id s \<noteq> i" using Cons.prems(1) True by (auto simp: rev_image_eqI)
    have "map_row (\<lambda>r. sr_id r = i) g rs = rs" "filter (others_out i) rs = filter went_out rs"
      using other by (auto simp: map_row_def intro!: map_idI filter_cong)
    then show ?thesis using Cons.prems(2,3) True assms(3) by auto
  next
    case False
    let ?s = "set (map row_nonce (filter went_out (map_row (\<lambda>r. sr_id r = i) g rs)))"
    have IH: "distinct (map row_nonce (filter went_out (map_row (\<lambda>r. sr_id r = i) g rs)))"
      "?s \<subseteq> set (x # map row_nonce (filter (others_out i) rs))"
      using Cons.IH Cons.prems by (auto split: if_splits)
    have "went_out r \<Longrightarrow> row_nonce r \<notin> ?s" using IH(2) Cons.prems(3) False by (auto split: if_splits)
    with IH False show ?thesis by auto
  qed
qed simp

lemma sent_apart:
  assumes "charged X R i k n d" and "f_tx_payload f = Undefined"
  shows "apart X R (set_row i f d)"
proof -
  have n: "row_nonce (sr_set f Undefined r) = row_nonce r" for r
    using assms(2) by (simp add: row_nonce_def sr_set_def)
  have "distinct (map sr_id (signing_requests d))" using assms(1) by (simp add: charged_def claimed_def held_def framed_def)
  moreover have "sr_id r = i \<Longrightarrow> row_nonce r = (k, n)" if "r \<in> set (signing_requests d)" for r
    using that assms(1) by (simp add: charged_def row_is_def)
  moreover have live: "live_ok (wallet_nonces d) ((k, n) # taken (others_out i) d)"
    using assms(1) by (simp add: charged_def claimed_def)
  ultimately have "distinct (taken went_out (set_row i f d))"
    "set (taken went_out (set_row i f d)) \<subseteq>
       set ((k, n) # taken (others_out i) d)"
    using one_more [of "signing_requests d" i "(k, n)" "sr_set f Undefined", OF _ _ n] by (simp_all add: taken_def live_ok_def)
  from live_ok_subset [OF live this(2,1)] show ?thesis
    using assms(1) by (simp add: apart_def charged_def claimed_def held_def)
qed

lemma apart_audit [simp]: "apart X R (audit_log_update g d) = apart X R d"
  by (simp add: apart_def)

interpretation kept_apart: signing_phases X v req "\<lambda>d. (v, req) \<in> R \<and> apart X R d"
  "\<lambda>i. claimed X R i (v, req_chainId req) []" "\<lambda>i n. claimed X R i (v, req_chainId req) [n]"
  "\<lambda>i. charged X R i (v, req_chainId req)" "\<lambda>i n. claimed X R i (v, req_chainId req) [n]" "\<lambda>i. apart X R" "apart X R"
  for X v req R
proof unfold_locales
  let ?k = "(v, req_chainId req)"
  show "claimed X R (sr_id r) ?k [] (signing_requests_update (\<lambda>_. signing_requests d @ [r]) d)"
    if "(v, req) \<in> R \<and> apart X R d" "row_of X (v, req) r" "sr_status r = ''pending''"
      "\<forall>s \<in> set (signing_requests d). \<not> signing_request_conflict s r" for d r
    using that held_created [of X R d v req r] by (simp add: claimed_def apart_def taken_def del: filter_append)
  show "claimed X R (sr_id r) ?k [] (set_row (sr_id r) reclaim_fields d)"
    if "(v, req) \<in> R \<and> apart X R d" "found_in (computeIdempotencyKey X v req) (Some r) d" for d r
    using that held_found [of X R d v req r] unfolding claimed_def apart_def taken_set_others
    by (auto simp: taken_def intro: live_ok_filter)
  show "claimed X R i ?k [n] (d\<lparr>wallet_nonces := m\<rparr>)"
    if "claimed X R i ?k [] d" "reserve_nonce (wallet_nonces d) ?k = Inr (n, m)" for d i n m
    using that nonces.reserve_keeps [of "wallet_nonces d" "taken (others_out i) d" ?k n m] by (simp add: claimed_def)
  show "apart X R d" if "claimed X R i ?k [] d" for d i
    using that by (rule claimed_apart)
  show "charged X R i ?k n (set_row i (no_fields\<lparr>f_tx_payload := Val tx\<rparr>) d)"
    if "claimed X R i ?k [n] d" "tx_nonce tx = n" for d i n tx
  proof -
    have "row_is i (\<lambda>r. \<not> went_out r \<and> (sr_wallet_id r, sr_chain_id r) = ?k) d"
      using that(1) by (simp add: claimed_def held_def)
    then have "row_is i (\<lambda>r. row_nonce r = (?k, n)) (set_row i (no_fields\<lparr>f_tx_payload := Val tx\<rparr>) d)"
      by (rule row_is_set) (use that(2) in \<open>simp add: row_nonce_def sr_set_def no_fields_def\<close>)
    with that(1) show ?thesis by (simp add: charged_def claimed_set)
  qed
  show "charged X R i ?k n (set_row i (signed_fields x t) d)" if "charged X R i ?k n d" for d i n x t
    using that by (auto simp: charged_def claimed_set row_nonce_def sr_set_def signed_fields_def no_fields_def
      intro: row_is_set [where P = "\<lambda>r. row_nonce r = (?k, n)"])
  show "claimed X R i ?k [n] (set_row i (failed_fields reason ty) d)" if "charged X R i ?k n d" for d i n reason ty
    using that by (simp add: charged_def claimed_set)
  show "apart X R (d\<lparr>wallet_nonces := m\<rparr>)"
    if "claimed X R i ?k [n] d" "release_nonce (wallet_nonces d) ?k n = (b, m)" for d i n b m
  proof -
    have "live_ok m (taken (others_out i) d)"
      using that nonces.release_keeps [of "wallet_nonces d" "(?k, n) # taken (others_out i) d" ?k n b m]
      by (auto simp: claimed_def live_ok_def split: if_splits)
    with that(1) have "claimed X R i ?k [] (d\<lparr>wallet_nonces := m\<rparr>)" by (simp add: claimed_def)
    then show ?thesis by (rule claimed_apart)
  qed
  show "apart X R d" if "claimed X R i ?k [n] d" for d i n
    using that by (rule claimed_apart)
  show "apart X R (d\<lparr>wallet_nonces := m\<rparr>)"
    if "apart X R d" "sync_nonce (wallet_nonces d) ?k j = Inr m" for d j m
    using that nonces.sync_keeps [of "wallet_nonces d" "taken went_out d" ?k j m] by (simp add: apart_def)
  show "apart X R (set_row i (sent_fields t) d)" if "charged X R i ?k n d" for d i n t
    using that by (rule sent_apart) (simp add: sent_fields_def no_fields_def)
qed (simp_all add: apart_def)

section \<open>The audit log\<close>

definition recorded :: "db \<Rightarrow> signing_request \<Rightarrow> bool" where
  "recorded d r \<longleftrightarrow> (\<exists>e \<in> set (audit_log d). announces (sr_wallet_id r) (sr_id r) e)"

definition told :: "(signing_request \<Rightarrow> bool) \<Rightarrow> db \<Rightarrow> bool" where
  "told L d \<longleftrightarrow> (\<forall>r \<in> set (signing_requests d). L r \<longrightarrow> recorded d r)"

lemma told_nonces [simp]: "told L (d\<lparr>wallet_nonces := m\<rparr>) = told L d"
  by (simp add: told_def recorded_def)

lemma told_log: "told L d \<Longrightarrow> told L (log_entry e d)"
  by (auto simp: told_def recorded_def)

lemma told_set:
  assumes "told L d" and "\<And>r. sr_id r = i \<Longrightarrow> L (sr_set f b r) \<Longrightarrow> L r"
  shows "told L (signing_requests_update (map_row (\<lambda>r. sr_id r = i) (sr_set f b)) d)"
  using assms by (auto simp: told_def recorded_def set_map_row)

lemma told_fewer: "told went_out d \<Longrightarrow> told (others_out i) d"
  by (simp add: told_def)

lemma held_told: "held X R i k d \<Longrightarrow> told went_out d = told (others_out i) d"
  by (auto simp: told_def held_def row_is_def)

lemma held_done: "held X R i k d \<and> told (others_out i) d \<Longrightarrow> framed X R d \<and> told went_out d"
  using held_told [of X R i k d] by (simp add: held_def)

interpretation kept_told: signing_phases X v req "\<lambda>d. (v, req) \<in> R \<and> framed X R d \<and> told went_out d"
  "\<lambda>i d. held X R i (v, req_chainId req) d \<and> told (others_out i) d"
  "\<lambda>i n d. held X R i (v, req_chainId req) d \<and> told (others_out i) d"
  "\<lambda>i n d. held X R i (v, req_chainId req) d \<and> told (others_out i) d"
  "\<lambda>i n d. held X R i (v, req_chainId req) d \<and> told (others_out i) d"
  "\<lambda>i d. framed X R d \<and> told (others_out i) d \<and> row_is i (\<lambda>r. sr_wallet_id r = v) d"
  "\<lambda>d. framed X R d \<and> told went_out d"
  for X v req R
proof unfold_locales
  let ?k = "(v, req_chainId req)"
  have others: "told (others_out i) (set_row i f d)" if "told (others_out i) d" for i f d
    using that by (rule told_set) simp
  show "held X R (sr_id r) ?k (signing_requests_update (\<lambda>_. signing_requests d @ [r]) d) \<and>
      told (others_out (sr_id r)) (signing_requests_update (\<lambda>_. signing_requests d @ [r]) d)"
    if "(v, req) \<in> R \<and> framed X R d \<and> told went_out d" "row_of X (v, req) r" "sr_status r = ''pending''"
      "\<forall>s \<in> set (signing_requests d). \<not> signing_request_conflict s r" for d r
    using that held_created [of X R d v req r] by (auto simp: told_def recorded_def)
  show "held X R (sr_id r) ?k (set_row (sr_id r) reclaim_fields d) \<and> told (others_out (sr_id r)) (set_row (sr_id r) reclaim_fields d)"
    if "(v, req) \<in> R \<and> framed X R d \<and> told went_out d" "found_in (computeIdempotencyKey X v req) (Some r) d" for d r
    using that by (simp add: held_found others told_fewer)
  show "framed X R (set_row i (sent_fields t) d) \<and> told (others_out i) (set_row i (sent_fields t) d) \<and>
      row_is i (\<lambda>r. sr_wallet_id r = v) (set_row i (sent_fields t) d)"
    if "held X R i ?k d \<and> told (others_out i) d" for d i t
    using that by (auto simp: held_def intro!: others
      intro: row_is_set [where P = "\<lambda>r. \<not> went_out r \<and> (sr_wallet_id r, sr_chain_id r) = ?k"])
  show "framed X R (log_entry e d) \<and> told went_out (log_entry e d)"
    if "framed X R d \<and> told (others_out i) d \<and> row_is i (\<lambda>r. sr_wallet_id r = v) d" "announces v i e" for d i e
    using that by (auto simp: told_def recorded_def row_is_def)
  show "held X R i ?k (set_row i (no_fields\<lparr>f_tx_payload := Val tx\<rparr>) d) \<and> told (others_out i) (set_row i (no_fields\<lparr>f_tx_payload := Val tx\<rparr>) d)"
    if "held X R i ?k d \<and> told (others_out i) d" for d i tx
    using that by (simp add: held_set others)
  show "held X R i ?k (set_row i (signed_fields x t) d) \<and> told (others_out i) (set_row i (signed_fields x t) d)"
    if "held X R i ?k d \<and> told (others_out i) d" for d i x t
    using that by (simp add: held_set others)
  show "held X R i ?k (set_row i (failed_fields reason ty) d) \<and> told (others_out i) (set_row i (failed_fields reason ty) d)"
    if "held X R i ?k d \<and> told (others_out i) d" for d i reason ty
    using that by (simp add: held_set others)
  show "framed X R d \<and> told went_out d" if "held X R i ?k d \<and> told (others_out i) d" for d i
    using that by (rule held_done)
  show "framed X R d \<and> told went_out d" if "held X R i ?k d \<and> told (others_out i) d" for d i
    using that by (rule held_done)
  show "framed X R (d\<lparr>wallet_nonces := m\<rparr>) \<and> told went_out (d\<lparr>wallet_nonces := m\<rparr>)"
    if "held X R i ?k d \<and> told (others_out i) d" for d i m
    using held_done [OF that] by simp
qed (simp_all add: told_log)

section \<open>Cycles of the monitor\<close>

abbreviation out_or :: "string \<Rightarrow> signing_request \<Rightarrow> bool" where
  "out_or i r \<equiv> went_out r \<or> sr_id r = i"

text \<open>The row the monitor works on counts, whatever becomes of it.\<close>

lemma row_in_hand:
  assumes "framed X R d" and "request_row i d = Some row" and "sr_status row = ''broadcasted''" and "r \<in> set (signing_requests d)"
  shows "out_or i r = went_out r"
proof -
  have row: "row \<in> set (signing_requests d)" "sr_id row = i"
    using assms(2) by (auto simp: request_row_def dest: find_row_Some)
  have "r = row" if "sr_id r = i" using that row assms(1,4) by (auto simp: framed_def distinct_map dest: inj_onD)
  then show ?thesis using assms(3) by (auto simp: went_out_def)
qed

interpretation polled_apart: cycle_invariant "apart X R" "\<lambda>i d. framed X R d \<and> live_ok (wallet_nonces d) (taken (out_or i) d)" for X R
proof unfold_locales
  fix d :: db and i row and f :: sr_fields and blk
  show "distinct (map sr_id (signing_requests d))" if "apart X R d"
    using that by (simp add: apart_def framed_def)
  show "framed X R d \<and> live_ok (wallet_nonces d) (taken (out_or i) d)"
    if "apart X R d" "request_row i d = Some row" "sr_status row = ''broadcasted''"
  proof -
    have "filter (out_or i) (signing_requests d) = filter went_out (signing_requests d)"
      by (rule filter_cong [OF refl], rule row_in_hand [of X R d i row]) (use that in \<open>simp_all add: apart_def\<close>)
    then show ?thesis using that(1) by (simp add: apart_def taken_def)
  qed
  show "apart X R d" if "framed X R d \<and> live_ok (wallet_nonces d) (taken (out_or i) d)"
    using that by (auto simp: apart_def taken_def intro: live_ok_filter)
  show "framed X R (signing_requests_update (map_row (\<lambda>r. sr_id r = i) (sr_set f blk)) d) \<and>
      live_ok (wallet_nonces (signing_requests_update (map_row (\<lambda>r. sr_id r = i) (sr_set f blk)) d))
        (taken (out_or i) (signing_requests_update (map_row (\<lambda>r. sr_id r = i) (sr_set f blk)) d))"
    if "framed X R d \<and> live_ok (wallet_nonces d) (taken (out_or i) d)" "f_tx_payload f = Undefined"
  proof -
    have "taken (out_or i) (signing_requests_update (map_row (\<lambda>r. sr_id r = i) (sr_set f blk)) d) = taken (out_or i) d"
      using that(2) by (intro taken_set) (simp add: row_nonce_def sr_set_def)
    with that(1) show ?thesis by simp
  qed
qed

interpretation polled_told: cycle_invariant "\<lambda>d. framed X R d \<and> told went_out d" "\<lambda>i d. framed X R d \<and> told (out_or i) d" for X R
proof unfold_locales
  fix d :: db and i row and f :: sr_fields and blk
  show "distinct (map sr_id (signing_requests d))" if "framed X R d \<and> told went_out d"
    using that by (simp add: framed_def)
  show "framed X R d \<and> told (out_or i) d"
    if "framed X R d \<and> told went_out d" "request_row i d = Some row" "sr_status row = ''broadcasted''"
    using that row_in_hand [of X R d i row] by (simp add: told_def)
  show "framed X R d \<and> told went_out d" if "framed X R d \<and> told (out_or i) d"
    using that by (simp add: told_def)
  show "framed X R (signing_requests_update (map_row (\<lambda>r. sr_id r = i) (sr_set f blk)) d) \<and>
      told (out_or i) (signing_requests_update (map_row (\<lambda>r. sr_id r = i) (sr_set f blk)) d)"
    if "framed X R d \<and> told (out_or i) d" using that by (auto intro: told_set)
qed

section \<open>The service\<close>

text \<open>
  The calls follow one another; between two of them anything may change but the two
  tables, and the audit log only grows: the other tables, the clock, the configuration, the
  network, what the nodes know.
\<close>

inductive served :: "ext \<Rightarrow> (string \<times> sign_request) set \<Rightarrow> world \<Rightarrow> bool" for X R where
  opened: "quiet w \<Longrightarrow> signing_requests (w_db w) = [] \<Longrightarrow> served X R w"
| asked: "served X R w \<Longrightarrow> (v, req) \<in> R \<Longrightarrow> requestSign X orgId v req w = (r, w') \<Longrightarrow> served X R w'"
| polled: "served X R w \<Longrightarrow> runPoll w = (r, w') \<Longrightarrow> served X R w'"
| moved: "served X R w \<Longrightarrow> quiet w' \<Longrightarrow> signing_requests (w_db w') = signing_requests (w_db w) \<Longrightarrow>
    wallet_nonces (w_db w') = wallet_nonces (w_db w) \<Longrightarrow> set (audit_log (w_db w)) \<subseteq> set (audit_log (w_db w')) \<Longrightarrow>
    served X R w'"

lemma served_invariant:
  assumes "served X R w" and "keys_identify X R"
  shows "quiet w \<and> apart X R (w_db w) \<and> told went_out (w_db w)"
  using assms(1)
proof (induction rule: served.induct)
  case (opened w)
  with assms(2) show ?case by (simp add: apart_def framed_def taken_def live_ok_def told_def)
next
  case (asked w v req orgId r w')
  then have "holds (\<lambda>d. (v, req) \<in> R \<and> apart X R d) w" "holds (\<lambda>d. (v, req) \<in> R \<and> framed X R d \<and> told went_out d) w"
    by (simp_all add: holds_def apart_def)
  from leadsD [OF kept_apart.request_phases this(1) asked.hyps(3)] leadsD [OF kept_told.request_phases this(2) asked.hyps(3)]
  show ?case by (simp add: holds_def split: sum.splits)
next
  case (polled w r w')
  then show ?case
    using polled_apart.runPoll_keeps [of w X R] polled_told.runPoll_keeps [of w X R] by (simp add: apart_def)
next
  case (moved w w')
  then show ?case by (fastforce simp: apart_def framed_def taken_def told_def recorded_def)
qed

section \<open>What the digest must tell apart\<close>

text \<open>The text of which \<open>computeIdempotencyKey\<close> takes the digest.\<close>

definition key_text :: "string \<times> sign_request \<Rightarrow> string" where
  "key_text q = fst q @ '':'' @ show_int (req_chainId (snd q)) @ '':'' @ req_to (snd q) @ '':'' @
     req_value (snd q) @ '':'' @ req_data (snd q)"

lemma key_of_text: "computeIdempotencyKey X v req = sha256hex X (key_text (v, req))"
  by (simp add: computeIdempotencyKey_def key_text_def)

lemma upto_colon: "c \<notin> set a \<Longrightarrow> c \<notin> set b \<Longrightarrow> a @ c # x = b @ c # y \<Longrightarrow> a = b \<and> x = y"
proof (induction a arbitrary: b)
  case Nil
  then show ?case by (cases b) auto
next
  case (Cons z a)
  then show ?case by (cases b) auto
qed

lemma no_colon_in_digits: "is_digits s \<Longrightarrow> CHR '':'' \<notin> set s"
  by (auto simp: is_digits_def list_all_iff is_digit_def)

lemma no_colon_in_numbers: "CHR '':'' \<notin> set (show_int i)"
  using no_colon_in_digits [OF is_digits_show_nat] by (simp add: show_int_def)

lemma show_int_inject: "show_int i = show_int j \<Longrightarrow> i = j"
proof -
  have "CHR ''-'' # s \<noteq> show_nat n" for s n
    using is_digits_show_nat [of n] by (auto simp: is_digits_def is_digit_def dest: sym)
  then show "show_int i = show_int j \<Longrightarrow> i = j"
    by (auto simp: show_int_def split: if_splits dest: sym)
qed

text \<open>Identifiers of wallets have no colon: they are UUIDs.\<close>

lemma texts_identify:
  assumes "inj_on (sha256hex X) (key_text ` R)" and "\<forall>(v, req) \<in> R. CHR '':'' \<notin> set v"
  shows "keys_identify X R"
proof -
  have "v = v' \<and> req_chainId req = req_chainId req'"
    if "(v, req) \<in> R" "(v', req') \<in> R" "computeIdempotencyKey X v req = computeIdempotencyKey X v' req'" for v req v' req'
  proof -
    have "key_text (v, req) = key_text (v', req')"
      using that assms(1) unfolding key_of_text by (auto dest: inj_onD)
    then have t: "v @ CHR '':'' # (show_int (req_chainId req) @ CHR '':'' # (req_to req @ '':'' @ req_value req @ '':'' @ req_data req)) =
        v' @ CHR '':'' # (show_int (req_chainId req') @ CHR '':'' # (req_to req' @ '':'' @ req_value req' @ '':'' @ req_data req'))"
      by (simp add: key_text_def)
    have "CHR '':'' \<notin> set v" "CHR '':'' \<notin> set v'" using assms(2) that(1,2) by auto
    from upto_colon [OF this t] have "v = v'" and "show_int (req_chainId req) @ CHR '':'' # (req_to req @ '':'' @ req_value req @ '':'' @ req_data req) =
        show_int (req_chainId req') @ CHR '':'' # (req_to req' @ '':'' @ req_value req' @ '':'' @ req_data req')" by blast+
    with upto_colon [OF no_colon_in_numbers no_colon_in_numbers this(2)] show ?thesis
      by (blast dest: show_int_inject)
  qed
  then show ?thesis unfolding keys_identify_def by blast
qed

end
