(* ===== verification/ApiLife.thy ===== *)
theory ApiLife
  imports Bystanders ServiceRuns SampleChain
begin

text \<open>
  The running service seen from outside: any calls of the API, by anybody and with any
  answers of the nodes and of the signer, and cycles of the monitor, one after the other and while
  the database itself does not fail.  What was proved of requests and
  cycles (\<open>ServiceRuns\<close>) holds for it, since the other calls leave these tables alone
  (\<open>Bystanders\<close>).
\<close>

section \<open>Calls of a quiet world\<close>

lemma quiet_guards [preserves_intros]: "preserves quiet (guards E rt rq)"
  unfolding guards_def throttlerGuard_def scopesGuard_def stampVerifier_def verifyStamp_def checkExpiry_def
    checkSignature_def apiKey_findByKeyId_def apiKey_update_def Let_def
  by (intro preserves_intros | auto intro!: preserves_intros split: list.split bool.split)+

lemma quiet_runWith [preserves_intros]: "preserves quiet m \<Longrightarrow> preserves quiet (runWithRequestContext ctx m)"
  by (auto simp: preserves_def runWithRequestContext_def split: prod.split)
    (metis quiet_update(5) snd_conv)

lemma quiet_serve: "(\<And>rq' dto. preserves quiet (h rq' dto)) \<Longrightarrow> preserves quiet (serve E rt decode h rq)"
  unfolding serve_def by (intro preserves_intros)

lemma quiet_serve_org: "(\<And>orgId dto. preserves quiet (h orgId dto)) \<Longrightarrow> preserves quiet (serve_org E s decode h rq)"
  unfolding serve_org_def currentOrgId_def by (intro quiet_serve preserves_intros)

lemma quiet_wallets [preserves_intros]:
  "preserves quiet (not_null x)" "preserves quiet (onBoardOrganization orgId)"
  "preserves quiet (deriveLoop n orgId userId label c s i)" "preserves quiet (deriveWallet orgId userId label chainId)"
proof -
  show n: "preserves quiet (not_null x)" for x
    unfolding not_null_def by (intro preserves_intros)
  show "preserves quiet (onBoardOrganization orgId)"
    unfolding onBoardOrganization_def query_defs create_defs by (intro preserves_intros n)
  show loop: "preserves quiet (deriveLoop n orgId userId label c s i)" for n i s c
    by (induction n arbitrary: i)
      (auto simp: insertDerived_def wallet_countByOrgId_def wallet_create_def intro!: preserves_intros n)
  show "preserves quiet (deriveWallet orgId userId label chainId)"
    unfolding deriveWallet_def checkUser_def query_defs by (intro preserves_intros loop)
qed

lemma quiet_audit_query [preserves_intros]: "preserves quiet (audit_query G q)"
  unfolding audit_query_def by (rule quiet_stmt)

lemma quiet_keys [preserves_intros]:
  "preserves quiet (registerHandler E rq body)" "preserves quiet (listApiKeys orgId)"
  "preserves quiet (revokeApiKey orgId keyId)"
  unfolding registerHandler_def registerApiKey_def prepareRegistration_def authorizeRegistration_def
    validateBootstrapToken_def apiKey_hasScope_def insertApiKey_def finishRegistration_def
    resolveOrgIdFromBootstrapToken_def listApiKeys_def revokeApiKey_def Let_def query_defs create_defs Repositories.update_defs
  by (intro preserves_intros | simp split: option.split)+

lemma quiet_users [preserves_intros]: "preserves quiet (createUser orgId u)"
  unfolding createUser_def query_defs create_defs by (intro preserves_intros)

lemma quiet_signatures [preserves_intros]:
  "preserves quiet (signEip712 X orgId i req)" "preserves quiet (signPersonalMessage X orgId i m)"
  unfolding signEip712_def signPersonalMessage_def assertEip712Allowed_def checkDomainName_def checkChainId_def
    checkContract_def checkPrimaryType_def getCsv_def getBoolean_def loadWallet_def signAndLog_def Let_def query_defs
  by (intro preserves_intros)+

lemma quiet_perform:
  assumes "\<forall>i. c \<noteq> SignTransaction i"
  shows "preserves quiet (perform E c rq)"
  using assms unfolding organizations_create_def organizations_findOne_def
  by (cases c; simp only: perform.simps organizations_create_def organizations_findOne_def organizations_findBySlug_def
      organizations_listWallets_def organizations_listSigningRequests_def organizations_queryAuditLog_def
      apiKeys_register_def apiKeys_list_def apiKeys_revoke_def policies_create_def policies_list_def policies_delete_def
      users_create_def users_list_def users_get_def users_delete_def wallets_findOne_def wallets_listSigningRequests_def
      wallets_getSigningRequest_def wallets_derive_def wallets_signTyped_def wallets_signMessage_def
      createOrganization_def findOneOrganization_def findOrganizationBySlug_def orgs_listWalletsByOrgId_def
      orgs_listSigningRequestsByOrgId_def listWalletsByOrgId_def listSigningRequestsByOrgId_def generateBootstrapToken_def
      createPolicy_def listPolicies_def deletePolicy_def listUsers_def getUser_def
      deleteUser_def ownUser_def getWalletById_def listSigningRequestsByWalletId_def getSigningRequestById_def ownWallet_def
      currentOrgId_def query_defs create_defs Repositories.update_defs)
    (intro preserves_discard quiet_serve_org quiet_serve preserves_intros | simp)+

section \<open>The running service\<close>

text \<open>The transactions of the calls that sign one, with the wallet in the path of the route.\<close>

definition asks_to_sign :: "edge \<Rightarrow> api_call \<Rightarrow> request \<Rightarrow> (string \<times> sign_request) set" where
  "asks_to_sign E c rq = (case (c, parsedBody E rq) of
     (SignTransaction walletId, Inr j) \<Rightarrow> (case decode_SignTransaction (ed_checks E) j of
         Inr (Some req) \<Rightarrow> {(walletId, req)} | _ \<Rightarrow> {})
   | _ \<Rightarrow> {})"

text \<open>Between two calls time passes and the outside changes.\<close>

inductive operated :: "edge \<Rightarrow> (string \<times> sign_request) set \<Rightarrow> world \<Rightarrow> bool" for E R where
  started: "quiet w \<Longrightarrow> signing_requests (w_db w) = [] \<Longrightarrow> operated E R w"
| called: "operated E R w \<Longrightarrow> asks_to_sign E c rq \<subseteq> R \<Longrightarrow> perform E c rq w = (r, w') \<Longrightarrow> operated E R w'"
| cycled: "operated E R w \<Longrightarrow> runPoll w = (r, w') \<Longrightarrow> operated E R w'"
| elapsed: "operated E R w \<Longrightarrow> quiet w' \<Longrightarrow> w_db w' = w_db w \<Longrightarrow> operated E R w'"

lemma served_aside:
  assumes "served X R w" and "preserves quiet m" and "\<And>d0. preserves (stable (requests_as d0)) m" and "m w = (r, w')"
    and "quiet w"
  shows "served X R w'"
proof (rule served.moved [OF assms(1)])
  show "quiet w'" using preserves_runD [OF assms(2,4,5)] .
  have "stable (requests_as (w_db w)) w" using assms(5) by (rule quiet_stable) (simp add: requests_as_def)
  from stableD [OF preserves_runD [OF assms(3,4) this]]
  show "signing_requests (w_db w') = signing_requests (w_db w)" "wallet_nonces (w_db w') = wallet_nonces (w_db w)"
    "set (audit_log (w_db w)) \<subseteq> set (audit_log (w_db w'))" by (simp_all add: requests_as_def)
qed

lemma served_db: "served X R w \<Longrightarrow> quiet w' \<Longrightarrow> w_db w' = w_db w \<Longrightarrow> served X R w'"
  by (rule served.moved) auto

text \<open>A call that reaches its handler, and one that does not.\<close>

lemma serve_runs:
  assumes "serve E rt decode h rq w = (r, w')"
  shows "\<exists>g w1. guards E rt rq (w\<lparr>w_ctx := Some (request_context_of rq)\<rparr>) = (g, w1) \<and>
    (w_db w' = w_db w \<or> w_db w' = w_db w1 \<or>
     (\<exists>rq' j dto w2. parsedBody E rq = Inr j \<and> decode j = Inr dto \<and> h rq' dto w1 = (r, w2) \<and> w_db w' = w_db w2))"
proof -
  obtain g w1 where g: "guards E rt rq (w\<lparr>w_ctx := Some (request_context_of rq)\<rparr>) = (g, w1)" by fastforce
  show ?thesis
  proof (cases "parsedBody E rq")
    case (Inl e)
    with assms g show ?thesis by (auto simp: serve_def runWithRequestContext_def andThen_def lift_res_run)
  next
    case j: (Inr j)
    show ?thesis
    proof (cases g)
      case (Inl e)
      with assms j g show ?thesis by (auto simp: serve_def runWithRequestContext_def andThen_def lift_res_run)
    next
      case rq': (Inr rq')
      show ?thesis
      proof (cases "decode j")
        case (Inl e)
        with assms j g rq' show ?thesis by (auto simp: serve_def runWithRequestContext_def andThen_def lift_res_run)
      next
        case (Inr dto)
        obtain x w2 where h: "h rq' dto w1 = (x, w2)" by fastforce
        with assms j g rq' Inr have "x = r" "w_db w' = w_db w2"
          by (auto simp: serve_def runWithRequestContext_def andThen_def lift_res_run)
        with g j Inr h show ?thesis by blast
      qed
    qed
  qed
qed

lemma guards_aside: "preserves (stable (requests_as d0)) (guards E rt rq)"
  by (rule guards_keep) (simp add: requests_as_def)

lemma served_quiet: "served X R w \<Longrightarrow> keys_identify X R \<Longrightarrow> quiet w"
  by (simp add: served_invariant)

lemma quiet_requestSign [preserves_intros]: "preserves quiet (requestSign X orgId v req)"
proof -
  have "signing_phases X v req (\<lambda>_. True) (\<lambda>_ _. True) (\<lambda>_ _ _. True) (\<lambda>_ _ _. True) (\<lambda>_ _ _. True) (\<lambda>_ _. True) (\<lambda>_. True)"
    by unfold_locales
  from signing_phases.request_phases [OF this, of orgId] have "leads quiet (requestSign X orgId v req) (\<lambda>_. quiet) quiet"
    by (simp add: holds_def [abs_def])
  then show ?thesis by (simp only: leads_iff_preserves)
qed

lemma quiet_signTransaction: "preserves quiet (wallets_signTransaction E i rq)"
  unfolding wallets_signTransaction_def by (intro quiet_serve_org preserves_intros)

lemma sign_served:
  assumes "served (ed_ext E) R w" and "keys_identify (ed_ext E) R" and "asks_to_sign E (SignTransaction i) rq \<subseteq> R"
    and "wallets_signTransaction E i rq w = (r, w')"
  shows "served (ed_ext E) R w'"
proof -
  let ?w0 = "w\<lparr>w_ctx := Some (request_context_of rq)\<rparr>"
  let ?h = "\<lambda>orgId dto. case dto of
      None \<Rightarrow> throw (JsError ''Cannot read properties of undefined (reading chainId)'')
    | Some req \<Rightarrow> requestSign (ed_ext E) orgId i req"
  from serve_runs [OF assms(4) [unfolded wallets_signTransaction_def serve_org_def]] obtain g w1 where
    g: "guards E (scoped_route ''wallet:sign'') rq ?w0 = (g, w1)"
    and ends: "w_db w' = w_db w \<or> w_db w' = w_db w1 \<or>
      (\<exists>rq' j dto w2. parsedBody E rq = Inr j \<and> decode_SignTransaction (ed_checks E) j = Inr dto \<and>
        andThen (currentOrgId rq') (\<lambda>orgId. ?h orgId dto) w1 = (r, w2) \<and> w_db w' = w_db w2)" by blast
  have q: "quiet w" by (rule served_quiet [OF assms(1,2)])
  have q': "quiet w'" using preserves_runD [OF quiet_signTransaction assms(4) q] .
  have s0: "served (ed_ext E) R ?w0" by (rule served_db [OF assms(1)]) (simp_all add: q)
  have s1: "served (ed_ext E) R w1" by (rule served_aside [OF s0 quiet_guards guards_aside g]) (simp add: q)
  from ends show ?thesis
  proof (elim disjE exE conjE)
    assume "w_db w' = w_db w"
    then show ?thesis by (rule served_db [OF assms(1) q'])
  next
    assume "w_db w' = w_db w1"
    then show ?thesis by (rule served_db [OF s1 q'])
  next
    fix rq' j dto w2
    assume b: "parsedBody E rq = Inr j" "decode_SignTransaction (ed_checks E) j = Inr dto" and db: "w_db w' = w_db w2"
      and h: "andThen (currentOrgId rq') (\<lambda>orgId. ?h orgId dto) w1 = (r, w2)"
    have "served (ed_ext E) R w2"
    proof (cases "hr_user rq' = None \<or> dto = None")
      case True
      with h have "w2 = w1" by (auto simp: currentOrgId_def andThen_def run_defs split: option.splits)
      with s1 show ?thesis by simp
    next
      case False
      then obtain u req where u: "hr_user rq' = Some u" "dto = Some req" by auto
      with h have run: "requestSign (ed_ext E) (au_orgId u) i req w1 = (r, w2)"
        by (simp add: currentOrgId_def andThen_def ret_run)
      have "(i, req) \<in> R" using assms(3) b u(2) by (simp add: asks_to_sign_def)
      from served.asked [OF s1 this run] show ?thesis .
    qed
    then show ?thesis using q' db by (rule served_db)
  qed
qed

lemma discard_db: "discard m w = (r, w') \<Longrightarrow> \<exists>x. m w = (x, w')"
  by (auto simp: discard_def andThen_def ret_run split: prod.splits sum.splits)

lemma operated_served:
  assumes "operated E R w" and "keys_identify (ed_ext E) R"
  shows "served (ed_ext E) R w"
  using assms(1)
proof (induction rule: operated.induct)
  case (started w)
  from served.opened [OF started] show ?case .
next
  case (called w c rq r w')
  show ?case
  proof (cases "\<exists>i. c = SignTransaction i")
    case True
    then obtain i where c: "c = SignTransaction i" by blast
    from discard_db [OF called.hyps(3) [unfolded c perform.simps]] obtain x where
      "wallets_signTransaction E i rq w = (x, w')" by (elim exE)
    from sign_served [OF called.IH assms(2) called.hyps(2) [unfolded c] this] show ?thesis .
  next
    case False
    then have "\<forall>i. c \<noteq> SignTransaction i" by blast
    from served_aside [OF called.IH quiet_perform [OF this] same_requests.perform_aside [OF this] called.hyps(3)
        served_quiet [OF called.IH assms(2)]] show ?thesis .
  qed
next
  case (cycled w r w')
  from served.polled [OF cycled.IH cycled.hyps(2)] show ?case .
next
  case (elapsed w w')
  from served_db [OF elapsed.IH elapsed.hyps(2,3)] show ?case .
qed

section \<open>An example\<close>

text \<open>
  A key may sign for one wallet; two stamped requests ask for two transactions, and the
  node answers but mines nothing.
\<close>

definition tx_body :: "string \<Rightarrow> json" where
  "tx_body amount = JObj [(''txFields'', JObj [(''chainId'', JNum 1), (''to'', JStr ''0xto''),
     (''value'', JStr amount), (''data'', JStr ''0x'')])]"

definition two_body_edge :: edge where
  "two_body_edge = sample_edge\<lparr>ed_parseBody := (\<lambda>s. Some (tx_body (if s = sample_body then ''5'' else ''6'')))\<rparr>"

definition second_request :: request where
  "second_request = stamped_request\<lparr>hr_rawBody := Some ''c''\<rparr>"

definition started_world :: world where
  "started_world = calm_world ((sample_db [sample_limit] [])\<lparr>api_keys := [signing_key]\<rparr>) stuck_net sample_env 1000"

definition operated_world :: world where
  "operated_world = snd (runPoll (snd (perform two_body_edge (SignTransaction ''w'') second_request
     (snd (perform two_body_edge (SignTransaction ''w'') stamped_request started_world)))))"

abbreviation asked_requests :: "(string \<times> sign_request) set" where
  "asked_requests \<equiv> {(''w'', sample_request), (''w'', sample_request\<lparr>req_value := ''6''\<rparr>)}"

lemma operated_run: "operated two_body_edge asked_requests operated_world"
proof -
  have asks: "asks_to_sign two_body_edge (SignTransaction ''w'') stamped_request \<subseteq> asked_requests"
    "asks_to_sign two_body_edge (SignTransaction ''w'') second_request \<subseteq> asked_requests" by code_simp+
  have "operated two_body_edge asked_requests started_world"
    by (rule operated.started) (simp_all add: started_world_def calm_world_def quiet_def sample_db_def empty_db_def)
  from operated.called [OF this asks(1) surjective_pairing] have "operated two_body_edge asked_requests
      (snd (perform two_body_edge (SignTransaction ''w'') stamped_request started_world))" .
  from operated.called [OF this asks(2) surjective_pairing] have "operated two_body_edge asked_requests
      (snd (perform two_body_edge (SignTransaction ''w'') second_request
        (snd (perform two_body_edge (SignTransaction ''w'') stamped_request started_world))))" .
  from operated.cycled [OF this surjective_pairing] show ?thesis by (simp only: operated_world_def)
qed

lemma asked_keys: "inj_on (sha256hex (ed_ext two_body_edge)) (key_text ` asked_requests)"
  by (simp add: two_body_edge_def sample_edge_def lenient_ext_def sample_ext_def)

text \<open>Both rows are broadcasted in the end.\<close>

lemma operated_rows: "map (\<lambda>r. (sr_id r, row_nonce r)) (filter went_out (signing_requests (w_db operated_world))) =
    [(''id0'', ((''w'', 1), 0)), (''id1'', ((''w'', 1), 1))]"
  by code_simp

section \<open>Properties\<close>

text \<open>
  C6. Over the whole life of the service no two transactions share a nonce.  From an empty table of requests,
  and while its calls follow one another and no statement of the database fails: after any number of
  calls of any route by anybody, with whatever failures and retries, resets of the counter to the chain and
  answers of the signer and the nodes, and any number of cycles of the monitor in between, the rows
  that are broadcasted, confirmed or dropped have pairwise distinct nonces within a wallet and
  chain, each below the counter.  The digest must not collide on the transactions that were asked
  for, and the identifiers of their wallets have no colon.
\<close>

theorem nonces_stay_apart_for_life:
  assumes "operated E R w" and "inj_on (sha256hex (ed_ext E)) (key_text ` R)" and "\<forall>(v, req) \<in> R. CHR '':'' \<notin> set v"
  shows "distinct (map row_nonce (filter went_out (signing_requests (w_db w)))) \<and>
    list_all (\<lambda>r. case wallet_nonces (w_db w) (sr_wallet_id r, sr_chain_id r) of None \<Rightarrow> False
      | Some c \<Rightarrow> snd (row_nonce r) < c) (filter went_out (signing_requests (w_db w)))"
proof -
  have keys: "keys_identify (ed_ext E) R" by (rule texts_identify [OF assms(2,3)])
  from served_invariant [OF operated_served [OF assms(1) keys] keys] show ?thesis
    by (fastforce simp: apart_def live_ok_def taken_def list_all_iff row_nonce_def)
qed

theorem nonces_stay_apart_for_life_witness:
  "distinct (map row_nonce (filter went_out (signing_requests (w_db operated_world)))) \<and>
   map row_nonce (filter went_out (signing_requests (w_db operated_world))) = [((''w'', 1), 0), ((''w'', 1), 1)]"
proof -
  have "distinct (map row_nonce (filter went_out (signing_requests (w_db operated_world))))"
    using nonces_stay_apart_for_life [OF operated_run asked_keys] by simp
  moreover have "map row_nonce (filter went_out (signing_requests (w_db operated_world))) = [((''w'', 1), 0), ((''w'', 1), 1)]"
    using arg_cong [OF operated_rows, of "map snd"] by (simp add: comp_def)
  ultimately show ?thesis by blast
qed

text \<open>
  C7. Every transaction that went out is in the audit log.  In the same runs, which no failure of
  the database disturbs, also where calls are refused or the signer or a node fails, each row that is
  broadcasted, confirmed or dropped has an entry \<open>tx_signed\<close> for its wallet that names it.
  (A failure of the insertion of the entry itself, after the broadcast, would leave it out.)
\<close>

theorem sent_transactions_are_audited:
  assumes "operated E R w" and "inj_on (sha256hex (ed_ext E)) (key_text ` R)" and "\<forall>(v, req) \<in> R. CHR '':'' \<notin> set v"
  shows "list_all (\<lambda>r. list_ex (\<lambda>e. a_event e = ''tx_signed'' \<and> a_wallet_id e = Some (sr_wallet_id r) \<and>
      (case a_metadata e of None \<Rightarrow> False | Some m \<Rightarrow> get_prop ''signingRequestId'' m = Some (JStr (sr_id r))))
      (audit_log (w_db w))) (filter went_out (signing_requests (w_db w)))"
proof -
  have keys: "keys_identify (ed_ext E) R" by (rule texts_identify [OF assms(2,3)])
  from served_invariant [OF operated_served [OF assms(1) keys] keys] show ?thesis
    by (auto simp: told_def recorded_def announces_def list_all_iff list_ex_iff)
qed

theorem sent_transactions_are_audited_witness:
  "list_ex (\<lambda>e. a_event e = ''tx_signed'' \<and> a_wallet_id e = Some ''w'' \<and>
      (case a_metadata e of None \<Rightarrow> False | Some m \<Rightarrow> get_prop ''signingRequestId'' m = Some (JStr ''id1'')))
      (audit_log (w_db operated_world))"
proof -
  have "(''id1'', ((''w'', 1), 1)) \<in> (\<lambda>r. (sr_id r, row_nonce r)) ` set (filter went_out (signing_requests (w_db operated_world)))"
    unfolding set_map [symmetric] operated_rows by simp
  then obtain r where r: "r \<in> set (filter went_out (signing_requests (w_db operated_world)))" "sr_id r = ''id1''" "sr_wallet_id r = ''w''"
    by (auto simp: row_nonce_def)
  have "list_all (\<lambda>r. list_ex (\<lambda>e. a_event e = ''tx_signed'' \<and> a_wallet_id e = Some (sr_wallet_id r) \<and>
      (case a_metadata e of None \<Rightarrow> False | Some m \<Rightarrow> get_prop ''signingRequestId'' m = Some (JStr (sr_id r))))
      (audit_log (w_db operated_world))) (filter went_out (signing_requests (w_db operated_world)))"
    by (rule sent_transactions_are_audited [OF operated_run asked_keys]) simp
  from bspec [OF this [unfolded list_all_iff] r(1)] show ?thesis by (simp only: r(2,3))
qed

end
