(* ===== verification/Derivation.thy ===== *)
theory Derivation
  imports SigningRuns Triples
begin

text \<open>
  The wallets of an organization (\<open>onBoardOrganization\<close> and \<open>deriveWallet\<close>) when several
  requests derive at the same time: the index of the next wallet is read in one statement
  and used in another, and only the unique index on the path keeps two of them apart.
\<close>

section \<open>Wallets without gaps\<close>

text \<open>The path the documentation of the signer gives for an index.\<close>

definition account_path :: "nat \<Rightarrow> string" where
  "account_path i = ''m/44'/60'/0'/0/'' @ show_nat i"

definition org_wallets :: "string \<Rightarrow> db \<Rightarrow> wallet list" where
  "org_wallets orgId d = filter (\<lambda>r. wl_org_id r = orgId) (wallets d)"

text \<open>The wallets of every organization are those of the indices 0, 1, 2 and so on.\<close>

definition no_gaps :: "db \<Rightarrow> bool" where
  "no_gaps d \<longleftrightarrow> (\<forall>orgId. map wl_derivation_path (org_wallets orgId d) =
     map account_path [0..<length (org_wallets orgId d)])"

text \<open>What the other requests may do: insert wallets, as long as they leave no gap.\<close>

definition wallets_grow :: "world \<Rightarrow> bool" where
  "wallets_grow w \<longleftrightarrow> (\<forall>n \<ge> w_stmts w. \<forall>d. no_gaps d \<longrightarrow>
     no_gaps (w_sched w n d) \<and> set (wallets d) \<subseteq> set (wallets (w_sched w n d)))"

text \<open>The documented promise of the signer: a reply for an index names the path of that index.\<close>

definition derives_by_index :: "world \<Rightarrow> bool" where
  "derives_by_index w \<longleftrightarrow> (\<forall>n url token s i j p.
     crypto_reply ''/wallet/derive'' (w_net w n (crypto_request url token ''/wallet/derive''
       (derive_body s (int i)))) = Inr j \<longrightarrow>
     reply_prop ''derivationPath'' j = Some p \<longrightarrow> p = account_path i)"

lemma account_path_inject [simp]: "account_path i = account_path j \<longleftrightarrow> i = j"
  by (simp add: account_path_def)

lemma account_path_0: "account_path 0 = ''m/44'/60'/0'/0/0''"
proof -
  have "show_nat 0 = ''0''" by code_simp
  then show ?thesis by (simp add: account_path_def)
qed

lemma org_wallets_insert:
  "org_wallets orgId (wallets_update (\<lambda>_. wallets d @ [x]) d) =
    org_wallets orgId d @ (if wl_org_id x = orgId then [x] else [])"
  by (simp add: org_wallets_def)

lemma no_gaps_other [simp]: "no_gaps (audit_log_update g d) = no_gaps d"
  "no_gaps (organization_seeds_update h d) = no_gaps d"
  by (simp_all add: no_gaps_def org_wallets_def)

text \<open>
  An insert at an index that is not past the end either meets the wallet that is there
  or extends the row by exactly one.
\<close>

lemma insert_at_the_end:
  assumes "no_gaps d" and "i \<le> length (org_wallets (wl_org_id x) d)" and "wl_derivation_path x = account_path i"
    and "\<forall>y \<in> set (wallets d). \<not> wallet_conflict y x"
  shows "no_gaps (wallets_update (\<lambda>_. wallets d @ [x]) d)"
proof -
  let ?ws = "org_wallets (wl_org_id x) d"
  have paths: "map wl_derivation_path ?ws = map account_path [0..<length ?ws]"
    using assms(1) by (simp add: no_gaps_def)
  have "\<not> i < length ?ws"
  proof
    assume i: "i < length ?ws"
    from arg_cong [OF paths, of "\<lambda>l. l ! i"] i have "wl_derivation_path (?ws ! i) = account_path i" by simp
    moreover from i have "?ws ! i \<in> set ?ws" by simp
    ultimately show False using assms(3,4) by (auto simp: org_wallets_def wallet_conflict_def)
  qed
  with assms(2) have "i = length ?ws" by simp
  with assms(1,3) paths show ?thesis by (auto simp: no_gaps_def org_wallets_insert)
qed

section \<open>The calls\<close>

text \<open>The state between two statements, with at least so many wallets of the organization.\<close>

definition tidy :: "string \<Rightarrow> nat \<Rightarrow> world \<Rightarrow> bool" where
  "tidy orgId n w \<longleftrightarrow> no_gaps (w_db w) \<and> wallets_grow w \<and> derives_by_index w \<and>
     n \<le> length (org_wallets orgId (w_db w))"

lemma org_wallets_grow:
  assumes "no_gaps d" and "no_gaps d'" and "set (wallets d) \<subseteq> set (wallets d')"
  shows "length (org_wallets orgId d) \<le> length (org_wallets orgId d')"
proof -
  have paths: "wl_derivation_path ` set (org_wallets orgId d) = account_path ` {0..<length (org_wallets orgId d)}"
    if "no_gaps d" for d
    using that by (metis list.set_map no_gaps_def set_upt)
  have "set (org_wallets orgId d) \<subseteq> set (org_wallets orgId d')"
    using assms(3) by (auto simp: org_wallets_def)
  then have "account_path ` {0..<length (org_wallets orgId d)} \<subseteq> account_path ` {0..<length (org_wallets orgId d')}"
    unfolding paths [OF assms(1), symmetric] paths [OF assms(2), symmetric] by (rule image_mono)
  then have "{0..<length (org_wallets orgId d)} \<subseteq> {0..<length (org_wallets orgId d')}"
    by (auto simp: image_subset_iff image_iff)
  then show ?thesis by (simp add: atLeast0LessThan)
qed

text \<open>The same, and the wallets that have been stored are still there.\<close>

definition kept :: "wallet set \<Rightarrow> string \<Rightarrow> nat \<Rightarrow> world \<Rightarrow> bool" where
  "kept X orgId n w \<longleftrightarrow> tidy orgId n w \<and> X \<subseteq> set (wallets (w_db w))"

lemma kept_turn:
  assumes "kept X orgId n w"
  shows "kept X orgId n (turn w)"
proof -
  let ?d = "w_sched w (w_stmts w) (w_db w)"
  have "no_gaps ?d" "set (wallets (w_db w)) \<subseteq> set (wallets ?d)"
    using assms by (simp_all add: kept_def tidy_def wallets_grow_def)
  moreover from this have "X \<subseteq> set (wallets ?d)" using assms by (auto simp: kept_def)
  moreover have "no_gaps (w_db w)" using assms by (simp add: kept_def tidy_def)
  ultimately show ?thesis using assms org_wallets_grow [of "w_db w" ?d orgId]
    by (auto simp: kept_def tidy_def wallets_grow_def derives_by_index_def turn_def)
qed

lemma kept_simps [simp]:
  "kept X orgId n (w\<lparr>w_reads := k\<rparr>) = kept X orgId n w" "kept X orgId n (w\<lparr>w_draws := k\<rparr>) = kept X orgId n w"
  "kept X orgId n (w\<lparr>w_sent := rs\<rparr>) = kept X orgId n w"
  by (simp_all add: kept_def tidy_def wallets_grow_def derives_by_index_def)

lemma kept_weaken: "kept X orgId n w \<Longrightarrow> m \<le> n \<Longrightarrow> kept X orgId m w"
  "kept (insert y X) orgId n w \<Longrightarrow> kept X orgId n w"
  by (auto simp: kept_def tidy_def)

lemma leads_stmt_kept:
  assumes "\<And>w v d. kept X orgId n w \<Longrightarrow> f (w_db w) = Inr (v, d) \<Longrightarrow> Q v (w\<lparr>w_db := d\<rparr>)"
  shows "leads (kept X orgId n) (stmt f) Q (kept X orgId n)"
  using kept_turn assms by (rule leads_stmt)

lemma kept_stmt:
  assumes "\<And>d v d'. f d = Inr (v, d') \<Longrightarrow> wallets d' = wallets d"
  shows "preserves (kept X orgId n) (stmt f)"
  unfolding leads_iff_preserves [symmetric]
  by (rule leads_stmt_kept)
    (use assms in \<open>simp add: kept_def tidy_def wallets_grow_def derives_by_index_def no_gaps_def org_wallets_def\<close>)

lemma kept_query [preserves_intros]: "preserves (kept X orgId n) (query f)"
  unfolding query_def by (rule kept_stmt) auto

lemma kept_primitives [preserves_intros]:
  "preserves (kept X orgId n) now" "preserves (kept X orgId n) randomUUID" "preserves (kept X orgId n) (config_get k)"
  "preserves (kept X orgId n) (fetch rq)" "preserves (kept X orgId n) getRequestContext"
  by (simp_all add: preserves_def now_def randomUUID_def config_get_def fetch_def getRequestContext_def)

lemma kept_calls [preserves_intros]:
  "preserves (kept X orgId n) crypto_onModuleInit"
  "preserves (kept X orgId n) (audit_create a b c e s m)"
  "preserves (kept X orgId n) (seed_create og es sn ed)"
  "preserves (kept X orgId n) (post path body)"
  "preserves (kept X orgId n) (not_null z)"
  unfolding audit_create_def seed_create_def create_row_def post_def crypto_onModuleInit_def getOrThrow_def not_null_def
  by (intro preserves_intros kept_stmt; auto simp: Let_def split: sum.splits)+

section \<open>Onboarding and derivation\<close>

lemma leads_count:
  "leads (kept X orgId n) (wallet_countByOrgId orgId) (\<lambda>i w. \<exists>k. i = int k \<and> kept X orgId k w) (kept X orgId n)"
  unfolding wallet_countByOrgId_def query_def
  by (rule leads_stmt_kept) (auto simp: kept_def tidy_def org_wallets_def)

lemma leads_wallet:
  "leads (kept X orgId i) (wallet_create orgId userId label address (account_path i) c)
     (\<lambda>x w. kept (insert x X) orgId 0 w \<and> wl_org_id x = orgId \<and> wl_user_id x = userId \<and> wl_label x = label \<and>
       wl_address x = address \<and> wl_chain_id x = c) (kept X orgId i)"
proof -
  let ?mk = "\<lambda>rowId t. \<lparr>wl_id = rowId, wl_org_id = orgId, wl_user_id = userId, wl_label = label,
    wl_address = address, wl_derivation_path = account_path i, wl_chain_id = c, wl_status = ''active'',
    wl_created_at = t, wl_updated_at = t\<rparr>"
  have stored: "kept (insert x X) orgId 0 (w\<lparr>w_db := wallets_update (\<lambda>_. wallets d @ [x]) d\<rparr>)"
    if "kept X orgId i w" "w_db w = d" "\<forall>y \<in> set (wallets d). \<not> wallet_conflict y x"
      "wl_org_id x = orgId" "wl_derivation_path x = account_path i" for x w d
    using that insert_at_the_end [of d i x]
    by (simp add: subset_insertI2 kept_def tidy_def wallets_grow_def derives_by_index_def)
  have "leads (kept X orgId i) (stmt (\<lambda>d. case insert_row wallet_conflict (?mk rowId t) (wallets d) of
      Inl e \<Rightarrow> Inl e | Inr rs \<Rightarrow> Inr (?mk rowId t, wallets_update (\<lambda>_. rs) d)))
     (\<lambda>x w. kept (insert x X) orgId 0 w \<and> wl_org_id x = orgId \<and> wl_user_id x = userId \<and> wl_label x = label \<and>
       wl_address x = address \<and> wl_chain_id x = c) (kept X orgId i)" for rowId t
    by (rule leads_stmt_kept) (auto simp: insert_row_Inr intro!: stored split: sum.splits)
  then show ?thesis
    unfolding wallet_create_def create_row_def
    by (intro leads_then [OF leads_preserves] kept_primitives)
qed

lemma leads_derive:
  "leads (kept X orgId n) (crypto_deriveWallet s (int i))
     (\<lambda>r w. kept X orgId n w \<and> (\<forall>p. dw_derivationPath r = Some p \<longrightarrow> p = account_path i)) (kept X orgId n)"
proof -
  let ?Q = "\<lambda>j w. kept X orgId n w \<and> (\<forall>p. reply_prop ''derivationPath'' j = Some p \<longrightarrow> p = account_path i)"
  have "leads (kept X orgId n) (andThen (fetch (crypto_request u t ''/wallet/derive'' (derive_body s (int i))))
      (\<lambda>r. lift_res (crypto_reply ''/wallet/derive'' r))) ?Q (kept X orgId n)" for u t
    by (auto simp: leads_def wp_simps kept_def tidy_def derives_by_index_def wallets_grow_def split: sum.split)
  then have "leads (kept X orgId n) (post ''/wallet/derive'' (derive_body s (int i))) ?Q (kept X orgId n)"
    unfolding post_def by (intro leads_then [OF leads_preserves]) (auto intro: preserves_intros split: prod.split)
  then show ?thesis
    unfolding crypto_deriveWallet_def not_null_reply_def
    by (rule leads_then) (auto simp: leads_def wp_simps)
qed

text \<open>A wallet as it was asked for.\<close>

definition wallet_as_asked :: "string \<Rightarrow> string option \<Rightarrow> string \<Rightarrow> int \<Rightarrow> string \<times> string \<Rightarrow> wallet \<Rightarrow> bool" where
  "wallet_as_asked orgId userId label c r x \<longleftrightarrow> r = (wl_id x, wl_address x) \<and> wl_org_id x = orgId \<and>
     wl_user_id x = userId \<and> wl_label x = Some label \<and> wl_chain_id x = c"

lemma leads_kept_weaken:
  assumes "leads P m Q (kept X orgId i)"
  shows "leads P m Q (kept X orgId 0)"
  by (rule leads_mono [OF assms]) (auto intro: kept_weaken)

lemma not_null_then: "andThen (not_null z) f = (case z of
    None \<Rightarrow> refuse (PgError ''23502'' ''null value violates not-null constraint'') | Some v \<Rightarrow> f v)"
  by (simp add: not_null_def split: option.split)

lemma leads_audited:
  "leads (kept X orgId 0) (andThen (audit_create b u i e st m) (\<lambda>_. ret v)) (\<lambda>r w. kept X orgId 0 w \<and> r = v) (kept X orgId 0)"
  by (rule leads_then [OF leads_preserves [OF kept_calls(2)]]) (simp add: leads_def wp_simps)

lemma leads_insert:
  assumes "\<And>p. dw_derivationPath d = Some p \<Longrightarrow> p = account_path i"
  shows "leads (kept X orgId i) (insertDerived orgId userId label c d)
    (\<lambda>r w. \<exists>x. wallet_as_asked orgId userId label c r x \<and> kept (insert x X) orgId 0 w) (kept X orgId 0)"
proof -
  let ?Q = "\<lambda>r w. \<exists>x. wallet_as_asked orgId userId label c r x \<and> kept (insert x X) orgId 0 w"
  have audit: "leads (\<lambda>w. kept (insert x X) orgId 0 w \<and> wl_org_id x = orgId \<and> wl_user_id x = userId \<and>
        wl_label x = Some label \<and> wl_address x = a \<and> wl_chain_id x = c)
      (andThen (audit_create orgId userId (Some (wl_id x)) ''wallet_created'' ''success'' None) (\<lambda>_. ret (wl_id x, a)))
      ?Q (kept X orgId 0)" for x a
  proof (rule leads_given)
    assume x: "wl_org_id x = orgId \<and> wl_user_id x = userId \<and> wl_label x = Some label \<and> wl_address x = a \<and> wl_chain_id x = c"
    show "leads (kept (insert x X) orgId 0) (andThen (audit_create orgId userId (Some (wl_id x)) ''wallet_created'' ''success'' None)
        (\<lambda>_. ret (wl_id x, a))) ?Q (kept X orgId 0)"
      by (rule leads_mono [OF leads_audited [where X = "insert x X"]]) (use x kept_weaken(2) in \<open>auto simp: wallet_as_asked_def\<close>)
  qed
  have "leads (kept X orgId i) (wallet_create orgId userId (Some label) a p c)
      (\<lambda>x w. kept (insert x X) orgId 0 w \<and> wl_org_id x = orgId \<and> wl_user_id x = userId \<and>
        wl_label x = Some label \<and> wl_address x = a \<and> wl_chain_id x = c) (kept X orgId 0)"
    if "p = account_path i" for p a
    unfolding that by (rule leads_kept_weaken [OF leads_wallet])
  from leads_then [OF this audit] have insert: "p = account_path i \<Longrightarrow> leads (kept X orgId i)
      (andThen (wallet_create orgId userId (Some label) a p c) (\<lambda>x. andThen (audit_create orgId userId (Some (wl_id x))
        ''wallet_created'' ''success'' None) (\<lambda>_. ret (wl_id x, a)))) ?Q (kept X orgId 0)" for p a .
  show ?thesis
  proof (cases "dw_address d = None \<or> dw_derivationPath d = None")
    case True
    then show ?thesis
      unfolding insertDerived_def not_null_then by (auto simp: leads_def wp_simps intro: kept_weaken split: option.split)
  next
    case False
    then obtain a p where "dw_address d = Some a" "dw_derivationPath d = Some p" by auto
    with insert [OF assms] show ?thesis by (simp add: insertDerived_def not_null_then)
  qed
qed

lemma leads_deriveLoop:
  "leads (kept X orgId i) (deriveLoop n orgId userId label c s (int i))
    (\<lambda>r w. \<exists>x. wallet_as_asked orgId userId label c r x \<and> kept (insert x X) orgId 0 w) (kept X orgId 0)"
proof (induction n arbitrary: i)
  case 0
  show ?case by (auto simp: leads_def wp_simps intro: kept_weaken)
next
  case (Suc n)
  let ?Q = "\<lambda>r w. \<exists>x. wallet_as_asked orgId userId label c r x \<and> kept (insert x X) orgId 0 w"
  have again: "leads (kept X orgId 0) (andThen (wallet_countByOrgId orgId) (deriveLoop n orgId userId label c s))
      ?Q (kept X orgId 0)"
    by (rule leads_then [OF leads_count]) (use Suc.IH in \<open>auto simp: leads_def\<close>)
  have "leads (\<lambda>w. kept X orgId i w \<and> (\<forall>p. dw_derivationPath d = Some p \<longrightarrow> p = account_path i))
      (catch (insertDerived orgId userId label c d) (\<lambda>err. if \<not> is_unique_violation err then throw err
       else if n = 0 then throw derive_conflict
       else andThen (wallet_countByOrgId orgId) (deriveLoop n orgId userId label c s))) ?Q (kept X orgId 0)" for d
    by (intro leads_given leads_catch [OF leads_insert]) (simp_all add: leads_throw again)
  then show ?case
    unfolding deriveLoop.simps by (rule leads_then [OF leads_kept_weaken [OF leads_derive]])
qed

lemma leads_deriveWallet:
  fixes chainId
  defines "c \<equiv> case chainId of None \<Rightarrow> 1 | Some c \<Rightarrow> c"
  shows "leads (kept X orgId 0) (deriveWallet orgId userId label chainId)
    (\<lambda>r w. \<exists>x. wallet_as_asked orgId userId label c r x \<and> kept (insert x X) orgId 0 w) (kept X orgId 0)"
proof -
  have user: "preserves (kept X orgId 0) (checkUser orgId userId)"
    unfolding checkUser_def user_findById_def by (intro preserves_intros)
  have loop: "leads (kept X orgId 0) (andThen (wallet_countByOrgId orgId) (deriveLoop 3 orgId userId label c s))
      (\<lambda>r w. \<exists>x. wallet_as_asked orgId userId label c r x \<and> kept (insert x X) orgId 0 w) (kept X orgId 0)" for s
    by (rule leads_then [OF leads_count]) (use leads_deriveLoop in \<open>auto simp: leads_def\<close>)
  show ?thesis
    unfolding deriveWallet_def seed_findByOrgId_def c_def [symmetric]
    by (rule leads_then [OF leads_preserves [OF kept_query]])
      (simp add: leads_throw leads_then [OF leads_preserves [OF user] loop] split: option.split)
qed

lemma leads_onboard:
  "leads (kept X orgId 0) (onBoardOrganization orgId)
    (\<lambda>r w. \<exists>x. wl_org_id x = orgId \<and> r = (orgId, wl_address x) \<and> kept (insert x X) orgId 0 w) (kept X orgId 0)"
proof -
  let ?Q = "\<lambda>r w. \<exists>x. wl_org_id x = orgId \<and> r = (orgId, wl_address x) \<and> kept (insert x X) orgId 0 w"
  have audit: "leads (\<lambda>w. kept (insert x X) orgId 0 w \<and> wl_org_id x = orgId \<and> wl_user_id x = None \<and>
        wl_label x = None \<and> wl_address x = a \<and> wl_chain_id x = 1)
      (andThen (audit_create orgId None None ''org_onboarded'' ''success'' None) (\<lambda>_. ret (orgId, a)))
      ?Q (kept X orgId 0)" for x a
  proof (rule leads_given)
    assume x: "wl_org_id x = orgId \<and> wl_user_id x = None \<and> wl_label x = None \<and> wl_address x = a \<and> wl_chain_id x = 1"
    show "leads (kept (insert x X) orgId 0) (andThen (audit_create orgId None None ''org_onboarded'' ''success'' None)
        (\<lambda>_. ret (orgId, a))) ?Q (kept X orgId 0)"
      by (rule leads_mono [OF leads_audited [where X = "insert x X"]]) (use x kept_weaken(2) in auto)
  qed
  from leads_then [OF leads_wallet [where i = 0] audit]
  have first: "leads (kept X orgId 0) (andThen (wallet_create orgId None None a ''m/44'/60'/0'/0/0'' 1)
      (\<lambda>_. andThen (audit_create orgId None None ''org_onboarded'' ''success'' None) (\<lambda>_. ret (orgId, a))))
      ?Q (kept X orgId 0)" for a
    by (simp add: account_path_0)
  have create: "preserves (kept X orgId 0) crypto_createWallet"
    unfolding crypto_createWallet_def not_null_reply_def by (intro preserves_intros)
  show ?thesis
    unfolding onBoardOrganization_def seed_findByOrgId_def
    by (rule leads_then [OF leads_preserves [OF kept_query]])
      (simp add: leads_throw leads_then [OF leads_preserves [OF create]] leads_then [OF leads_preserves [OF kept_calls(5)]]
        leads_then [OF leads_preserves [OF kept_calls(3)]] first)
qed

section \<open>Deriving beside others\<close>

lemma wallets_without_gaps:
  assumes "no_gaps (w_db w)" and "wallets_grow w" and "derives_by_index w"
  shows "deriveWallet orgId userId label chainId w = (r, w') \<Longrightarrow> no_gaps (w_db w') \<and>
      set (wallets (w_db w)) \<subseteq> set (wallets (w_db w')) \<and> (case r of Inl e \<Rightarrow> True
      | Inr v \<Rightarrow> \<exists>x \<in> set (wallets (w_db w')).
          wallet_as_asked orgId userId label (case chainId of None \<Rightarrow> 1 | Some c \<Rightarrow> c) v x)"
    and "onBoardOrganization orgId w = (r', w'') \<Longrightarrow> no_gaps (w_db w'') \<and>
      set (wallets (w_db w)) \<subseteq> set (wallets (w_db w''))"
proof -
  have w: "kept (set (wallets (w_db w))) orgId 0 w" using assms by (simp add: kept_def tidy_def)
  show "no_gaps (w_db w') \<and> set (wallets (w_db w)) \<subseteq> set (wallets (w_db w')) \<and> (case r of Inl e \<Rightarrow> True
      | Inr v \<Rightarrow> \<exists>x \<in> set (wallets (w_db w')).
      wallet_as_asked orgId userId label (case chainId of None \<Rightarrow> 1 | Some c \<Rightarrow> c) v x)"
    if "deriveWallet orgId userId label chainId w = (r, w')"
    using leadsD [OF leads_deriveWallet w that] by (auto simp: kept_def tidy_def split: sum.splits)
  show "no_gaps (w_db w'') \<and> set (wallets (w_db w)) \<subseteq> set (wallets (w_db w''))"
    if "onBoardOrganization orgId w = (r', w'')"
    using leadsD [OF leads_onboard w that] by (auto simp: kept_def tidy_def split: sum.splits)
qed

text \<open>A signer that keeps its promise, and an organization with its first wallet.\<close>

definition deriving_net :: "nat \<Rightarrow> http_request \<Rightarrow> net_result" where
  "deriving_net n rq = NetResponse 200 ''OK'' (BodyJson [] (case get_prop ''derivIndex'' (rq_body rq) of
     Some (JNum i) \<Rightarrow> JObj [(''address'', JStr (''0xa'' @ show_int i)), (''derivationPath'', JStr (account_path (nat i)))]
   | _ \<Rightarrow> JNull))"

definition onboarded_db :: db where
  "onboarded_db = empty_db\<lparr>organization_seeds := [sample_seed], wallets := [sample_wallet\<lparr>wl_derivation_path := account_path 0\<rparr>]\<rparr>"

definition deriving_world :: world where
  "deriving_world = (calm_world onboarded_db deriving_net sample_env 7)\<lparr>w_driver := (\<lambda>e. e)\<rparr>"

text \<open>Another derivation for the same organization runs between the count and the insert.\<close>

definition overlapped_world :: world where
  "overlapped_world = deriving_world\<lparr>w_sched := (\<lambda>n d. if n = 2 then w_db (snd (deriveWallet ''org'' None ''b'' None
     (deriving_world\<lparr>w_db := d, w_uuid := (\<lambda>k. ''jd'' @ show_nat k)\<rparr>))) else d)\<rparr>"

lemma deriving_net_derives:
  "w_net w = deriving_net \<Longrightarrow> derives_by_index w"
  by (auto simp: derives_by_index_def deriving_net_def crypto_reply_def crypto_request_def derive_body_def
      seed_fields_def reply_prop_def split: if_splits)

lemma deriving_worlds:
  "no_gaps onboarded_db" "derives_by_index (deriving_world\<lparr>w_db := d, w_uuid := u\<rparr>)" "derives_by_index overlapped_world"
  "wallets_grow (deriving_world\<lparr>w_db := d, w_uuid := u\<rparr>)" "w_db overlapped_world = onboarded_db"
  by (simp_all add: deriving_net_derives deriving_world_def overlapped_world_def calm_world_def wallets_grow_def
      no_gaps_def org_wallets_def onboarded_db_def empty_db_def sample_wallet_def)

text \<open>The other derivation does what a derivation may rely on.\<close>

lemma overlapped_grows: "wallets_grow overlapped_world"
proof -
  have "no_gaps (w_db w') \<and> set (wallets d) \<subseteq> set (wallets (w_db w'))"
    if "deriveWallet ''org'' None ''b'' None (deriving_world\<lparr>w_db := d, w_uuid := u\<rparr>) = (r, w')" "no_gaps d" for d u r w'
    using wallets_without_gaps(1) [OF _ deriving_worlds(4,2) that(1)] that(2) by simp
  then show ?thesis
    by (simp add: wallets_grow_def overlapped_world_def split: prod.split)
      (metis surjective_pairing)
qed

text \<open>
  C13. No wallet of an organization is skipped or handed out twice.  Whatever runs beside it,
  as long as the others insert no wallet out of turn and delete none, onboarding and derivation
  leave the wallets of every organization exactly those of the indices 0, 1, 2 and so on, also when
  they throw, and so they are themselves such others.  What a derivation returns is the
  identifier and the address of a stored wallet of the organization, for the user, the label and
  the chain that were asked for.
\<close>

theorem derivation_leaves_no_gaps:
  assumes "no_gaps (w_db w)" and "wallets_grow w" and "derives_by_index w"
    and "deriveWallet orgId userId label chainId w = (r, w')" and "onBoardOrganization orgId' w = (r'', w'')"
  shows "no_gaps (w_db w') \<and> set (wallets (w_db w)) \<subseteq> set (wallets (w_db w')) \<and>
    (case r of Inl e \<Rightarrow> True
      | Inr (walletId, address) \<Rightarrow> \<exists>x. x \<in> set (wallets (w_db w')) \<and> wl_id x = walletId \<and> wl_address x = address \<and>
          wl_org_id x = orgId \<and> wl_user_id x = userId \<and> wl_label x = Some label \<and>
          wl_chain_id x = (case chainId of None \<Rightarrow> 1 | Some c \<Rightarrow> c)) \<and>
    no_gaps (w_db w'') \<and> set (wallets (w_db w)) \<subseteq> set (wallets (w_db w''))"
  using wallets_without_gaps(1) [OF assms(1,2,3,4)] wallets_without_gaps(2) [OF assms(1,2,3,5)]
  by (auto simp: wallet_as_asked_def split: sum.splits)

text \<open>Two derivations meet at index 1; the one that comes second takes index 2.\<close>

theorem derivation_leaves_no_gaps_witness:
  "let w' = snd (deriveWallet ''org'' None ''a'' None overlapped_world)
   in no_gaps (w_db w') \<and>
      map wl_derivation_path (org_wallets ''org'' (w_db w')) = [account_path 0, account_path 1, account_path 2] \<and>
      map wl_label (org_wallets ''org'' (w_db w')) = [None, Some ''b'', Some ''a'']"
proof -
  obtain r w' r'' w'' where runs: "deriveWallet ''org'' None ''a'' None overlapped_world = (r, w')"
    "onBoardOrganization ''org'' overlapped_world = (r'', w'')" by fastforce
  have "no_gaps (w_db overlapped_world)" by (simp add: deriving_worlds)
  from derivation_leaves_no_gaps [OF this overlapped_grows deriving_worlds(3) runs]
  have "no_gaps (w_db (snd (deriveWallet ''org'' None ''a'' None overlapped_world)))" by (simp add: runs)
  moreover have "map wl_derivation_path (org_wallets ''org'' (w_db (snd (deriveWallet ''org'' None ''a'' None overlapped_world)))) =
      [account_path 0, account_path 1, account_path 2]" by code_simp
  moreover have "map wl_label (org_wallets ''org'' (w_db (snd (deriveWallet ''org'' None ''a'' None overlapped_world)))) =
      [None, Some ''b'', Some ''a'']" by code_simp
  ultimately show ?thesis by (simp add: Let_def)
qed

end
