(* ===== verification/MonitorBudget.thy ===== *)
theory MonitorBudget
  imports MonitorCycle
begin

text \<open>
  What the monitor asks of the signer over many cycles that run one after the other.

  The accounting is by payments: \<open>pays\<close> says that a call which asks the signer also
  takes its row out of the hands of the monitor or counts an attempt, so the attempts left
  of all rows are an account from which every request of the signer is taken.
\<close>

section \<open>Cycles in sequence\<close>

text \<open>The first firings of the timer, each cycle ending before the next one starts.\<close>

fun firings :: "nat \<Rightarrow> unit io" where
  "firings 0 = ret ()"
| "firings (Suc m) = andThen runPoll (\<lambda>_. firings m)"

section \<open>Payments\<close>

abbreviation tokens :: "world \<Rightarrow> nat" where
  "tokens w \<equiv> length (filter has_token (w_sent w))"

abbreviation row_written :: "string \<Rightarrow> sr_fields \<Rightarrow> int field \<Rightarrow> db \<Rightarrow> db" where
  "row_written i f blk d \<equiv> signing_requests_update (map_row (\<lambda>r. sr_id r = i) (sr_set f blk)) d"

text \<open>An update that ends the row, or counts one more attempt than \<open>a\<close>.\<close>

definition paying :: "int \<Rightarrow> sr_fields \<Rightarrow> bool" where
  "paying a f \<longleftrightarrow> f_status f \<in> {Val ''failed'', Val ''dropped'', Val ''confirmed''} \<or>
     f_speed_up_attempts f = Val (a + 1)"

definition calm :: "db \<Rightarrow> (string \<Rightarrow> string option) \<Rightarrow> world \<Rightarrow> bool" where
  "calm d env w \<longleftrightarrow> quiet w \<and> w_db w = d \<and> w_env w = env"

text \<open>
  \<open>pays must k i a d env m\<close>: in a calm world \<open>m\<close> writes one paying update and asks the
  signer at most \<open>k\<close> times, or, unless it must pay, it writes nothing and asks nothing.
\<close>

definition paid :: "bool \<Rightarrow> nat \<Rightarrow> string \<Rightarrow> int \<Rightarrow> db \<Rightarrow> (string \<Rightarrow> string option) \<Rightarrow> nat \<Rightarrow> world \<Rightarrow> bool" where
  "paid must k i a d env n w \<longleftrightarrow> (\<not> must \<and> calm d env w \<and> tokens w = n) \<or>
     (\<exists>f blk. paying a f \<and> calm (row_written i f blk d) env w \<and> tokens w \<le> n + k)"

definition pays :: "bool \<Rightarrow> nat \<Rightarrow> string \<Rightarrow> int \<Rightarrow> db \<Rightarrow> (string \<Rightarrow> string option) \<Rightarrow> 'a io \<Rightarrow> bool" where
  "pays must k i a d env m \<longleftrightarrow> (\<forall>w. calm d env w \<longrightarrow> paid must k i a d env (tokens w) (snd (m w)))"

definition spends :: "nat \<Rightarrow> 'a io \<Rightarrow> bool" where
  "spends k m \<longleftrightarrow> (\<forall>w r w'. m w = (r, w') \<longrightarrow> tokens w \<le> tokens w' \<and> tokens w' \<le> tokens w + k)"

lemma spends_emits: "emits (rationed P has_token b k) m \<Longrightarrow> spends k m"
  unfolding spends_def emits_def rationed_def
  by (metis filter_append length_append add_left_mono le_add1 snd_conv)

lemma spends_node: "traffic is_node_call m b \<Longrightarrow> spends 0 m"
  by (rule spends_emits [of "\<lambda>_. True" b], erule traffic_rationed) (auto simp: node_call_no_token)

lemma spends_silent: "(\<And>rs. preserves (silent rs) m) \<Longrightarrow> spends 0 m"
  unfolding spends_def preserves_def silent_def by (metis add_0_right order_refl snd_conv)

lemma pays_throw: "pays False k i a d env (throw e)"
  by (simp add: pays_def paid_def throw_run)

lemma pays_ret: "pays False k i a d env (ret x)"
  by (simp add: pays_def paid_def ret_run)

lemma pays_update:
  assumes "paying a f" and "must \<Longrightarrow> f_block_number f = Undefined"
  shows "pays must k i a d env (sr_update i f)"
  using assms by (auto simp: pays_def paid_def calm_def sr_update_def stmt_quiet tick_def split: sum.split)

definition returns :: "'a io \<Rightarrow> bool" where
  "returns m \<longleftrightarrow> (\<forall>w. \<exists>x w'. m w = (Inr x, w'))"

text \<open>What comes before the payment writes nothing and does not ask the signer.\<close>

lemma pays_then:
  assumes "preserves (calm d env) m" and "spends 0 m" and "\<And>x. pays must k i a d env (f x)"
    and "must \<Longrightarrow> returns m"
  shows "pays must k i a d env (andThen m f)"
  unfolding pays_def
proof (intro allI impI)
  fix w
  assume w: "calm d env w"
  obtain r w' where m: "m w = (r, w')" by fastforce
  have w': "calm d env w'" using preserves_runD [OF assms(1) m w] .
  have n: "tokens w' = tokens w" using assms(2) m by (fastforce simp: spends_def)
  show "paid must k i a d env (tokens w) (snd (andThen m f w))"
  proof (cases r)
    case (Inl e)
    with m assms(4) have "\<not> must" unfolding returns_def by (metis prod.inject sum.distinct(1))
    with Inl m w' n show ?thesis by (simp add: andThen_def paid_def)
  next
    case (Inr x)
    with m have "andThen m f w = f x w'" by (simp add: andThen_def)
    with w' n assms(3) [of x] show ?thesis unfolding pays_def by metis
  qed
qed

text \<open>A call of the signer has to be followed by a payment.\<close>

lemma pays_signer:
  assumes "preserves (calm d env) m" and "spends 1 m" and "\<And>x. pays True 0 i a d env (f x)" and "returns m"
  shows "pays must 1 i a d env (andThen m f)"
  unfolding pays_def
proof (intro allI impI)
  fix w
  assume w: "calm d env w"
  obtain x w' where m: "m w = (Inr x, w')" using assms(4) unfolding returns_def by blast
  have w': "calm d env w'" "tokens w' \<le> tokens w + 1"
    using preserves_runD [OF assms(1) m w] assms(2) m by (auto simp: spends_def)
  from m have "andThen m f w = f x w'" by (simp add: andThen_def)
  moreover from assms(3) [of x] w'(1) have "paid True 0 i a d env (tokens w') (snd (f x w'))"
    by (simp add: pays_def)
  ultimately show "paid must 1 i a d env (tokens w) (snd (andThen m f w))"
    using w'(2) unfolding paid_def by fastforce
qed

lemma returns_attempt: "returns (attempt m)"
  by (simp add: returns_def attempt_def split: prod.split)

lemma returns_now: "returns now"
  by (simp add: returns_def now_run)

section \<open>The monitor pays\<close>

lemma calm_now [preserves_intros]: "preserves (calm d env) now"
  by (simp add: preserves_def now_def calm_def)

lemma calm_query [preserves_intros]: "preserves (calm d env) (query f)"
  by (simp add: preserves_def query_quiet calm_def)

lemma calm_config_get [preserves_intros]: "preserves (calm d env) (config_get k)"
  by (simp add: preserves_def config_get_def)

lemma calm_fetch [preserves_intros]: "preserves (calm d env) (fetch rq)"
  by (simp add: preserves_def fetch_def calm_def)

lemma calm_rpc [preserves_intros]: "preserves (calm d env) (rpcCallWithRetry meth params c)"
  by (rule rpc_preserves) (rule calm_fetch)

lemma calm_estimateFees [preserves_intros]: "preserves (calm d env) (estimateFees to v dt c from)"
  unfolding estimateFees_def estimateGas_def fetchFeeData_def by (intro preserves_intros)

lemma calm_receipt [preserves_intros]:
  "preserves (calm d env) (getTransactionReceipt h c)" "preserves (calm d env) (getTransactionByHash h c)"
  "preserves (calm d env) (broadcastTransaction raw c)"
  unfolding getTransactionReceipt_def getTransactionByHash_def broadcastTransaction_def by (intro preserves_intros)+

lemma calm_sign [preserves_intros]: "preserves (calm d env) (crypto_signTransaction s p tx)"
  unfolding crypto_signTransaction_def post_def crypto_onModuleInit_def getOrThrow_def by (intro preserves_intros)

lemma paying_fields:
  "paying a (failed_fields x y)" "paying a dropped_fields" "paying a (confirmed_fields r t)"
  "paying (sr_speed_up_attempts row) (sped_up_fields row h t t')"
  "f_block_number (failed_fields x y) = Undefined" "f_block_number (sped_up_fields row h t t') = Undefined"
  by (simp_all add: paying_def failed_fields_def dropped_fields_def confirmed_fields_def sped_up_fields_def
      no_fields_def)

lemma pays_if: "(c \<Longrightarrow> pays must k i a d env m) \<Longrightarrow> (\<not> c \<Longrightarrow> pays must k i a d env m') \<Longrightarrow>
    pays must k i a d env (if c then m else m')"
  by simp

lemma pays_option: "pays must k i a d env m \<Longrightarrow> (\<And>x. pays must k i a d env (g x)) \<Longrightarrow>
    pays must k i a d env (case v of None \<Rightarrow> m | Some x \<Rightarrow> g x)"
  by (simp split: option.split)

lemma pays_sum: "(\<And>e. pays must k i a d env (m e)) \<Longrightarrow> (\<And>x. pays must k i a d env (g x)) \<Longrightarrow>
    pays must k i a d env (case v of Inl e \<Rightarrow> m e | Inr x \<Rightarrow> g x)"
  by (simp split: sum.split)

lemma spends_attempt: "spends k m \<Longrightarrow> spends k (attempt m)"
  by (auto simp: spends_def attempt_def split: prod.splits)

lemma spends_then: "spends 0 m \<Longrightarrow> (\<And>x. spends 0 (f x)) \<Longrightarrow> spends 0 (andThen m f)"
  by (fastforce simp: spends_def andThen_def split: prod.splits sum.splits)

lemma spends_query: "spends 0 (query f)" "spends 0 (setting x y)" "spends 0 (lift_res e)" "spends 0 now"
  by (intro spends_silent preserves_intros)+

lemma spends_rpc: "spends 0 (estimateFees to v dt c from)" "spends 0 (broadcastTransaction raw c)"
  "spends 0 (getTransactionReceipt h c)" "spends 0 (getTransactionByHash h c)"
  unfolding broadcastTransaction_def getTransactionReceipt_def getTransactionByHash_def
  by (intro spends_node [OF traffic_estimateFees] spends_node [OF traffic_node] spends_then
      spends_silent preserves_intros)+

lemma spends_sign: "spends 1 (crypto_signTransaction s p tx)"
  by (rule spends_emits, rule emits_crypto(3))

lemmas pays_intros = pays_sum pays_option pays_if pays_then pays_update paying_fields preserves_intros
  returns_attempt returns_now spends_attempt spends_then spends_query spends_rpc spends_sign

lemma pays_signReplacement:
  "pays must 1 (sr_id row) (sr_speed_up_attempts row) d env (signReplacement row s v tx)"
  unfolding signReplacement_def
  by (rule pays_signer) (intro pays_intros)+

definition limit_of :: "(string \<Rightarrow> string option) \<Rightarrow> (int \<times> int) option" where
  "limit_of env = number_fraction (case env ''MAX_SPEED_UP_ATTEMPTS'' of None \<Rightarrow> ''3'' | Some s \<Rightarrow> s)"

definition chances :: "(string \<Rightarrow> string option) \<Rightarrow> int \<Rightarrow> nat" where
  "chances env a = (if budget_spent (limit_of env) a then 0 else 1)"

lemma replaceTx_pays:
  "pays False 1 (sr_id row) (sr_speed_up_attempts row) d env (replaceTx row payload)"
  unfolding replaceTx_def replaceWith_def bumpAndReplace_def wallet_findById_def seed_findByOrgId_def case_prod_beta
  by (intro pays_intros pays_signReplacement) simp_all

lemma speedUp_pays:
  "pays False (chances env (sr_speed_up_attempts row)) (sr_id row) (sr_speed_up_attempts row) d env (speedUp row)"
proof -
  let ?k = "chances env (sr_speed_up_attempts row)"
  have run: "speedUp row w = (if budget_spent (limit_of env) (sr_speed_up_attempts row)
     then sr_update (sr_id row) (failed_fields ''max speed-up attempts reached'' ''permanent'')
     else case sr_tx_payload row of
       None \<Rightarrow> sr_update (sr_id row) (failed_fields ''missing tx_payload for speed-up'' ''unknown'')
     | Some payload \<Rightarrow> replaceTx row payload) w" if "calm d env w" for w
    using that by (simp add: speedUp_def setting_def config_get_def andThen_def ret_run calm_def limit_of_def)
  have "pays False ?k (sr_id row) (sr_speed_up_attempts row) d env (if budget_spent (limit_of env) (sr_speed_up_attempts row)
     then sr_update (sr_id row) (failed_fields ''max speed-up attempts reached'' ''permanent'')
     else case sr_tx_payload row of
       None \<Rightarrow> sr_update (sr_id row) (failed_fields ''missing tx_payload for speed-up'' ''unknown'')
     | Some payload \<Rightarrow> replaceTx row payload)"
    by (intro pays_if pays_option pays_update paying_fields) (use replaceTx_pays in \<open>simp_all add: chances_def\<close>)
  with run show ?thesis unfolding pays_def by metis
qed

lemma processRow_pays:
  "pays False (chances env (sr_speed_up_attempts row)) (sr_id row) (sr_speed_up_attempts row) d env (processRow row)"
  unfolding processRow_def applyReceipt_def checkStuck_def Let_def dropped_fields_def [symmetric]
  by (intro pays_intros pays_ret speedUp_pays) simp_all

section \<open>The account\<close>

text \<open>The attempts a row has left while it is broadcasted, with the limit \<open>n / d\<close> rounded up.\<close>

definition attempts_left :: "int \<Rightarrow> int \<Rightarrow> signing_request \<Rightarrow> nat" where
  "attempts_left n d r = (if sr_status r = ''broadcasted'' then nat ((n + d - 1) div d - sr_speed_up_attempts r) else 0)"

definition account :: "int \<Rightarrow> int \<Rightarrow> db \<Rightarrow> nat" where
  "account n d b = (\<Sum>r \<leftarrow> signing_requests b. attempts_left n d r)"

lemma budget_spent_left:
  assumes "0 < d"
  shows "budget_spent (Some (n, d)) a \<longleftrightarrow> (n + d - 1) div d \<le> a"
proof -
  have "(n + d - 1) div d \<le> a" if "n \<le> a * d"
  proof -
    have "(n + d - 1) div d \<le> (d - 1 + a * d) div d" using that assms by (intro zdiv_mono1) auto
    with assms show ?thesis by (simp add: div_pos_pos_trivial)
  qed
  moreover have "a + 1 \<le> (n + d - 1) div d" if "a * d + 1 \<le> n"
  proof -
    have "((a + 1) * d) div d \<le> (n + d - 1) div d" using that assms by (intro zdiv_mono1) (auto simp: algebra_simps)
    with assms show ?thesis by simp
  qed
  ultimately show ?thesis unfolding budget_spent_def by fastforce
qed

lemma paying_leaves_less:
  assumes "paying (sr_speed_up_attempts row) f" and "0 < d" and "sr_status row = ''broadcasted''"
    and "limit_of env = Some (n, d)"
  shows "attempts_left n d (sr_set f blk row) + chances env (sr_speed_up_attempts row) \<le> attempts_left n d row"
proof -
  let ?c = "(n + d - 1) div d" and ?a = "sr_speed_up_attempts row"
  have k: "chances env ?a = (if ?c \<le> ?a then 0 else 1)"
    using assms(2,4) by (simp add: chances_def budget_spent_left)
  have left: "attempts_left n d row = nat (?c - ?a)" using assms(3) by (simp add: attempts_left_def)
  from assms(1) consider "attempts_left n d (sr_set f blk row) = 0"
    | "sr_speed_up_attempts (sr_set f blk row) = ?a + 1"
    by (auto simp: paying_def attempts_left_def sr_set_def)
  then show ?thesis
  proof cases
    case 2
    then have "attempts_left n d (sr_set f blk row) \<le> nat (?c - (?a + 1))" by (simp add: attempts_left_def)
    with k left show ?thesis by (auto split: if_splits)
  qed (use k left in auto)
qed

lemma sum_map_row:
  fixes g :: "signing_request \<Rightarrow> nat"
  assumes "distinct (map sr_id rs)" and "row \<in> set rs"
  shows "sum_list (map g (map_row (\<lambda>r. sr_id r = sr_id row) h rs)) + g row = sum_list (map g rs) + g (h row)"
  using assms
proof (induction rs)
  case (Cons r rs)
  show ?case
  proof (cases "r = row")
    case True
    with Cons.prems have "map_row (\<lambda>r. sr_id r = sr_id row) h rs = rs" by (induction rs) auto
    with True show ?thesis by simp
  next
    case False
    with Cons show ?thesis by (auto simp: rev_image_eqI)
  qed
qed simp

text \<open>Nothing is spent that is not in the account; the rows keep their identifiers.\<close>

definition in_credit :: "int \<Rightarrow> int \<Rightarrow> world \<Rightarrow> world \<Rightarrow> bool" where
  "in_credit n d w w' \<longleftrightarrow> tokens w' + account n d (w_db w') \<le> tokens w + account n d (w_db w) \<and>
     quiet w' \<and> w_env w' = w_env w \<and>
     map sr_id (signing_requests (w_db w')) = map sr_id (signing_requests (w_db w))"

lemma in_credit_trans: "in_credit n d w v \<Longrightarrow> in_credit n d v u \<Longrightarrow> in_credit n d w u"
  by (auto simp: in_credit_def)

lemma processRow_in_credit:
  assumes "quiet w" and "limit_of (w_env w) = Some (n, d)" and "0 < d"
    and "distinct (map sr_id (signing_requests (w_db w)))" and "row \<in> set (signing_requests (w_db w))"
    and "sr_status row = ''broadcasted''" and "processRow row w = (r, w')"
  shows "in_credit n d w w'"
proof -
  have "calm (w_db w) (w_env w) w" using assms(1) by (simp add: calm_def)
  with processRow_pays [of "w_env w" row "w_db w"] assms(7) have
    "paid False (chances (w_env w) (sr_speed_up_attempts row)) (sr_id row) (sr_speed_up_attempts row)
       (w_db w) (w_env w) (tokens w) w'" unfolding pays_def by (metis snd_conv)
  then show ?thesis unfolding paid_def
  proof (elim disjE conjE exE)
    fix f blk
    assume f: "paying (sr_speed_up_attempts row) f"
      and w': "calm (row_written (sr_id row) f blk (w_db w)) (w_env w) w'"
      and t: "tokens w' \<le> tokens w + chances (w_env w) (sr_speed_up_attempts row)"
    have "account n d (row_written (sr_id row) f blk (w_db w)) + attempts_left n d row =
        account n d (w_db w) + attempts_left n d (sr_set f blk row)"
      using sum_map_row [OF assms(4,5), of "attempts_left n d" "sr_set f blk"] by (simp add: account_def)
    with paying_leaves_less [OF f assms(3,6,2), of blk] w' t show ?thesis
      by (auto simp: calm_def in_credit_def map_row_def)
  qed (auto simp: calm_def in_credit_def)
qed

lemma pollRows_in_credit:
  assumes "quiet w" and "limit_of (w_env w) = Some (n, d)" and "0 < d"
    and "distinct (map sr_id (signing_requests (w_db w)))" and "distinct (map sr_id rows)"
    and "\<forall>row \<in> set rows. row \<in> set (signing_requests (w_db w)) \<and> sr_status row = ''broadcasted''"
  shows "in_credit n d w (snd (pollRows rows w))"
  using assms
proof (induction rows arbitrary: w)
  case (Cons row rows)
  obtain r w' where p: "processRow row w = (r, w')" by fastforce
  have c: "in_credit n d w w'" using processRow_in_credit [OF Cons.prems(1-4) _ _ p] Cons.prems(6) by simp
  from processRow_confined [OF Cons.prems(1) p] obtain rs where rs: "w_db w' = (w_db w)\<lparr>signing_requests := rs\<rparr>"
    and f: "filter (\<lambda>x. sr_id x \<noteq> sr_id row) rs = filter (\<lambda>x. sr_id x \<noteq> sr_id row) (signing_requests (w_db w))"
    by blast
  have "x \<in> set (signing_requests (w_db w'))" if "x \<in> set rows" for x
  proof -
    have "sr_id x \<noteq> sr_id row" using that Cons.prems(5) by (auto simp: rev_image_eqI)
    with that Cons.prems(6) have "x \<in> set (filter (\<lambda>x. sr_id x \<noteq> sr_id row) rs)" by (simp add: f)
    with rs show ?thesis by simp
  qed
  with Cons.prems c have "in_credit n d w' (snd (pollRows rows w'))"
    by (intro Cons.IH) (simp_all add: in_credit_def)
  with c p show ?case unfolding pollRows_run by (simp add: in_credit_trans)
qed (simp add: ret_run in_credit_def)

lemma runPoll_in_credit:
  assumes "quiet w" and "limit_of (w_env w) = Some (n, d)" and "0 < d"
    and "distinct (map sr_id (signing_requests (w_db w)))"
  shows "in_credit n d w (snd (runPoll w))"
proof -
  have "in_credit n d (tick w) (snd (pollRows (order_by_broadcasted_at
      (filter (\<lambda>r. sr_status r = ''broadcasted'') (signing_requests (w_db w)))) (tick w)))"
    using assms by (intro pollRows_in_credit distinct_order_by_broadcasted_at distinct_map_filter) simp_all
  then show ?thesis unfolding runPoll_quiet [OF assms(1)] by (simp add: in_credit_def)
qed

lemma firings_in_credit:
  assumes "quiet w" and "limit_of (w_env w) = Some (n, d)" and "0 < d"
    and "distinct (map sr_id (signing_requests (w_db w)))"
  shows "in_credit n d w (snd (firings m w))"
  using assms
proof (induction m arbitrary: w)
  case (Suc m)
  obtain w' where p: "runPoll w = (Inr (), w')"
    using runPoll_returns by (metis prod.collapse)
  have c: "in_credit n d w w'" using runPoll_in_credit [OF Suc.prems] p by simp
  with Suc.prems have "in_credit n d w' (snd (firings m w'))"
    by (intro Suc.IH) (simp_all add: in_credit_def)
  with c p show ?case by (simp add: andThen_def in_credit_trans)
qed (simp add: ret_run in_credit_def)

text \<open>The denominator of a setting is positive.\<close>

lemma number_fraction_pos: "number_fraction s = Some (n, d) \<Longrightarrow> 0 < d"
  by (auto simp: number_fraction_def decimal_fraction_def scale_def Let_def
      split: js_num.splits prod.splits option.splits if_splits)

text \<open>
  C11. Speed-ups stay in the budget.  However many cycles run one after the other, undisturbed,
  the signer is asked at most as often as the broadcasted rows together have attempts left
  before the first one, the configured limit being rounded up.
\<close>

theorem speed_ups_stay_in_budget:
  assumes "quiet w" and "distinct (map sr_id (signing_requests (w_db w)))"
    and "number_fraction (case w_env w ''MAX_SPEED_UP_ATTEMPTS'' of None \<Rightarrow> ''3'' | Some s \<Rightarrow> s) = Some (n, d)"
  shows "length (filter has_token (w_sent (snd (firings m w)))) \<le> length (filter has_token (w_sent w)) +
    (\<Sum>r \<leftarrow> signing_requests (w_db w). if sr_status r = ''broadcasted''
       then nat ((n + d - 1) div d - sr_speed_up_attempts r) else 0)"
proof -
  have "in_credit n d w (snd (firings m w))"
    using assms by (intro firings_in_credit) (simp_all add: limit_of_def number_fraction_pos)
  then show ?thesis by (simp add: in_credit_def account_def attempts_left_def [abs_def])
qed

end
