(* ===== verification/Weave.thy ===== *)
theory Weave
  imports World
begin

text \<open>
  Calls that run at the same time, interleaved at every statement.  A call is a function of its
  world, and depends on the others only by what they did to the database before each of its
  statements; so how far it has come is given by the databases its statements found so
  far, and one more statement of it is a run of the call that stops after that one.
\<close>

section \<open>A call up to a statement\<close>

text \<open>
  The world in which a call finds the databases \<open>ds\<close> at its first statements, and in which no further
  statement takes place.
\<close>

definition suspended :: "world \<Rightarrow> db list \<Rightarrow> world" where
  "suspended w ds = w\<lparr>w_db := hd ds,
     w_sched := (\<lambda>n d. if w_stmts w \<le> n \<and> n < w_stmts w + length ds then ds ! (n - w_stmts w) else d),
     w_fault := (\<lambda>n. if n < w_stmts w + length ds then w_fault w n else Some (JsError ''suspended''))\<rparr>"

text \<open>The database after the last of these statements; a call that has ended does nothing.\<close>

definition after_statement :: "'a io \<Rightarrow> world \<Rightarrow> db list \<Rightarrow> db" where
  "after_statement m w ds = (let w' = snd (m (suspended w ds))
     in if w_stmts w' < w_stmts w + length ds then last ds else w_db w')"

section \<open>Interleaving\<close>

text \<open>
  The calls \<open>ms\<close> start in the worlds \<open>ws\<close>, each with its own clock, network and faults, and share
  the database \<open>d\<close>.  The list says whose turn is next; \<open>seen c\<close> are the databases which the
  statements of the call \<open>c\<close> have found.
\<close>

fun weave :: "(nat \<Rightarrow> 'a io) \<Rightarrow> (nat \<Rightarrow> world) \<Rightarrow> nat list \<Rightarrow> (nat \<Rightarrow> db list) \<Rightarrow> db \<Rightarrow> db" where
  "weave ms ws [] seen d = d"
| "weave ms ws (c # cs) seen d =
     (let ds = seen c @ [d] in weave ms ws cs (seen(c := ds)) (after_statement (ms c) (ws c) ds))"

text \<open>
  The rule for parallel composition: what every call keeps under all interference that keeps
  it, the interleaved calls keep, whatever the order of their statements.
\<close>

lemma stable_suspended:
  assumes "\<forall>x \<in> set ds. J x" and "ds \<noteq> []"
  shows "stable J (suspended w ds)"
  using assms by (simp add: stable_def suspended_def)

lemma after_statement_keeps:
  assumes "preserves (stable J) m" and "\<forall>x \<in> set ds. J x" and "ds \<noteq> []"
  shows "J (after_statement m w ds)"
proof -
  from preservesD [OF assms(1) stable_suspended [OF assms(2,3)]] have "J (w_db (snd (m (suspended w ds))))"
    by (rule stableD)
  with assms(2,3) show ?thesis by (simp add: after_statement_def Let_def)
qed

theorem weave_keeps:
  assumes "\<And>c. preserves (stable J) (ms c)" and "J d" and "\<And>c. \<forall>x \<in> set (seen c). J x"
  shows "J (weave ms ws cs seen d)"
  using assms(2,3)
proof (induction cs arbitrary: seen d)
  case (Cons c cs)
  have ds: "\<forall>x \<in> set (seen c @ [d]). J x" using Cons.prems by simp
  have "J (after_statement (ms c) (ws c) (seen c @ [d]))" by (rule after_statement_keeps [OF assms(1) ds]) simp
  then have "J (weave ms ws cs (seen(c := seen c @ [d])) (after_statement (ms c) (ws c) (seen c @ [d])))"
    by (rule Cons.IH) (use Cons.prems ds in simp)
  then show ?case by (simp add: Let_def)
qed simp

text \<open>One statement finds the database of its turn and leaves its effect on it.\<close>

lemma stmt_suspended:
  assumes "w_fault w (w_stmts w) = None"
  shows "after_statement (stmt f) w [d] = (case f d of Inl e \<Rightarrow> d | Inr (x, d') \<Rightarrow> d')"
  using assms by (simp add: after_statement_def suspended_def stmt_def Let_def split: sum.split)

end
