(* ===== verification/MonitorTimer.thy ===== *)
theory MonitorTimer
  imports MonitorBudget SampleChain Weave
begin

text \<open>
  \<open>TransactionMonitorService\<close> (\<open>libs/monitor/src/transaction-monitor.service.ts\<close>): the
  interval of the timer, and the cycles it starts, which may overlap: statement by statement, for
  what they leave alone, and row by row, which is enough to lose attempts.
\<close>

section \<open>The timer\<close>

text \<open>
  The delay that \<open>setInterval\<close> makes of \<open>pollIntervalSeconds * 1000\<close>: fractions of a
  millisecond are cut off, and 1 stands for what is no number, below 1 or beyond 32 bits.
\<close>

definition interval_ms :: "(int \<times> int) option \<Rightarrow> int" where
  "interval_ms seconds = (case seconds of None \<Rightarrow> 1
     | Some (n, d) \<Rightarrow> if n * 1000 < d \<or> 2147483647 * d < n * 1000 then 1 else n * 1000 div d)"

definition onModuleInit :: "int io" where
  "onModuleInit = andThen (setting ''PENDING_POLL_INTERVAL_SECONDS'' ''15'') (\<lambda>s. ret (interval_ms s))"

definition triggerPoll :: "unit io" where
  "triggerPoll = runPoll"

section \<open>Cycles that overlap\<close>

text \<open>
  The timer starts a cycle whether or not the one before has ended.  A cycle in flight
  has read its rows and goes through them one by one; every step continues some cycle, or
  starts one.
\<close>

record poller =
  po_world :: world
  po_cycles :: "signing_request list list"

inductive poller_step :: "poller \<Rightarrow> poller \<Rightarrow> bool" where
  start: "sr_findBroadcasted w = (Inr rows, w') \<Longrightarrow>
    poller_step \<lparr>po_world = w, po_cycles = cs\<rparr> \<lparr>po_world = w', po_cycles = cs @ [rows]\<rparr>"
| unread: "sr_findBroadcasted w = (Inl e, w') \<Longrightarrow>
    poller_step \<lparr>po_world = w, po_cycles = cs\<rparr> \<lparr>po_world = w', po_cycles = cs\<rparr>"
| advance: "k < length cs \<Longrightarrow> cs ! k = row # rows \<Longrightarrow> processRow row w = (r, w') \<Longrightarrow>
    poller_step \<lparr>po_world = w, po_cycles = cs\<rparr> \<lparr>po_world = w', po_cycles = cs[k := rows]\<rparr>"

abbreviation poller_runs :: "poller \<Rightarrow> poller \<Rightarrow> bool" where
  "poller_runs \<equiv> poller_step\<^sup>*\<^sup>*"

section \<open>What overlapping cycles leave alone\<close>

text \<open>
  The rows that were not broadcasted in \<open>rs\<close> are as they were, the others keep their
  identifiers, and none is gone or in another place.
\<close>

definition spares :: "signing_request list \<Rightarrow> db \<Rightarrow> bool" where
  "spares rs d \<longleftrightarrow> list_all2 (\<lambda>r r'. sr_id r' = sr_id r \<and> (sr_status r \<noteq> ''broadcasted'' \<longrightarrow> r' = r)) rs (signing_requests d)"

lemma list_all2_map_row:
  assumes "list_all2 P rs xs" and "\<And>r x. r \<in> set rs \<Longrightarrow> P r x \<Longrightarrow> q x \<Longrightarrow> P r (f x)"
  shows "list_all2 P rs (map_row q f xs)"
  using assms by (induction rule: list_all2_induct) auto

text \<open>A cycle writes to rows with the identifiers it has found only.\<close>

interpretation sparing: own_row "\<lambda>d. spares rs d \<and> (\<forall>r \<in> set rs. sr_id r = i \<longrightarrow> sr_status r = ''broadcasted'')" i "\<lambda>_. True"
  for rs i
  by unfold_locales (auto simp: spares_def intro: list_all2_map_row)

lemma list_all2_origin: "list_all2 P rs xs \<Longrightarrow> x \<in> set xs \<Longrightarrow> \<exists>r \<in> set rs. P r x"
  by (induction rule: list_all2_induct) auto

lemma spares_found:
  assumes "distinct (map sr_id rs)" and "spares rs d" and "row \<in> set (signing_requests d)"
    and "sr_status row = ''broadcasted''" and "r \<in> set rs" and "sr_id r = sr_id row"
  shows "sr_status r = ''broadcasted''"
proof -
  obtain r' where r': "r' \<in> set rs" "sr_id row = sr_id r'"
    "sr_status r' \<noteq> ''broadcasted'' \<longrightarrow> row = r'"
    using list_all2_origin [OF assms(2) [unfolded spares_def] assms(3)] by (elim bexE conjE)
  have "inj_on sr_id (set rs)" using assms(1) by (simp only: distinct_map)
  then have eq: "r = r'" by (rule inj_onD [OF _ trans [OF assms(6) r'(2)] assms(5) r'(1)])
  show ?thesis
  proof (rule ccontr)
    assume n: "sr_status r \<noteq> ''broadcasted''"
    then have "sr_status r' \<noteq> ''broadcasted''" by (simp only: eq not_False_eq_True)
    with r'(3) have "row = r'" by (rule mp)
    with n eq assms(4) show False by (simp only:)
  qed
qed

lemma pollRows_spares:
  assumes "\<forall>row \<in> set rows. \<forall>r \<in> set rs. sr_id r = sr_id row \<longrightarrow> sr_status r = ''broadcasted''"
  shows "preserves (stable (spares rs)) (pollRows rows)"
  using assms
proof (induction rows)
  case (Cons row rows)
  have found: "\<forall>r \<in> set rs. sr_id r = sr_id row \<longrightarrow> sr_status r = ''broadcasted''"
    by (rule bspec [OF Cons.prems]) (rule list.set_intros(1))
  have "preserves (stable (\<lambda>d. spares rs d \<and> (\<forall>r \<in> set rs. sr_id r = sr_id row \<longrightarrow> sr_status r = ''broadcasted''))) (processRow row)"
    by (rule sparing.processRow_stable) (rule refl TrueI)+
  moreover have "(\<lambda>d. spares rs d \<and> (\<forall>r \<in> set rs. sr_id r = sr_id row \<longrightarrow> sr_status r = ''broadcasted'')) = spares rs"
    by (rule ext) (rule iffI [OF conjunct1 conjI [OF _ found]])
  ultimately have "preserves (stable (spares rs)) (processRow row)" by (simp only:)
  moreover have "preserves (stable (spares rs)) (pollRows rows)" by (rule Cons.IH) (rule ballI, rule bspec [OF Cons.prems], erule list.set_intros(2))
  ultimately show ?case unfolding pollRows.simps by (intro preserves_intros)
qed (simp add: preserves_ret)

lemma runPoll_spares:
  assumes "distinct (map sr_id rs)"
  shows "preserves (stable (spares rs)) runPoll"
proof -
  have "preserves (stable (spares rs)) (case x of Inl err \<Rightarrow> ret () | Inr rows \<Rightarrow> pollRows rows)"
    if st: "stable (spares rs) w" and run: "attempt sr_findBroadcasted w = (Inr x, w')" for x w w'
  proof (cases x)
    case (Inr rows)
    with run have "query (\<lambda>d. order_by_broadcasted_at (filter (\<lambda>r. sr_status r = ''broadcasted'') (signing_requests d))) w = (Inr rows, w')"
      by (simp add: attempt_def sr_findBroadcasted_def split: prod.splits)
    from query_outcome [OF this] have rows: "set rows = {r \<in> set (signing_requests (w_sched w (w_stmts w) (w_db w))). sr_status r = ''broadcasted''}"
      by auto
    have sp: "spares rs (w_sched w (w_stmts w) (w_db w))" using st by (simp add: stable_def)
    have "preserves (stable (spares rs)) (pollRows rows)"
    proof (rule pollRows_spares, intro ballI impI)
      fix row r assume "row \<in> set rows" and r: "r \<in> set rs" "sr_id r = sr_id row"
      with rows have row: "row \<in> set (signing_requests (w_sched w (w_stmts w) (w_db w)))" "sr_status row = ''broadcasted''"
        by (simp_all only: mem_Collect_eq)
      show "sr_status r = ''broadcasted''" by (rule spares_found [OF assms sp row r])
    qed
    with Inr show ?thesis by (simp only: sum.case)
  qed (simp add: preserves_ret)
  then have "preserves (stable (spares rs)) poll"
    unfolding poll_def by (rule preserves_andThen_run [OF preserves_attempt [OF findBroadcasted_env(2)]])
  then show ?thesis unfolding runPoll_def by (intro preserves_intros)
qed

text \<open>
  C12. Overlapping cycles keep to the broadcasted rows.  However many cycles run at the same time,
  interleaved at every statement in whatever order, each with whatever answers of the nodes and the
  signer and whatever statements of its own that fail: every row that was not broadcasted at the
  beginning is exactly as it was, and no row is lost or changes its identifier.
\<close>

theorem overlapping_cycles_spare_other_rows:
  assumes "distinct (map sr_id (signing_requests d))"
  shows "list_all2 (\<lambda>r r'. sr_id r' = sr_id r \<and> (sr_status r \<noteq> ''broadcasted'' \<longrightarrow> r' = r))
    (signing_requests d) (signing_requests (weave (\<lambda>_. runPoll) ws cs (\<lambda>_. []) d))"
proof -
  have "spares (signing_requests d) (weave (\<lambda>_. runPoll) ws cs (\<lambda>_. []) d)"
    by (rule weave_keeps [OF runPoll_spares [OF assms]]) (simp_all add: spares_def list_all2_refl)
  then show ?thesis by (simp only: spares_def)
qed

text \<open>A row that runs undisturbed leaves the identifiers.\<close>

lemma processRow_ids:
  assumes "quiet w" and "processRow row w = (r, w')"
  shows "quiet w'" and "map sr_id (signing_requests (w_db w')) = map sr_id (signing_requests (w_db w))"
proof -
  have "calm (w_db w) (w_env w) w" using assms(1) by (simp add: calm_def)
  with processRow_pays [of "w_env w" row "w_db w"] assms(2) have
    "paid False (chances (w_env w) (sr_speed_up_attempts row)) (sr_id row) (sr_speed_up_attempts row)
       (w_db w) (w_env w) (tokens w) w'" unfolding pays_def by (metis snd_conv)
  then show "quiet w'" and "map sr_id (signing_requests (w_db w')) = map sr_id (signing_requests (w_db w))"
    by (auto simp: paid_def calm_def map_row_def)
qed

section \<open>Overlapping cycles lose attempts\<close>

text \<open>The sample row, broadcasted, on a chain where it is known but never mined.\<close>

definition stuck_row :: signing_request where
  "stuck_row = (sample_row ''broadcasted'')\<lparr>sr_tx_hash := Some ''0xh'',
     sr_tx_payload := Some (tx_fields_of sample_request sample_fees 0)\<rparr>"

definition stuck_world :: world where
  "stuck_world = calm_world (sample_db [] [stuck_row]) stuck_net sample_env 600000"

definition stuck :: "world \<Rightarrow> bool" where
  "stuck w \<longleftrightarrow> quiet w \<and> w_net w = stuck_net \<and> w_env w = sample_env \<and> w_clock w = (\<lambda>_. 600000) \<and>
     organization_seeds (w_db w) = [sample_seed] \<and> wallets (w_db w) = [sample_wallet] \<and>
     map sr_id (signing_requests (w_db w)) = [''r'']"

text \<open>A speed-up of that row asks the signer, for the stored seed and wallet.\<close>

theorem replacement_keeps_the_transaction_witness:
  "\<exists>rq s v. filter has_token (w_sent (snd (speedUp stuck_row stuck_world))) = [rq] \<and>
     rows_of stuck_world stuck_row s v \<and> replaces s v stuck_row rq"
proof -
  let ?run = "speedUp stuck_row stuck_world"
  have "length (filter has_token (w_sent (snd ?run))) = 1" by code_simp
  then obtain rq where one: "filter has_token (w_sent (snd ?run)) = [rq]" by (auto simp: length_Suc_conv)
  then have rq: "rq \<in> set (w_sent (snd ?run))" "has_token rq" by (auto simp: filter_eq_Cons_iff)
  have "w_sent stuck_world = []" by (simp add: stuck_world_def calm_world_def)
  with replacement_keeps_the_transaction [of stuck_row stuck_world] rq
  obtain s v where "rows_of stuck_world stuck_row s v" "replaces s v stuck_row rq"
    by (auto simp: list_all_iff)
  with one show ?thesis by blast
qed

text \<open>
  Two cycles work on the row, next to a row that was confirmed before: both find it, one is told that it
  is mined and confirms it, and then the other one, which was told that it is not, replaces it.
\<close>

definition settled_row :: signing_request where
  "settled_row = (sample_row ''confirmed'')\<lparr>sr_id := ''s'', sr_idempotency_key := None\<rparr>"

definition two_rows :: db where
  "two_rows = sample_db [] [stuck_row, settled_row]"

definition two_views :: "nat \<Rightarrow> world" where
  "two_views c = stuck_world\<lparr>w_net := (if c = 0 then receipt_net else stuck_net)\<rparr>"

lemma two_cycles_confirm: "map sr_status (signing_requests (weave (\<lambda>_. runPoll) two_views [0, 1, 0] (\<lambda>_. []) two_rows)) =
    [''confirmed'', ''confirmed'']"
  by code_simp

lemma two_cycles_replace: "map sr_status (signing_requests (weave (\<lambda>_. runPoll) two_views [0, 1, 0, 1, 1, 1] (\<lambda>_. []) two_rows)) =
    [''broadcasted'', ''confirmed'']"
  by code_simp

theorem overlapping_cycles_spare_other_rows_witness:
  "\<exists>r. signing_requests (weave (\<lambda>_. runPoll) two_views [0, 1, 0, 1, 1, 1] (\<lambda>_. []) two_rows) = [r, settled_row] \<and>
     sr_id r = ''r'' \<and> sr_status r = ''broadcasted'' \<and>
     map sr_status (signing_requests (weave (\<lambda>_. runPoll) two_views [0, 1, 0] (\<lambda>_. []) two_rows)) = [''confirmed'', ''confirmed'']"
proof -
  have rows: "signing_requests two_rows = [stuck_row, settled_row]" by (simp add: two_rows_def sample_db_def)
  have ids: "sr_id stuck_row = ''r''" "sr_id settled_row = ''s''" "sr_status settled_row = ''confirmed''"
    by (simp_all add: stuck_row_def settled_row_def sample_row_def)
  have "distinct (map sr_id (signing_requests two_rows))" by (simp add: rows ids)
  from overlapping_cycles_spare_other_rows [OF this, of two_views "[0, 1, 0, 1, 1, 1]"] two_cycles_replace two_cycles_confirm
  show ?thesis by (auto simp: rows ids list_all2_Cons1)
qed

lemma stuck_sent [simp]: "stuck (w\<lparr>w_sent := rs\<rparr>) = stuck w" "stuck (w\<lparr>w_reads := n\<rparr>) = stuck w" "stuck w \<Longrightarrow> stuck (tick w)"
  by (simp_all add: stuck_def)

lemma stuck_connected: "stuck w \<Longrightarrow> connected w"
  by (simp add: stuck_def connected_def)

lemma stuck_row_simps [simp]:
  "sr_id stuck_row = ''r''" "sr_chain_id stuck_row = 1" "sr_tx_hash stuck_row = Some ''0xh''"
  "sr_status stuck_row = ''broadcasted''" "sr_speed_up_attempts stuck_row = 0" "sr_wallet_id stuck_row = ''w''"
  "sr_broadcasted_at stuck_row = None" "sr_created_at stuck_row = 0" "sr_original_tx_hash stuck_row = None"
  "sr_tx_payload stuck_row = Some (tx_fields_of sample_request sample_fees 0)"
  by (simp_all add: stuck_row_def sample_row_def)

lemma stuck_bump:
  "\<exists>x y. bumpedFees (Some (12, 10)) \<lparr>fe_gasLimit = 6, fe_maxFeePerGas = ''15'', fe_maxPriorityFeePerGas = ''1''\<rparr> = Inr (x, y)"
proof -
  have "bumpedFees (Some (12, 10)) \<lparr>fe_gasLimit = 6, fe_maxFeePerGas = ''15'', fe_maxPriorityFeePerGas = ''1''\<rparr> =
      Inr (''18'', ''2'')" by code_simp
  then show ?thesis by blast
qed

text \<open>In such a world a speed-up of the row goes out, and the row counts one attempt.\<close>

lemma stuck_send:
  assumes "stuck w"
  shows "\<exists>w' cur. signReplacement stuck_row sample_seed sample_wallet tx w = (Inr (), w') \<and>
    tokens w' = Suc (tokens w) \<and> request_row ''r'' (w_db w') = Some cur \<and> sr_speed_up_attempts cur = 1"
proof -
  obtain ch where ch: "map_of (chains sample_env) 1 = Some ch" "cc_rpcUrls ch = [''node'']"
    using sample_chain by blast
  from assms obtain row where row: "request_row ''r'' (w_db w) = Some row"
    by (cases "signing_requests (w_db w)") (auto simp: stuck_def request_row_def)
  have e: "sample_env ''CRYPTO_SERVICE_URL'' = Some ''sign''" "sample_env ''CRYPTO_AUTH_TOKEN'' = Some ''token''"
    by (simp_all add: sample_env_def)
  have t: "has_token (crypto_request u k p b)" "\<not> has_token (rpc_request u m ps)" for u k p b m ps
    by (simp_all add: has_token_def crypto_request_def rpc_request_def)
  have w: "quiet w" "w_net w = stuck_net" "w_env w = sample_env" using assms by (simp_all add: stuck_def)
  from signReplacement_sent [of w "''sign''" "''token''" sample_seed sample_wallet tx sample_reply "''0xh''" "''0xr''"
      stuck_row ch "''node''" "[]" "''0xh''" row "''0xh''"]
  show ?thesis
    by (simp add: connected_signer connected_broadcast sample_reply_props e ch row w) (elim exE conjE, simp add: t)
qed

lemma stuck_step:
  assumes "stuck w"
  shows "\<exists>w'. processRow stuck_row w = (Inr (), w') \<and> stuck w' \<and> tokens w' = Suc (tokens w) \<and>
    map sr_speed_up_attempts (signing_requests (w_db w')) = [1]"
proof -
  have n: "number_fraction ''5'' = Some (5, 1)" "number_fraction ''3'' = Some (3, 1)" "number_fraction ''1.2'' = Some (12, 10)"
    by code_simp+
  have e: "sample_env ''STUCK_THRESHOLD_MINUTES'' = None" "sample_env ''MAX_SPEED_UP_ATTEMPTS'' = None"
    "sample_env ''GAS_BUMP_MULTIPLIER'' = None" by (simp_all add: sample_env_def)
  have t: "\<not> has_token (rpc_request u m ps)" for u m ps by (simp add: has_token_def rpc_request_def)
  have q: "js_truthy (Some (stuck_answer ''eth_getTransactionByHash''))"
    "stuck_answer ''eth_getTransactionReceipt'' = JNull" by (simp_all add: stuck_answer_def)
  let ?w1 = "w\<lparr>w_sent := w_sent w @ [rpc_request ''node'' ''eth_getTransactionReceipt'' [JStr ''0xh'']]\<rparr>"
  define w2 where "w2 = ?w1\<lparr>w_reads := Suc (w_reads w),
    w_sent := w_sent ?w1 @ [rpc_request ''node'' ''eth_getTransactionByHash'' [JStr ''0xh'']]\<rparr>"
  have w2: "stuck w2" "tokens w2 = tokens w" using assms t by (simp_all add: w2_def)
  have "getTransactionReceipt ''0xh'' 1 w = (Inr None, ?w1)"
    using connected_rpc [OF stuck_connected [OF assms]] q by (simp add: getTransactionReceipt_def andThen_def ret_run)
  then have 1: "processRow stuck_row w = checkStuck stuck_row ''0xh'' ?w1"
    by (simp add: processRow_def andThen_def attempt_def)
  have 2: "checkStuck stuck_row ''0xh'' ?w1 = speedUp stuck_row w2"
    using assms stuck_connected [OF assms] n e q connected_rpc [of "?w1\<lparr>w_reads := Suc (w_reads w)\<rparr>" "''eth_getTransactionByHash''" "[JStr ''0xh'']"]
    by (simp add: checkStuck_def setting_def config_get_def andThen_def now_def ret_run Let_def still_fresh_def
        getTransactionByHash_def w2_def) (simp add: stuck_def)
  obtain w3 where w3: "estimateFees ''0xto'' ''5'' ''0x'' 1 None (tick (tick w2)) = (Inr \<lparr>fe_gasLimit = 6,
      fe_maxFeePerGas = ''15'', fe_maxPriorityFeePerGas = ''1''\<rparr>, w3)" "stuck w3" "tokens w3 = tokens w"
    using connected_estimate [OF stuck_connected [of "tick (tick w2)"], of "''0xto''" None] w2
    by (auto simp: connected_fees_def)
  obtain x y where xy: "bumpedFees (Some (12, 10)) \<lparr>fe_gasLimit = 6, fe_maxFeePerGas = ''15'',
      fe_maxPriorityFeePerGas = ''1''\<rparr> = Inr (x, y)" using stuck_bump by blast
  define tx where "tx = replacement_tx 1 (tx_fields_of sample_request sample_fees 0) \<lparr>fe_gasLimit = 6,
      fe_maxFeePerGas = ''15'', fe_maxPriorityFeePerGas = ''1''\<rparr> x y"
  have f: "tx_to (tx_fields_of sample_request sample_fees 0) = ''0xto''"
    "tx_value (tx_fields_of sample_request sample_fees 0) = ''5''"
    "tx_data (tx_fields_of sample_request sample_fees 0) = ''0x''"
    by (simp_all add: tx_fields_of_def sample_request_def)
  have 3: "speedUp stuck_row w2 = signReplacement stuck_row sample_seed sample_wallet tx w3"
  proof -
    have sw: "wl_id sample_wallet = ''w''" "wl_org_id sample_wallet = ''org''" "sd_org_id sample_seed = ''org''"
      by (simp_all add: sample_wallet_def sample_seed_def)
    have db: "quiet w2" "w_env w2 = sample_env" "organization_seeds (w_db w2) = [sample_seed]"
      "wallets (w_db w2) = [sample_wallet]" using w2(1) by (simp_all add: stuck_def)
    have w3e: "w_env w3 = sample_env" using w3(2) by (simp add: stuck_def)
    let ?p = "tx_fields_of sample_request sample_fees 0"
    have "bumpAndReplace stuck_row ?p sample_wallet sample_seed (tick (tick w2)) =
        signReplacement stuck_row sample_seed sample_wallet tx w3"
      using w3(1) xy by (simp add: bumpAndReplace_def setting_def config_get_def andThen_def ret_run
          lift_res_run f w3e e n(3) tx_def)
    moreover have "seed_findByOrgId ''org'' (tick w2) = (Inr (Some sample_seed), tick (tick w2))"
      "wallet_findById ''w'' w2 = (Inr (Some sample_wallet), tick w2)"
      using db sw by (simp_all add: seed_findByOrgId_def wallet_findById_def query_quiet)
    ultimately have "replaceTx stuck_row ?p w2 = signReplacement stuck_row sample_seed sample_wallet tx w3"
      using sw by (simp add: replaceTx_def replaceWith_def andThen_def)
    moreover have "setting ''MAX_SPEED_UP_ATTEMPTS'' ''3'' w2 = (Inr (Some (3, 1)), w2)"
      using db(2) e(2) n(2) by (simp add: setting_def config_get_def andThen_def ret_run)
    ultimately show ?thesis by (simp add: speedUp_def andThen_def budget_spent_def)
  qed
  obtain w4 cur where w4: "signReplacement stuck_row sample_seed sample_wallet tx w3 = (Inr (), w4)"
    "tokens w4 = Suc (tokens w3)" "request_row ''r'' (w_db w4) = Some cur" "sr_speed_up_attempts cur = 1"
    using stuck_send [OF w3(2)] by blast
  have run: "processRow stuck_row w = (Inr (), w4)" using 1 2 3 w4(1) by simp
  have qw: "quiet w" using assms by (simp add: stuck_def)
  have env: "same_env w w4" using preserves_runD [OF processRow_same_env run same_env_refl] .
  obtain rs where db: "w_db w4 = (w_db w)\<lparr>signing_requests := rs\<rparr>" using processRow_confined [OF qw run] by blast
  have "stuck w4" using assms env db processRow_ids [OF qw run] by (simp add: stuck_def same_env_def)
  moreover from this w4(3,4) have "map sr_speed_up_attempts (signing_requests (w_db w4)) = [1]"
    by (cases "signing_requests (w_db w4)") (auto simp: stuck_def request_row_def)
  ultimately show ?thesis using run w4(2) w3(3) by (intro exI [of _ w4] conjI) simp_all
qed

text \<open>Cycles that all read the row before the first speed-up each send a replacement.\<close>

lemma stuck_overlap:
  assumes "stuck w"
  shows "\<exists>s. poller_runs \<lparr>po_world = w, po_cycles = replicate n [stuck_row] @ cs\<rparr> s \<and>
    tokens (po_world s) = tokens w + n \<and>
    (map sr_speed_up_attempts (signing_requests (w_db w)) = [1] \<or> 0 < n \<longrightarrow>
      map sr_speed_up_attempts (signing_requests (w_db (po_world s))) = [1])"
  using assms
proof (induction n arbitrary: w cs)
  case 0
  show ?case by (rule exI [of _ "\<lparr>po_world = w, po_cycles = cs\<rparr>"]) simp
next
  case (Suc n)
  obtain w' where w': "processRow stuck_row w = (Inr (), w')" "stuck w'" "tokens w' = Suc (tokens w)"
    "map sr_speed_up_attempts (signing_requests (w_db w')) = [1]"
    using stuck_step [OF Suc.prems] by (elim exE conjE)
  have cs: "replicate (Suc n) [stuck_row] @ cs = replicate n [stuck_row] @ [stuck_row] # cs"
    by (simp add: replicate_app_Cons_same)
  have "poller_step \<lparr>po_world = w, po_cycles = replicate (Suc n) [stuck_row] @ cs\<rparr>
      \<lparr>po_world = w', po_cycles = (replicate n [stuck_row] @ [stuck_row] # cs)[n := []]\<rparr>"
    unfolding cs by (rule advance [OF _ _ w'(1)]) (simp_all add: nth_append)
  then have step: "poller_step \<lparr>po_world = w, po_cycles = replicate (Suc n) [stuck_row] @ cs\<rparr>
      \<lparr>po_world = w', po_cycles = replicate n [stuck_row] @ [] # cs\<rparr>"
    by (simp only: list_update_append length_replicate less_irrefl if_False diff_self_eq_0 list_update_code(2))
  obtain s where runs: "poller_runs \<lparr>po_world = w', po_cycles = replicate n [stuck_row] @ [] # cs\<rparr> s"
    and s: "tokens (po_world s) = tokens w' + n" "map sr_speed_up_attempts (signing_requests (w_db (po_world s))) = [1]"
    using Suc.IH [OF w'(2), of "[] # cs"] w'(4) by (elim exE conjE) (rule that, assumption+, simp)
  from converse_rtranclp_into_rtranclp [OF step runs] s w'(3) show ?case by (intro exI [of _ s] conjI) simp_all
qed

lemma stuck_starts:
  "poller_runs \<lparr>po_world = stuck_world, po_cycles = []\<rparr>
     \<lparr>po_world = (tick ^^ n) stuck_world, po_cycles = replicate n [stuck_row]\<rparr>"
proof (induction n)
  case (Suc n)
  have "quiet w \<Longrightarrow> quiet ((tick ^^ n) w)" "w_db ((tick ^^ n) w) = w_db w" for w by (induction n) simp_all
  moreover have "quiet stuck_world" "signing_requests (w_db stuck_world) = [stuck_row]"
    by (simp_all add: stuck_world_def) (simp add: calm_world_def sample_db_def)
  ultimately have "sr_findBroadcasted ((tick ^^ n) stuck_world) = (Inr [stuck_row], tick ((tick ^^ n) stuck_world))"
    by (simp add: sr_findBroadcasted_def query_quiet order_by_broadcasted_at_def)
  from rtranclp.rtrancl_into_rtrancl [OF Suc.IH start [OF this]] show ?case
    by (simp add: replicate_append_same)
qed simp

lemma stuck_stuck_world: "stuck ((tick ^^ n) stuck_world)" "tokens ((tick ^^ n) stuck_world) = 0"
proof -
  have "stuck stuck_world" "tokens stuck_world = 0"
    by (simp_all add: stuck_def stuck_world_def calm_world_def sample_db_def quiet_def empty_db_def)
  then show "stuck ((tick ^^ n) stuck_world)" "tokens ((tick ^^ n) stuck_world) = 0"
    by (induction n) simp_all
qed

text \<open>
  C22. Overlapping cycles lose attempts.  For every number of cycles there is a schedule of that
  many overlapping ones, undisturbed and without any failure, in which each cycle asks the
  signer for a replacement of one and the same row, and the row counts a single attempt in
  the end: every cycle writes one more than what it had read.  So the configured limit,
  which bounds the speed-ups of cycles in sequence, bounds nothing when cycles overlap.
\<close>

theorem overlapping_cycles_lose_attempts:
  "\<exists>s. poller_runs \<lparr>po_world = stuck_world, po_cycles = []\<rparr> s \<and>
     length (filter has_token (w_sent (po_world s))) = Suc n \<and>
     map sr_speed_up_attempts (signing_requests (w_db (po_world s))) = [1]"
proof -
  from stuck_overlap [OF stuck_stuck_world(1), of "Suc n" "Suc n" "[]"] obtain s
    where s: "poller_runs \<lparr>po_world = (tick ^^ Suc n) stuck_world, po_cycles = replicate (Suc n) [stuck_row]\<rparr> s"
    "tokens (po_world s) = Suc n" "map sr_speed_up_attempts (signing_requests (w_db (po_world s))) = [1]"
    unfolding stuck_stuck_world(2) append_Nil2 by (elim exE conjE) (rule that, assumption, simp, simp)
  from rtranclp_trans [OF stuck_starts s(1)] s(2,3) show ?thesis by (intro exI [of _ s] conjI)
qed

text \<open>The witness for the budget of cycles in sequence: nine cycles, three speed-ups at most.\<close>

theorem speed_ups_stay_in_budget_witness:
  "length (filter has_token (w_sent (snd (firings 9 stuck_world)))) \<le> 3"
proof -
  have n: "number_fraction (case sample_env ''MAX_SPEED_UP_ATTEMPTS'' of None \<Rightarrow> ''3'' | Some s \<Rightarrow> s) = Some (3, 1)"
    by code_simp
  have "quiet stuck_world" "w_env stuck_world = sample_env" "w_sent stuck_world = []"
    "signing_requests (w_db stuck_world) = [stuck_row]"
    by (simp_all add: stuck_world_def calm_world_def sample_db_def quiet_def)
  with n speed_ups_stay_in_budget [of stuck_world 3 1 9] show ?thesis by simp
qed

end
