(* ===== verification/Boot.thy ===== *)
theory Boot
  imports MonitorTimer
begin

text \<open>
  The start of the server: \<open>bootstrap\<close> of \<open>apps/api/src/main.ts\<close> with the
  configuration (\<open>apps/api/src/config/app.config.ts\<close>), the factory of the database
  client (\<open>libs/db/src/database.module.ts\<close>) and the two start-up hooks that can fail.
  What a world calls its configuration is both \<open>process.env\<close> and \<open>ConfigService\<close>.
\<close>

section \<open>Configuration\<close>

record app_config =
  cfg_port :: js_num
  cfg_nodeEnv :: string
  cfg_db_host :: string
  cfg_db_port :: js_num
  cfg_db_name :: string
  cfg_db_user :: string
  cfg_db_password :: string
  cfg_rpcUrl :: "string option"

text \<open>\<open>process.env.K ?? dflt\<close>: only a variable that is missing is replaced.\<close>

definition env_or :: "(string \<Rightarrow> string option) \<Rightarrow> string \<Rightarrow> string \<Rightarrow> string" where
  "env_or env k dflt = (case env k of None \<Rightarrow> dflt | Some s \<Rightarrow> s)"

definition appConfig :: "(string \<Rightarrow> string option) \<Rightarrow> app_config" where
  "appConfig env = (let nodeEnv = env_or env ''NODE_ENV'' ''development''
     in \<lparr>cfg_port = parseInt10 (env_or env ''PORT'' ''3000''),
         cfg_nodeEnv = nodeEnv,
         cfg_db_host = env_or env ''DB_HOST'' ''localhost'',
         cfg_db_port = parseInt10 (env_or env ''DB_PORT'' ''5432''),
         cfg_db_name = env_or env ''DB_NAME'' ''walletmvp'',
         cfg_db_user = env_or env ''DB_USER'' ''postgres'',
         cfg_db_password = env_or env ''DB_PASSWORD'' (if nodeEnv = ''production'' then '''' else ''postgres''),
         cfg_rpcUrl = env ''RPC_URL''\<rparr>)"

section \<open>Start-up\<close>

text \<open>The factory of \<open>DRIZZLE_CLIENT\<close>: the address that the pool connects to.\<close>

definition databaseUrl :: "string io" where
  "databaseUrl = getOrThrow ''DATABASE_URL''"

text \<open>\<open>server.listen(port)\<close> refuses what is no port.\<close>

definition listen :: "js_num \<Rightarrow> int io" where
  "listen p = (case p of
     NInt n \<Rightarrow> if 0 \<le> n \<and> n < 65536 then ret n
               else throw (JsError ''options.port should be >= 0 and < 65536'')
   | _ \<Rightarrow> throw (JsError ''options.port should be >= 0 and < 65536''))"

record server =
  sv_databaseUrl :: string
  sv_docs :: bool
  sv_crypto :: "string \<times> string"
  sv_chains :: "int list"
  sv_poll_ms :: int
  sv_port :: int

text \<open>
  \<open>NestFactory.create\<close> makes the database client, the documentation is set up, and
  \<open>app.listen\<close> first runs the start-up hooks and then opens the port.
  \<open>get('app.port') ?? 3000\<close> is the port of \<open>appConfig\<close>, which is never missing.
\<close>

definition bootstrap :: "server io" where
  "bootstrap =
     andThen databaseUrl (\<lambda>url.
     andThen (config_get ''NODE_ENV'') (\<lambda>nodeEnv.
     andThen crypto_onModuleInit (\<lambda>crypto.
     andThen getSupportedChainIds (\<lambda>cs.
     andThen onModuleInit (\<lambda>ms.
     andThen (\<lambda>w. (Inr (cfg_port (appConfig (w_env w))), w)) (\<lambda>p.
     andThen (listen p) (\<lambda>port.
     ret \<lparr>sv_databaseUrl = url, sv_docs = (nodeEnv \<noteq> Some ''production''), sv_crypto = crypto,
          sv_chains = cs, sv_poll_ms = ms, sv_port = port\<rparr>)))))))"

section \<open>What a start needs\<close>

definition configured :: "(string \<Rightarrow> string option) \<Rightarrow> bool" where
  "configured env \<longleftrightarrow> (\<forall>k \<in> {''DATABASE_URL'', ''CRYPTO_SERVICE_URL'', ''CRYPTO_AUTH_TOKEN''}. env k \<noteq> None) \<and>
     (case cfg_port (appConfig env) of NInt n \<Rightarrow> 0 \<le> n \<and> n < 65536 | _ \<Rightarrow> False)"

lemmas boot_defs = bootstrap_def databaseUrl_def getOrThrow_def crypto_onModuleInit_def getSupportedChainIds_def
  onModuleInit_def setting_def listen_def andThen_def config_get_def ret_run throw_run

lemma bootstrap_configured:
  assumes "configured (w_env w)"
  shows "\<exists>sv. bootstrap w = (Inr sv, w) \<and> w_env w ''DATABASE_URL'' = Some (sv_databaseUrl sv) \<and>
    w_env w ''CRYPTO_SERVICE_URL'' = Some (fst (sv_crypto sv)) \<and> w_env w ''CRYPTO_AUTH_TOKEN'' = Some (snd (sv_crypto sv)) \<and>
    cfg_port (appConfig (w_env w)) = NInt (sv_port sv) \<and> sv_chains sv = map fst (chains (w_env w)) \<and>
    (sv_docs sv \<longleftrightarrow> cfg_nodeEnv (appConfig (w_env w)) \<noteq> ''production'')"
proof -
  have "cfg_nodeEnv (appConfig (w_env w)) \<noteq> ''production'' \<longleftrightarrow> w_env w ''NODE_ENV'' \<noteq> Some ''production''"
    by (simp add: appConfig_def env_or_def Let_def split: option.split)
  then show ?thesis using assms by (auto simp: boot_defs configured_def split: js_num.splits if_splits)
qed

lemma bootstrap_unconfigured:
  assumes "\<not> configured (w_env w)"
  shows "\<exists>e. bootstrap w = (Inl e, w)"
  using assms by (auto simp: boot_defs configured_def split: option.split js_num.split)

text \<open>No chain, and nothing else that a start reads, is configured by a variable \<open>DB_..\<close>.\<close>

lemma chains_ignore_db: "chains (env(''DB_'' @ k := v)) = chains env"
proof -
  have "env_url (env(''DB_'' @ k := v)) (CHR ''R'' # s) = env_url env (CHR ''R'' # s)" for s
    by (simp add: env_url_def)
  then have "resolveRpcUrls (env(''DB_'' @ k := v)) = resolveRpcUrls env"
    by (simp add: fun_eq_iff resolveRpcUrls_def numbered_urls_def legacy_urls_def rpc_env_key_def)
  then show ?thesis by (simp only: chains_def)
qed

lemma bootstrap_ignores_db:
  "fst (bootstrap (w\<lparr>w_env := (w_env w)(''DB_'' @ k := v)\<rparr>)) = fst (bootstrap w)"
proof -
  have "cfg_port (appConfig ((w_env w)(''DB_'' @ k := v))) = cfg_port (appConfig (w_env w))"
    by (simp add: appConfig_def env_or_def Let_def)
  then show ?thesis by (simp add: boot_defs chains_ignore_db [simplified] split: option.split js_num.split)
qed

text \<open>
  C40. Start-up.  The server starts exactly when the address of the database, the address of the
  signing service and its token are configured and the port is one; it then uses these, and
  serves the documentation unless \<open>NODE_ENV\<close> is \<open>production\<close>.  Otherwise it throws.  A start
  sends and writes nothing.  The variables \<open>DB_..\<close>, the password among them, have no
  effect on it; a missing password becomes the empty text in production.
\<close>

theorem server_starts_when_configured:
  "snd (bootstrap w) = w \<and>
   (case fst (bootstrap w) of
      Inl e \<Rightarrow> \<not> configured (w_env w)
    | Inr sv \<Rightarrow> configured (w_env w) \<and> w_env w ''DATABASE_URL'' = Some (sv_databaseUrl sv) \<and>
        w_env w ''CRYPTO_SERVICE_URL'' = Some (fst (sv_crypto sv)) \<and>
        w_env w ''CRYPTO_AUTH_TOKEN'' = Some (snd (sv_crypto sv)) \<and>
        cfg_port (appConfig (w_env w)) = NInt (sv_port sv) \<and> sv_chains sv = map fst (chains (w_env w)) \<and>
        (sv_docs sv \<longleftrightarrow> cfg_nodeEnv (appConfig (w_env w)) \<noteq> ''production'')) \<and>
   fst (bootstrap (w\<lparr>w_env := (w_env w)(''DB_'' @ k := v)\<rparr>)) = fst (bootstrap w) \<and>
   cfg_db_password (appConfig [''NODE_ENV'' \<mapsto> ''production'']) = []"
proof -
  have "cfg_db_password (appConfig [''NODE_ENV'' \<mapsto> ''production'']) = []"
    by (simp add: appConfig_def env_or_def)
  moreover have "snd (bootstrap w) = w \<and> (case fst (bootstrap w) of
      Inl e \<Rightarrow> \<not> configured (w_env w)
    | Inr sv \<Rightarrow> configured (w_env w) \<and> w_env w ''DATABASE_URL'' = Some (sv_databaseUrl sv) \<and>
        w_env w ''CRYPTO_SERVICE_URL'' = Some (fst (sv_crypto sv)) \<and>
        w_env w ''CRYPTO_AUTH_TOKEN'' = Some (snd (sv_crypto sv)) \<and>
        cfg_port (appConfig (w_env w)) = NInt (sv_port sv) \<and> sv_chains sv = map fst (chains (w_env w)) \<and>
        (sv_docs sv \<longleftrightarrow> cfg_nodeEnv (appConfig (w_env w)) \<noteq> ''production''))"
    using bootstrap_configured [of w] bootstrap_unconfigured [of w] by (cases "configured (w_env w)") auto
  ultimately show ?thesis using bootstrap_ignores_db by blast
qed

end
