(* ===== verification/ApiBodies.thy ===== *)
theory ApiBodies
  imports Api
begin

text \<open>
  What the validated bodies guarantee to the services behind the routes, over the two
  routes that meet when a transaction is signed: the policies one of them stored and the
  transaction the other one accepts.
\<close>

lemma decode_SignTransaction_fields:
  assumes "decode_SignTransaction C j = Inr (Some req)"
  shows "is_canonical_dec (req_value req) \<and> length (req_value req) \<le> 78 \<and>
    hex_bytes (req_data req) \<and> length (req_data req) \<le> 65538 \<and>
    1 \<le> req_chainId req \<and> req_chainId req \<le> 99999999 \<and> isEthereumAddress C (req_to req)"
proof -
  from assms obtain kvs where t: "get_prop ''txFields'' j = Some (JObj kvs)"
    and n: "nested_prop ''txFields'' (valid_TxFields C) j"
    and req: "req = \<lparr>req_chainId = int_of ''chainId'' (JObj kvs), req_to = string_of ''to'' (JObj kvs),
      req_value = string_of ''value'' (JObj kvs), req_data = string_of ''data'' (JObj kvs)\<rparr>"
    by (auto simp: decode_SignTransaction_def Let_def split: if_splits option.splits json.splits)
  from n t have "valid_TxFields C (JObj kvs)" by (simp add: nested_prop_def)
  then show ?thesis
    by (auto simp: req valid_TxFields_def required_prop_def string_that_def int_between_def string_of_def
        int_of_def value_max_digits_def data_max_hex_length_def split: option.splits json.splits)
qed

lemma dec_value_bound: "list_all is_digit s \<Longrightarrow> dec_value s < 10 ^ length s"
proof (induction s rule: rev_induct)
  case (snoc c s)
  then have "dec_value s < 10 ^ length s" "digit_value c < 10" using digit_char_value by auto
  then have "10 * dec_value s + digit_value c < 10 * 10 ^ length s" by linarith
  then show ?case by (simp add: dec_value_snoc)
qed simp

text \<open>
  C32. Amounts and calldata.  A transaction that the signing route accepts has an amount
  whose text is the printed form of the number every consumer reads from it, below 10 to
  the 78th; its calldata is a whole number of bytes, at most 32768; and the selector the
  policies see is missing exactly when there are fewer than four of them.
\<close>

theorem accepted_amounts_round_trip:
  assumes "decode_SignTransaction C j = Inr (Some req)"
  shows "\<exists>n. bigint_of_string (req_value req) = Inr (int n) \<and> show_nat n = req_value req \<and> n < 10 ^ 78 \<and>
    even (length (req_data req)) \<and> length (req_data req) div 2 - 1 \<le> 32768 \<and>
    (pl_dataSelector (policy_payload X req) = None \<longleftrightarrow> length (req_data req) div 2 - 1 < 4)"
proof (intro exI conjI)
  note f = decode_SignTransaction_fields [OF assms]
  show "bigint_of_string (req_value req) = Inr (int (dec_value (req_value req)))"
    using f by (simp add: bigint_of_canonical)
  show "show_nat (dec_value (req_value req)) = req_value req" using f by (simp add: show_dec_value_canonical)
  have "dec_value (req_value req) < 10 ^ length (req_value req)"
    using f by (intro dec_value_bound) (simp add: is_canonical_dec_def is_digits_def)
  also have "(10 :: nat) ^ length (req_value req) \<le> 10 ^ 78" using f by (intro power_increasing) simp_all
  finally show "dec_value (req_value req) < 10 ^ 78" .
  show "even (length (req_data req))" using f by (simp add: hex_bytes_def)
  show "length (req_data req) div 2 - 1 \<le> 32768" using f by linarith
  show "(pl_dataSelector (policy_payload X req) = None) = (length (req_data req) div 2 - 1 < 4)"
    using f by (auto simp: policy_payload_def hex_bytes_def elim!: evenE)
qed

definition sample_tx_body :: json where
  "sample_tx_body = JObj [(''txFields'', JObj [(''chainId'', JNum 1), (''to'', JStr ''0xto''),
     (''value'', JStr ''999''), (''data'', JStr ''0xa9059cbb'')])]"

definition sample_checks :: checks where
  "sample_checks = \<lparr>isUUID = (\<lambda>_. True), isEmail = (\<lambda>_. True), isEthereumAddress = (\<lambda>_. True)\<rparr>"

definition accepted_tx :: sign_request where
  "accepted_tx = \<lparr>req_chainId = 1, req_to = ''0xto'', req_value = ''999'', req_data = ''0xa9059cbb''\<rparr>"

lemma sample_tx_accepted: "decode_SignTransaction sample_checks sample_tx_body = Inr (Some accepted_tx)"
  by code_simp

theorem accepted_amounts_round_trip_witness:
  "pl_dataSelector (policy_payload sample_ext accepted_tx) \<noteq> None"
  using accepted_amounts_round_trip [OF sample_tx_accepted, of sample_ext]
  by (auto simp: accepted_tx_def)

lemma createPolicy_returns:
  assumes "createPolicy X orgId data w = (Inr p, w')"
  shows "validateRuleConfig X (p_rule_type p) (np_rule_config data) = Inr (p_rule_config p)"
  using assms
  by (auto simp: createPolicy_def policy_create_def create_row_def lift_res_run randomUUID_def now_def stmt_def
      Let_def elim!: andThen_returns split: option.splits sum.splits)

text \<open>
  C31. A policy that was created and a transaction that is accepted never meet badly: the
  rule neither raises nor is it reported as invalid, at any time.
\<close>

theorem stored_rules_judge_accepted_requests:
  assumes "createPolicy X orgId data w = (Inr p, w')" and "decode_SignTransaction C j = Inr (Some req)"
  shows "\<exists>v. evaluateRule_at X p (policy_payload X req) t = Inr v \<and> v \<noteq> invalidConfig p"
  using decode_SignTransaction_fields [OF assms(2)]
  by (intro stored_config_is_evaluable [OF createPolicy_returns [OF assms(1)]]) (simp add: policy_payload_def)

theorem stored_rules_judge_accepted_requests_witness:
  "\<exists>p w' v. createPolicy sample_ext ''org'' \<lparr>np_name = ''cap'', np_description = None, np_rule_type = ''spend_limit'',
      np_rule_config = JObj [(''max_amount_wei'', JStr ''500'')], np_applies_to = ''all'', np_target_id = None,
      np_priority = 0, np_status = ''active''\<rparr> (policy_world []) = (Inr p, w') \<and>
    evaluateRule_at sample_ext p (policy_payload sample_ext accepted_tx) 0 = Inr v"
proof -
  let ?run = "createPolicy sample_ext ''org'' \<lparr>np_name = ''cap'', np_description = None, np_rule_type = ''spend_limit'',
      np_rule_config = JObj [(''max_amount_wei'', JStr ''500'')], np_applies_to = ''all'', np_target_id = None,
      np_priority = 0, np_status = ''active''\<rparr> (policy_world [])"
  have "isl (fst ?run) = False" by code_simp
  then obtain p w' where run: "?run = (Inr p, w')" by (cases ?run; cases "fst ?run") auto
  from stored_rules_judge_accepted_requests [OF run sample_tx_accepted, of 0] run show ?thesis by blast
qed

end
