(* ===== verification/Logging.thy ===== *)
theory Logging
  imports Json
begin

text \<open>
  \<open>sanitizeForLog\<close> (\<open>apps/api/src/common/logging.interceptor.ts\<close>): what the request log
  shows of a body and of a response.
\<close>

definition sensitive_fields :: "string list" where
  "sensitive_fields = [''password'', ''token'', ''secret'', ''apikey'', ''api_key'', ''authorization'',
     ''privatekey'', ''private_key'', ''publickey'', ''public_key'', ''mnemonic'', ''seed'', ''encrypted'',
     ''dek'', ''bootstrap'', ''nonce'']"

definition is_sensitive :: "string \<Rightarrow> bool" where
  "is_sensitive k = list_ex (js_includes (toLowerCase k)) sensitive_fields"

definition redacted :: json where
  "redacted = JStr ''[REDACTED]''"

fun sanitizeForLog :: "json \<Rightarrow> json" where
  "sanitizeForLog (JArr xs) = JArr (map sanitizeForLog xs)"
| "sanitizeForLog (JObj kvs) =
     JObj (map (\<lambda>(k, v). (k, if is_sensitive k then redacted else sanitizeForLog v)) kvs)"
| "sanitizeForLog v = v"

section \<open>What the log can show\<close>

text \<open>The properties of the objects in a value, at any depth.\<close>

fun members :: "json \<Rightarrow> (string \<times> json) list" where
  "members (JArr xs) = concat (map members xs)"
| "members (JObj kvs) = kvs @ concat (map (\<lambda>(k, v). members v) kvs)"
| "members _ = []"

lemma sanitized_members:
  "(k, v) \<in> set (members (sanitizeForLog j)) \<Longrightarrow> is_sensitive k \<Longrightarrow> v = redacted"
proof (induction j rule: sanitizeForLog.induct)
  case (2 kvs)
  let ?f = "\<lambda>(k, v). (k, if is_sensitive k then redacted else sanitizeForLog v)"
  from 2 have "(k, v) \<in> set (map ?f kvs) \<union> set (concat (map (\<lambda>(k, v). members v) (map ?f kvs)))"
    by (simp only: sanitizeForLog.simps members.simps set_append)
  then consider "(k, v) \<in> set (map ?f kvs)"
    | "(k, v) \<in> set (concat (map (\<lambda>(k, v). members v) (map ?f kvs)))" by blast
  then show ?case
  proof cases
    case 1
    with 2(3) show ?thesis by auto
  next
    case 2: 2
    then obtain k' v' where "(k', v') \<in> set kvs" "(k, v) \<in> set (members (if is_sensitive k' then redacted else sanitizeForLog v'))"
      by auto
    then show ?thesis using "2.IH" \<open>is_sensitive k\<close> by (auto simp: redacted_def split: if_splits)
  qed
qed auto

lemma sanitize_untouched:
  "\<forall>(k, v) \<in> set (members j). \<not> is_sensitive k \<Longrightarrow> sanitizeForLog j = j"
proof (induction j rule: sanitizeForLog.induct)
  case (1 xs)
  then show ?case by (auto intro!: map_idI)
next
  case (2 kvs)
  have "(k, if is_sensitive k then redacted else sanitizeForLog v) = (k, v)" if "(k, v) \<in> set kvs" for k v
  proof -
    have "\<not> is_sensitive k" using that "2.prems" by auto
    moreover have "set (members v) \<subseteq> set (members (JObj kvs))" using that by auto
    then have "\<forall>(k, v) \<in> set (members v). \<not> is_sensitive k" using "2.prems" by blast
    ultimately show ?thesis using "2.IH" [OF that refl] by simp
  qed
  then have "map (\<lambda>(k, v). (k, if is_sensitive k then redacted else sanitizeForLog v)) kvs = kvs"
    by (intro map_idI) auto
  then show ?case by simp
qed auto

text \<open>
  Redaction.  In what is logged, every property with a sensitive name, at any depth,
  shows only the mark; a value without such a property is logged as it is; and a sanitized
  value is not changed by sanitizing it again.
\<close>

theorem log_is_redacted:
  "(\<forall>(k, v) \<in> set (members (sanitizeForLog j)). is_sensitive k \<longrightarrow> v = redacted) \<and>
   ((\<forall>(k, v) \<in> set (members j). \<not> is_sensitive k) \<longrightarrow> sanitizeForLog j = j) \<and>
   sanitizeForLog (sanitizeForLog j) = sanitizeForLog j"
proof -
  have "sanitizeForLog (sanitizeForLog j) = sanitizeForLog j"
  proof (induction j rule: sanitizeForLog.induct)
    case (2 kvs)
    then show ?case by (auto simp: redacted_def)
  qed auto
  with sanitized_members sanitize_untouched show ?thesis by blast
qed

theorem log_is_redacted_witness:
  "sanitizeForLog (JObj [(''name'', JStr ''a''), (''items'', JArr [JNum 1])]) =
     JObj [(''name'', JStr ''a''), (''items'', JArr [JNum 1])]"
proof -
  let ?j = "JObj [(''name'', JStr ''a''), (''items'', JArr [JNum 1])]"
  have "\<forall>(k, v) \<in> set (members ?j). \<not> is_sensitive k" by code_simp
  with log_is_redacted [of ?j] show ?thesis by blast
qed

end
