(* ===== verification/RequestLog.thy ===== *)
theory RequestLog
  imports ApiRuns Logging
begin

text \<open>
  The request log (\<open>LoggingInterceptor\<close> in \<open>apps/api/src/common/logging.interceptor.ts\<close>),
  registered globally in \<open>main.ts\<close>: it runs behind the guards and before the pipe
  that validates the body, so a request the guards refuse leaves no entry, one that fails
  later leaves its first entry only.  The log goes to the standard output; here it is part
  of the outcome of a request.
\<close>

text \<open>The two entries; a time is the number of \<open>Date.now()\<close>, and a duration a difference of two.\<close>

datatype log_entry =
    LogRequest int string string json "string option" "string option"
      \<comment> \<open>\<open>timestamp\<close>, \<open>method\<close>, \<open>url\<close>, \<open>body\<close>, \<open>userAgent\<close>, \<open>ip\<close>\<close>
  | LogResponse int string string nat int json
      \<comment> \<open>\<open>timestamp\<close>, \<open>method\<close>, \<open>url\<close>, \<open>statusCode\<close>, \<open>duration\<close>, \<open>responseBody\<close>\<close>

text \<open>What \<open>intercept\<close> reads of a request beside its body and headers, and of a response.\<close>

record exchange =
  ex_method :: string
  ex_url :: string
  ex_statusCode :: nat

text \<open>
  \<open>next.handle().pipe(tap(..))\<close>: the second entry is written when the handler delivers a
  value.  \<open>view\<close> is that value as \<open>Object.entries\<close> sees it.
\<close>

definition intercept :: "exchange \<Rightarrow> request \<Rightarrow> json \<Rightarrow> ('a \<Rightarrow> json) \<Rightarrow> 'a io \<Rightarrow>
    (log_entry list \<times> (js_error + 'a)) io" where
  "intercept ex rq body view handle =
     andThen now (\<lambda>timestamp.
     let request = LogRequest timestamp (ex_method ex) (ex_url ex) (sanitizeForLog body)
           (hr_headers rq ''user-agent'') (hr_ip rq)
     in andThen now (\<lambda>startTime.
     andThen (attempt handle) (\<lambda>r. case r of
         Inl e \<Rightarrow> ret ([request], Inl e)
       | Inr responseData \<Rightarrow>
           andThen now (\<lambda>end_time.
           andThen now (\<lambda>timestamp'.
           ret ([request, LogResponse timestamp' (ex_method ex) (ex_url ex) (ex_statusCode ex)
                  (end_time - startTime) (sanitizeForLog (view responseData))], Inr responseData))))))"

text \<open>The path of a request with the interceptor in its place.\<close>

definition serve_logged :: "edge \<Rightarrow> route \<Rightarrow> exchange \<Rightarrow> ('a \<Rightarrow> json) \<Rightarrow> (json \<Rightarrow> js_error + 'd) \<Rightarrow>
    (request \<Rightarrow> 'd \<Rightarrow> 'a io) \<Rightarrow> request \<Rightarrow> (log_entry list \<times> (js_error + 'a)) io" where
  "serve_logged E rt ex view decode handler rq = runWithRequestContext (request_context_of rq)
     (andThen (attempt (andThen (lift_res (parsedBody E rq)) (\<lambda>body.
        andThen (guards E rt rq) (\<lambda>rq'. ret (body, rq'))))) (\<lambda>g. case g of
         Inl e \<Rightarrow> ret ([], Inl e)
       | Inr (body, rq') \<Rightarrow> intercept ex rq' body view
           (andThen (lift_res (decode body)) (\<lambda>dto. handler rq' dto))))"

fun logged_body :: "log_entry \<Rightarrow> json" where
  "logged_body (LogRequest _ _ _ j _ _) = j"
| "logged_body (LogResponse _ _ _ _ _ j) = j"

section \<open>Outcomes\<close>

text \<open>The log of a request that reached the interceptor.\<close>

definition entries_for :: "exchange \<Rightarrow> request \<Rightarrow> json \<Rightarrow> ('a \<Rightarrow> json) \<Rightarrow> js_error + 'a \<Rightarrow> int \<Rightarrow> int \<Rightarrow> int \<Rightarrow>
    log_entry list" where
  "entries_for ex rq body view r t t' d =
     LogRequest t (ex_method ex) (ex_url ex) (sanitizeForLog body) (hr_headers rq ''user-agent'') (hr_ip rq) #
     (case r of Inl e \<Rightarrow> []
      | Inr x \<Rightarrow> [LogResponse t' (ex_method ex) (ex_url ex) (ex_statusCode ex) d (sanitizeForLog (view x))])"

lemma intercept_outcome:
  assumes "intercept ex rq body view m w = (q, w')"
  shows "\<exists>t t' d r. q = Inr (entries_for ex rq body view r t t' d, r)"
proof -
  let ?w1 = "w\<lparr>w_reads := Suc (Suc (w_reads w))\<rparr>"
  obtain r w2 where m: "m ?w1 = (r, w2)" by fastforce
  show ?thesis
  proof (cases r)
    case (Inl e)
    with m assms show ?thesis
      by (auto simp: intercept_def andThen_def now_run attempt_def ret_run Let_def entries_for_def)
  next
    case (Inr x)
    with m assms have "q = Inr (entries_for ex rq body view (Inr x) (w_clock w (w_reads w))
        (w_clock w2 (Suc (w_reads w2))) (w_clock w2 (w_reads w2) - w_clock w (Suc (w_reads w))), Inr x)"
      by (auto simp: intercept_def andThen_def now_run attempt_def ret_run Let_def entries_for_def)
    then show ?thesis by blast
  qed
qed

lemma entries_redacted:
  assumes "a \<in> set (entries_for ex rq body view r t t' d)" and "(k, v) \<in> set (members (logged_body a))"
    and "is_sensitive k"
  shows "v = redacted"
  using assms sanitized_members by (auto simp: entries_for_def split: sum.splits)

section \<open>Property\<close>

text \<open>
  C39. The request log.  A request whose body is no JSON, or that a guard refuses, leaves no entry and
  sends nothing.  Any other leaves one entry with its sanitized body, and a second one with
  the sanitized result exactly when it returns a result.  In no entry is a property with a
  sensitive name shown, at any depth; and a body without such a property is logged as it is.
\<close>

theorem request_log_is_faithful:
  assumes "serve_logged E rt ex view decode handler rq w = (q, w')"
  shows "\<exists>log r. q = Inr (log, r) \<and>
    (case (parsedBody E rq, fst (guards E rt rq (w\<lparr>w_ctx := Some (request_context_of rq)\<rparr>))) of
       (Inr body, Inr rq') \<Rightarrow> (\<exists>t t' d. log = entries_for ex rq' body view r t t' d) \<and>
          ((\<forall>(k, v) \<in> set (members body). \<not> is_sensitive k) \<longrightarrow> logged_body (hd log) = body)
     | _ \<Rightarrow> log = [] \<and> (\<exists>e. r = Inl e) \<and> w_sent w' = w_sent w) \<and>
    (\<forall>a \<in> set log. \<forall>(k, v) \<in> set (members (logged_body a)). is_sensitive k \<longrightarrow> v = redacted)"
proof -
  let ?w0 = "w\<lparr>w_ctx := Some (request_context_of rq)\<rparr>"
  obtain g w1 where g: "guards E rt rq ?w0 = (g, w1)" by fastforce
  have w1: "w_sent w1 = w_sent w"
    using preserves_runD [OF guards_silent g, of "w_sent w"] by (simp add: silent_def)
  show ?thesis
  proof (cases "parsedBody E rq")
    case (Inl e)
    with assms show ?thesis
      by (auto simp: serve_logged_def runWithRequestContext_def andThen_def lift_res_run attempt_def ret_run)
  next
    case body: (Inr body)
    show ?thesis
    proof (cases g)
      case (Inl e)
      with body g w1 assms show ?thesis
        by (auto simp: serve_logged_def runWithRequestContext_def andThen_def lift_res_run attempt_def ret_run)
    next
      case (Inr rq')
      let ?m = "andThen (lift_res (decode body)) (\<lambda>dto. handler rq' dto)"
      have "\<exists>w2. intercept ex rq' body view ?m w1 = (q, w2)"
        using body g Inr assms
        by (auto simp: serve_logged_def runWithRequestContext_def andThen_def lift_res_run attempt_def ret_run
            split: prod.splits)
      then obtain t t' d r where q: "q = Inr (entries_for ex rq' body view r t t' d, r)"
        using intercept_outcome by blast
      moreover have "(\<forall>(k, v) \<in> set (members body). \<not> is_sensitive k) \<longrightarrow>
          logged_body (hd (entries_for ex rq' body view r t t' d)) = body"
        using sanitize_untouched by (simp add: entries_for_def)
      moreover have "\<forall>a \<in> set (entries_for ex rq' body view r t t' d). \<forall>(k, v) \<in> set (members (logged_body a)).
          is_sensitive k \<longrightarrow> v = redacted"
        using entries_redacted by blast
      ultimately show ?thesis
        by (intro exI [of _ "entries_for ex rq' body view r t t' d"] exI [of _ r] conjI)
          (assumption | simp add: body g Inr, blast)+
    qed
  qed
qed

text \<open>A body with a secret, on a public route.\<close>

theorem request_log_is_faithful_witness:
  "\<exists>t t' d w'. serve_logged (sample_edge\<lparr>ed_parseBody := (\<lambda>_. Some (JObj [(''name'', JStr ''a''), (''apiToken'', JStr ''s'')]))\<rparr>)
      public_route \<lparr>ex_method = ''POST'', ex_url = ''/'', ex_statusCode = 201\<rparr> (\<lambda>_. JObj [(''bootstrapToken'', JStr ''s'')])
      no_body (\<lambda>_ _. ret ()) stamped_request api_world =
    (Inr ([LogRequest t ''POST'' ''/'' (JObj [(''name'', JStr ''a''), (''apiToken'', redacted)])
             (hr_headers stamped_request ''user-agent'') (hr_ip stamped_request),
           LogResponse t' ''POST'' ''/'' 201 d (JObj [(''bootstrapToken'', redacted)])], Inr ()), w')"
proof -
  let ?E = "sample_edge\<lparr>ed_parseBody := (\<lambda>_. Some (JObj [(''name'', JStr ''a''), (''apiToken'', JStr ''s'')]))\<rparr>"
  let ?ex = "\<lparr>ex_method = ''POST'', ex_url = ''/'', ex_statusCode = 201\<rparr>"
  let ?view = "\<lambda>_ :: unit. JObj [(''bootstrapToken'', JStr ''s'')]"
  let ?rq = stamped_request
  have ok: "guards ?E public_route ?rq v = (Inr ?rq, v)" for v
    by (simp add: guards_def stampVerifier_def throttlerGuard_def scopesGuard_def public_route_def sample_edge_def
        andThen_def ret_run)
  have body: "parsedBody ?E ?rq = Inr (JObj [(''name'', JStr ''a''), (''apiToken'', JStr ''s'')])"
    by (simp add: parsedBody_def stamped_request_def)
  have s: "sanitizeForLog (JObj [(''name'', JStr ''a''), (''apiToken'', JStr ''s'')]) = JObj [(''name'', JStr ''a''), (''apiToken'', redacted)]"
    "sanitizeForLog (JObj [(''bootstrapToken'', JStr ''s'')]) = JObj [(''bootstrapToken'', redacted)]" by code_simp+
  have "\<exists>l w'. serve_logged ?E public_route ?ex ?view no_body (\<lambda>_ _. ret ()) ?rq api_world = (Inr (l, Inr ()), w')"
    by (simp add: serve_logged_def runWithRequestContext_def andThen_def lift_res_run attempt_def ret_run ok body
        intercept_def now_run no_body_def Let_def)
  then obtain l w' where run:
    "serve_logged ?E public_route ?ex ?view no_body (\<lambda>_ _. ret ()) ?rq api_world = (Inr (l, Inr ()), w')" by blast
  from request_log_is_faithful [OF run] obtain t t' d
    where "l = entries_for ?ex ?rq (JObj [(''name'', JStr ''a''), (''apiToken'', JStr ''s'')]) ?view (Inr ()) t t' d"
    by (auto simp: ok body)
  with run s show ?thesis by (simp add: entries_for_def)
qed

end
