(* ===== verification/GasWait.thy ===== *)
theory GasWait
  imports Gas
begin

text \<open>
  \<open>GasService.waitForReceipt\<close> (\<open>libs/gas/src/gas.service.ts\<close>): polling for a receipt
  until a deadline.  The loop ends by the clock alone, so it takes fuel, \<open>None\<close> being the
  lack of it; \<open>waiting_ends\<close> states how much is enough once the pauses between two
  questions really take time.  The pause itself does nothing else.
\<close>

fun waitLoop :: "nat \<Rightarrow> int \<Rightarrow> string \<Rightarrow> int \<Rightarrow> (json option \<times> bool) option io" where
  "waitLoop 0 deadline txHash chainId = ret None"
| "waitLoop (Suc n) deadline txHash chainId =
     andThen now (\<lambda>t.
     if t < deadline
     then andThen (rpcCallWithRetry ''eth_getTransactionReceipt'' [JStr txHash] chainId) (\<lambda>receipt.
          if receipt \<noteq> Some JNull then ret (Some (receipt, False))
          else waitLoop n deadline txHash chainId)
     else andThen (attempt (rpcCallWithRetry ''eth_getTransactionByHash'' [JStr txHash] chainId)) (\<lambda>_.
          ret (Some (Some JNull, True))))"

definition waitForReceipt :: "nat \<Rightarrow> string \<Rightarrow> int \<Rightarrow> int option \<Rightarrow> (json option \<times> bool) option io" where
  "waitForReceipt fuel txHash chainId timeoutMs =
     andThen now (\<lambda>t. waitLoop fuel (t + (case timeoutMs of None \<Rightarrow> 60000 | Some m \<Rightarrow> m)) txHash chainId)"

section \<open>The wait ends\<close>

text \<open>A call of a node neither reads the clock nor changes it.\<close>

lemma rpc_reads:
  assumes "rpcCallWithRetry meth params c w = (r, w')"
  shows "w_reads w' = w_reads w \<and> w_clock w' = w_clock w"
proof -
  have "preserves (\<lambda>v. w_reads v = w_reads w \<and> w_clock v = w_clock w) (rpcCallWithRetry meth params c)"
    by (rule rpc_preserves) (simp add: preserves_def fetch_def)
  from preserves_runD [OF this assms] show ?thesis by simp
qed

text \<open>From the read \<open>i\<close> on, two reads of the clock lie at least the pause of three seconds apart.\<close>

definition paced :: "(nat \<Rightarrow> int) \<Rightarrow> nat \<Rightarrow> bool" where
  "paced clock i \<longleftrightarrow> (\<forall>j \<ge> i. clock j + 3000 \<le> clock (Suc j))"

lemma waitLoop_ends:
  assumes "paced (w_clock w) (w_reads w)" and "deadline \<le> w_clock w (w_reads w) + 3000 * int n"
  shows "fst (waitLoop (Suc n) deadline h c w) \<noteq> Inr None"
  using assms
proof (induction n arbitrary: w)
  case 0
  then show ?case by (simp add: andThen_def now_def attempt_def ret_run split: prod.split sum.split)
next
  case (Suc n)
  let ?w = "w\<lparr>w_reads := Suc (w_reads w)\<rparr>"
  obtain r w' where rpc: "rpcCallWithRetry ''eth_getTransactionReceipt'' [JStr h] c ?w = (r, w')" by fastforce
  have "paced (w_clock w') (w_reads w')" "w_clock w (w_reads w) + 3000 \<le> w_clock w' (w_reads w')"
    using Suc.prems(1) rpc_reads [OF rpc] by (auto simp: paced_def)
  with Suc.IH [of w'] Suc.prems(2) have again: "fst (waitLoop (Suc n) deadline h c w') \<noteq> Inr None" by simp
  show ?case
  proof (cases "w_clock w (w_reads w) < deadline")
    case True
    with rpc again show ?thesis
      by (cases r) (auto simp: waitLoop.simps(2) [of "Suc n"] andThen_def now_def ret_run simp del: waitLoop.simps)
  next
    case False
    then show ?thesis
      by (simp add: waitLoop.simps(2) [of "Suc n"] andThen_def now_def attempt_def ret_run del: waitLoop.simps
          split: prod.split sum.split)
  qed
qed

lemma traffic_waitLoop: "traffic is_node_call (waitLoop n deadline h c) (15 * n)"
proof (induction n)
  case 0
  show ?case by (simp add: traffic_silent preserves_ret)
next
  case (Suc n)
  have "traffic is_node_call (andThen (rpcCallWithRetry ''eth_getTransactionReceipt'' [JStr h] c) (\<lambda>receipt.
      if receipt \<noteq> Some JNull then ret (Some (receipt, False)) else waitLoop n deadline h c)) (15 + 15 * n)"
    using Suc by (intro traffic_andThen traffic_node) (simp add: traffic_silent preserves_ret)
  moreover have "traffic is_node_call (andThen (attempt (rpcCallWithRetry ''eth_getTransactionByHash'' [JStr h] c))
      (\<lambda>_. ret (Some (Some JNull, True)))) (15 + 15 * n)"
    by (rule traffic_mono [where b = 15], intro traffic_then_silent traffic_attempt traffic_node preserves_intros) simp
  ultimately show ?case
    by (simp only: waitLoop.simps mult_Suc_right) (intro traffic_after_silent preserves_intros, simp)
qed

text \<open>
  C38. Waiting ends.  If the clock does not run backwards and every pause takes its three
  seconds, waiting for a receipt comes to a result or an error after at most the timeout
  divided by the pause, plus two, rounds; and one round sends at most fifteen requests, all
  of them to nodes.
\<close>

theorem waiting_ends:
  assumes "paced (w_clock w) (Suc (w_reads w))" and "w_clock w (w_reads w) \<le> w_clock w (Suc (w_reads w))"
    and "0 \<le> timeoutMs" and "n = nat (timeoutMs div 3000) + 2"
  shows "fst (waitForReceipt n h c (Some timeoutMs) w) \<noteq> Inr None \<and>
    (\<exists>rs. w_sent (snd (waitForReceipt n h c (Some timeoutMs) w)) = w_sent w @ rs \<and> length rs \<le> 15 * n \<and>
       list_all is_node_call rs)"
proof -
  let ?w = "w\<lparr>w_reads := Suc (w_reads w)\<rparr>"
  have run: "waitForReceipt n h c (Some timeoutMs) w = waitLoop n (w_clock w (w_reads w) + timeoutMs) h c ?w"
    by (simp add: waitForReceipt_def andThen_def now_def)
  have "n = Suc (nat (timeoutMs div 3000) + 1)" using assms(4) by simp
  moreover have "timeoutMs \<le> 3000 * int (nat (timeoutMs div 3000) + 1)" using assms(3) by (simp add: nat_div_distrib)
  ultimately have "fst (waitLoop n (w_clock w (w_reads w) + timeoutMs) h c ?w) \<noteq> Inr None"
    using assms(1,2) waitLoop_ends [of ?w "w_clock w (w_reads w) + timeoutMs" "nat (timeoutMs div 3000) + 1" h c]
    by (simp only: world.simps) simp
  moreover have "\<exists>rs. w_sent (snd (waitLoop n (w_clock w (w_reads w) + timeoutMs) h c ?w)) = w_sent ?w @ rs \<and>
      length rs \<le> 15 * n \<and> list_all is_node_call rs"
    using traffic_waitLoop unfolding traffic_iff by blast
  ultimately show ?thesis unfolding run by simp
qed

theorem waiting_ends_witness:
  "fst (waitForReceipt 3 ''0xh'' 1 (Some 3000)
     ((calm_world empty_db (\<lambda>_ _. NetError ''down'') Map.empty 0)\<lparr>w_clock := (\<lambda>i. 3000 * int i)\<rparr>)) \<noteq> Inr None"
  using waiting_ends [of "(calm_world empty_db (\<lambda>_ _. NetError ''down'') Map.empty 0)\<lparr>w_clock := (\<lambda>i. 3000 * int i)\<rparr>"
      3000 3 "''0xh''" 1]
  by (simp add: paced_def)

end
