(* ===== verification/Spec2Isabelle.thy ===== *)
theory Spec2Isabelle
  imports SigningRaces ApiLife Derivation Boot ApiBodies RequestLog GasWait
begin

text \<open>
  A verification of BrokeTurnkey, a service that holds the wallets of organizations: an
  organization stamps its HTTP requests with an API key, its policies decide which transactions
  are signed, a separate signer keeps the seeds, and a monitor follows every transaction until
  it is mined.  The repository is a NestJS monorepo: the application is \<open>apps/api\<close>, the
  services are under \<open>libs\<close>, the signer is a Go program under \<open>cmd/crypto\<close>.


  How the program works, and where it is modelled.

  A request enters through the pipeline of \<open>apps/api/src/main.ts\<close>: its context is stored,
  its body parsed, the stamp guard identifies the key, the rate limiter counts, the scopes guard
  compares scopes, the interceptor logs the request, the validation pipe decodes the body, and
  a controller calls a service.
  The services read and write PostgreSQL through repositories, and reach the nodes of
  the chains and the signer by HTTP.  Independently, a timer starts the cycles of the monitor.

  \<^item> \<open>Prelude\<close>: asynchronous methods as state transformers with exceptions
    (\<open>ret\<close>, \<open>throw\<close>, \<open>andThen\<close>, \<open>catch\<close>, \<open>attempt\<close>, \<open>both\<close> for \<open>Promise.all\<close>),
    weakest preconditions, preservation of invariants, rows of a table.  \<open>Triples\<close>: calls
    followed to where they return and to where they throw.
  \<^item> \<open>Js\<close>, \<open>Json\<close>: what the source uses of the language: strings, \<open>BigInt\<close>, \<open>Number\<close>,
    \<open>parseInt\<close>, regular expressions, and values of type \<open>unknown\<close>.
  \<^item> \<open>Schema\<close> (\<open>libs/db/src/schema\<close>): the nine tables as records and the database of all
    of them.
  \<^item> \<open>World\<close> (with \<open>libs/db/src/request-context.ts\<close>): the database, what runs
    beside the call, and what is outside: clock, identifiers, network, configuration.
  \<^item> \<open>Weave\<close>: calls that run at the same time, interleaved at every statement.
  \<^item> \<open>Traffic\<close>: what a call sends: budgets and shapes of requests.
  \<^item> \<open>Repositories\<close> and \<open>WalletNonces\<close> (\<open>libs/db/src/repositories\<close>): every method of
    a repository as one statement.
  \<^item> \<open>Chain\<close>, \<open>Gas\<close>, \<open>GasWait\<close> (\<open>libs/gas/src\<close>): supported chains and provider URLs,
    classification of errors, fees, nonces, broadcast, receipts and the JSON-RPC client.
  \<^item> \<open>Policy\<close> (\<open>libs/policy/src/policy.service.ts\<close>): validation, storage and evaluation of
    the rules.
  \<^item> \<open>CryptoClient\<close> (\<open>libs/crypto-client/src\<close>): the client of the signer.
  \<^item> \<open>WalletService\<close>, \<open>Derivation\<close>, \<open>WalletSigning\<close>, \<open>SigningRuns\<close>,
    \<open>SigningRaces\<close>, \<open>SigningPhases\<close>, \<open>SigningEnds\<close>
    (\<open>libs/wallet/src/wallet.service.ts\<close>): onboarding, derivation, the queries, and the signing
    pipeline; wallets derived at the same time; what signing guarantees under interference; its
    complete runs; requests for the same transaction that run at the same time; the contract of
    its statements; the states a request ends in.  \<open>SampleChain\<close> holds the node and the
    signer of the examples.
  \<^item> \<open>Signing\<close> (\<open>libs/wallet/src/signing.service.ts\<close>): typed data and messages.
  \<^item> \<open>Auth\<close> (\<open>libs/auth/src\<close>): guards, keys, bootstrap tokens; \<open>External\<close>: the packages
    called there.
  \<^item> \<open>Users\<close> (\<open>libs/users/src\<close>), \<open>Organizations\<close>
    (\<open>apps/api/src/organizations/organizations.service.ts\<close>).
  \<^item> \<open>Monitor\<close>, \<open>MonitorRuns\<close>, \<open>MonitorCycle\<close>, \<open>MonitorBudget\<close>,
    \<open>MonitorTimer\<close> (\<open>libs/monitor/src\<close>): speed-up, one step of a row, a cycle, cycles in
    sequence, and the timer with cycles that overlap.
  \<^item> \<open>EndToEnd\<close>, \<open>ServiceRuns\<close>: the signing service and the monitor together, for one
    transaction and over the whole life of the service.
  \<^item> \<open>Dto\<close>, \<open>Api\<close>, \<open>ApiRuns\<close>, \<open>Bystanders\<close>, \<open>ApiLife\<close>, \<open>ApiBodies\<close>, \<open>Logging\<close>,
    \<open>RequestLog\<close> (\<open>apps/api/src\<close>): the bodies with their decorators as decoders, the path of a
    request and every route, what the routes promise, the calls that do not sign, any calls of
    the API over time, the redaction of the log and the interceptor that writes it.
  \<^item> \<open>Boot\<close> (\<open>bootstrap\<close> of \<open>main.ts\<close>, \<open>apps/api/src/config/app.config.ts\<close>, the factory in
    \<open>libs/db/src/database.module.ts\<close>): the configuration and what a start needs.

  Names are those of the source where the logic allows it; a method whose name exists in
  several classes carries its table or controller as a prefix (\<open>sr_findById\<close>,
  \<open>wallets_signTransaction\<close>).


  State, interference and failure.

  The field \<open>w_db\<close> of the world is the database.  A statement first lets the other
  requests act (\<open>w_sched\<close>, an arbitrary function of the number of the statement and of the
  database) and may then fail (\<open>w_fault\<close>); otherwise it is atomic.  A violated unique
  index is an error of the server with the code 23505; what the client of the database passes on
  of it is a parameter (\<open>w_driver\<close>), since the source looks for the code on the error it
  catches while \<open>drizzle-orm\<close> of the version in \<open>package.json\<close> wraps the errors of the server and
  keeps the code under \<open>cause\<close> (\<open>query_error\<close>).  Theorems that need the code to be seen say so;
  \<open>hidden_conflicts_end_retries\<close> shows what becomes of requests when it is not.
  Violated foreign keys and lengths of columns are faults.
  A theorem without a hypothesis on \<open>w_sched\<close> holds under every interleaving of statements;
  \<open>stable J\<close> restricts the others to those that keep \<open>J\<close>; \<open>quiet\<close> excludes
  interference and faults, for theorems on the complete effect of a run.  Both speak of the
  statements from now on.  Answers of nodes and
  of the signer (\<open>w_net\<close>), the clock (\<open>w_clock\<close>), new identifiers (\<open>w_uuid\<close>) and the
  configuration (\<open>w_env\<close>) are arbitrary functions; every request is appended to \<open>w_sent\<close>.
  An exception is a value of \<open>js_error\<close>, and what was written before it stays written.

  The functions of packages are fields of records that are arguments of the model:
  \<open>ext\<close> (hashing, signatures, address format, parsing of dates), \<open>checks\<close> (formats tested
  by decorators) and \<open>edge\<close> (the body parser, the rate limiter).


  Groups of lemmas.

  \<^item> Invariants: uniqueness of requests and idempotency keys (locale \<open>request_invariant\<close>,
    on the model's own \<open>requests_unique\<close>), of row identifiers (locale \<open>row_table\<close>,
    interpreted for every table with an identifier), and what a monitor step does to its own
    row (locale \<open>own_row\<close>, interpreted three times, and a sublocale of
    \<open>request_invariant\<close>).
  \<^item> Nonces: the locale \<open>nonce_allocator\<close> states what reservation, release and
    synchronization promise; the upserts of the repository interpret it.  Freshness under every
    interleaving is proved inside it by rule induction.
  \<^item> Budgets: \<open>emits\<close> and \<open>rationed\<close> bound what a call sends; the locale
    \<open>bounded_call\<close> gives those of the JSON-RPC client.
  \<^item> Policies: \<open>decision\<close> is the reference definition \<open>evaluate\<close> is equal to.
  \<^item> Monitor: \<open>lifecycle\<close> is the abstract life of a signing request which a cycle
    refines.  \<open>pays\<close> accounts for every request of the signer, so that cycles in sequence
    keep to the configured attempts (\<open>speed_ups_stay_in_budget\<close>).  \<open>weave\<close>
    interleaves overlapping cycles at every statement; by its rule for parallel composition
    (\<open>weave_keeps\<close>) only rows that were broadcasted are touched.  The budget is lost there; to
    show that, the coarser \<open>poller_step\<close>, which takes a row in one step, is enough.
  \<^item> Derivation: \<open>tidy\<close> is the state between two statements while the others insert no wallet
    out of turn; an index that was read too early meets the unique index on the path, so the
    wallets of an organization stay without gaps (\<open>derivation_leaves_no_gaps\<close>).
  \<^item> Ends: the triple \<open>leads P m Q E\<close> follows a call to where it returns and to where it
    throws.  The locale \<open>signing_phases\<close> states what the statements of an undisturbed request do,
    and carries a property from the claim to the end once; it is interpreted three times: on the
    rows that are on their way (\<open>requests_do_not_hang\<close>), on the nonces of the rows and on the
    audit log.  \<open>EndToEnd\<close> follows a request from its result to the cycle of the monitor that
    confirms it.
  \<^item> Life of the service: \<open>served\<close> is any sequence of requests and cycles.  By rule induction, with
    \<open>signing_phases\<close> for a request and the locale \<open>cycle_invariant\<close> for a cycle, the nonces of
    what went out stay apart and every such transaction is in the audit log.  \<open>api_call\<close> has all
    routes that use the services, the locale \<open>bystander\<close> is the contract of a property that every
    route but the signing one leaves alone, and \<open>operated\<close> is any sequence of calls of all routes
    and of cycles, to which the results are carried over.  The calls follow one another there;
    what overlapping cycles lose is shown in \<open>MonitorTimer\<close>.  No statement of the database fails
    there either; a statement that fails after a broadcast leaves a transaction out that the
    rows do not show (\<open>unrecorded_broadcast_is_written_off\<close> in \<open>EndToEnd\<close>).
  \<^item> Rows: \<open>own_rows\<close> and \<open>rows_of\<close> name the seed and the wallet by the rows of the tables that the
    statements of a call read, \<open>replays\<close> a result by a row of the table of requests.
  \<^item> Routes: \<open>serve_org_outcome\<close> relates every route of an organization to its stamp.

  Bounds: one JSON-RPC call makes three attempts over at most five providers and so at most
  fifteen requests; one signing sends at most 61 requests (fees, nonce and broadcast with four
  RPC calls, one to the signer), one speed-up 46, one derivation three.  The only loop
  without a bound of its own is \<open>waitForReceipt\<close>; it takes fuel, and \<open>waiting_ends\<close> shows
  that one round for every three seconds of the timeout and two more are enough once pauses take time.


  Choices of the model.

  The pauses between retries only pass time, which the clock already does.  Calls that the
  source starts without waiting for them (the synchronization of a nonce after an error, the
  time of last use of a key) run in line.  Decimal numbers of the configuration are exact.
  The estimate of the gas limit and the counts of confirmations are exact integers.
  Strings are ASCII; a dash outside ASCII in one message is written as a minus sign.  Of a
  refused body only the refusal is modelled and not its text.  The multiplier of a speed-up is
  rounded exactly and not as a double; a row of the fee history must be an array, where the
  source would also index a text; a property \<open>__proto__\<close> of a logged body is an ordinary one.  An array for \<open>txFields\<close>
  counts as a missing one.  What the database driver makes of a paging bound that is not a
  natural number is a parameter.


  Not modelled.

  Dependency injection and the module files, the connection pool, security headers, the API
  documentation, the log messages of the services, the counters of the rate limiter: they are
  configuration of packages or output.  The signer under \<open>cmd/crypto\<close> is a service in another language behind HTTP;
  its answers are arbitrary here.
\<close>

end
